(* ===== verification/Prelude.thy ===== *)
theory Prelude
  imports Main "HOL-Library.Sublist" "HOL-Library.Char_ord" "HOL-Library.List_Lexorder" "HOL-Library.Word" "HOL-Library.Code_Target_Nat"
begin

text \<open>
  Shared vocabulary of the development: the error values of the Go code, the machine
  types, the collections of rewrite rules that the component theories fill, and the
  generic list lemmas they share. Strings are Go strings, sequences of bytes, so
  \<open>string\<close> (a list of 8-bit characters) is used as it is, ordered bytewise
  (\<open>Char_ord\<close> and \<open>List_Lexorder\<close>), which is the order of Go's string comparison
  and of \<open>sort.Strings\<close>.
\<close>

named_theorems go_eval "equations that evaluate the string and number primitives"
named_theorems go_io "equations of the file-system primitives"

type_synonym uint64 = "64 word"

text \<open>
  Go's \<open>int\<close> and \<open>int64\<close> are 64 bits wide on every platform the tools run on (amd64 and
  arm64). A value of these types is modelled as an \<open>int\<close>; \<open>int64_range\<close> is the
  range it has to lie in.
\<close>

definition int64_range :: "int \<Rightarrow> bool" where
  "int64_range i \<longleftrightarrow> - (2 ^ 63) \<le> i \<and> i < 2 ^ 63"

text \<open>
  Error values. \<open>SysErr\<close> is an error of the operating system (its text is chosen by the
  kernel), \<open>TooLong\<close> is \<open>bufio.ErrTooLong\<close>, \<open>NumErr\<close> is a \<open>*strconv.NumError\<close> with its
  reason and the offending input, \<open>BadPattern\<close> is \<open>filepath.ErrBadPattern\<close>, and
  \<open>Errorf\<close> is \<open>fmt.Errorf\<close>: the format string, its \<open>%s\<close>, \<open>%q\<close> and \<open>%d\<close> arguments,
  and the error wrapped by \<open>%w\<close>, if any.
\<close>

datatype num_err = ErrSyntax | ErrRange

datatype go_err =
    SysErr string
  | TooLong
  | NumErr num_err string
  | BadPattern
  | Errorf string "string list" "go_err option"

subsection \<open>Lists\<close>

lemma takeWhile_append_stop [simp]:
  "(\<And>x. x \<in> set xs \<Longrightarrow> P x) \<Longrightarrow> \<not> P y \<Longrightarrow> takeWhile P (xs @ y # ys) = xs"
  by (induction xs) auto

lemma dropWhile_append_stop [simp]:
  "(\<And>x. x \<in> set xs \<Longrightarrow> P x) \<Longrightarrow> \<not> P y \<Longrightarrow> dropWhile P (xs @ y # ys) = y # ys"
  by (induction xs) auto

lemma find_append:
  "List.find P (xs @ ys) = (case List.find P xs of None \<Rightarrow> List.find P ys | Some x \<Rightarrow> Some x)"
  by (induction xs) auto

lemma find_None_set: "List.find P xs = None \<longleftrightarrow> (\<forall>x \<in> set xs. \<not> P x)"
  by (induction xs) auto

lemma find_Some_set: "List.find P xs = Some x \<Longrightarrow> x \<in> set xs \<and> P x"
  by (induction xs) (auto split: if_splits)

lemma find_concat_Some:
  "List.find P (concat xss) = Some x \<Longrightarrow> \<exists>xs \<in> set xss. List.find P xs = Some x"
proof (induction xss)
  case (Cons ys yss)
  have app: "List.find P (ys @ zs) = (case List.find P ys of None \<Rightarrow> List.find P zs | s \<Rightarrow> s)" for zs
    by (induction ys) auto
  from Cons show ?case by (auto simp: app split: option.splits)
qed simp

lemma find_Some_split:
  "List.find P xs = Some x \<Longrightarrow> \<exists>ys zs. xs = ys @ x # zs \<and> P x \<and> (\<forall>y \<in> set ys. \<not> P y)"
proof (induction xs)
  case Nil
  then show ?case by simp
next
  case (Cons a xs)
  show ?case
  proof (cases "P a")
    case True
    with Cons.prems have "x = a" by simp
    with True have "a # xs = [] @ x # xs \<and> P x \<and> (\<forall>y \<in> set []. \<not> P y)" by simp
    then show ?thesis by blast
  next
    case False
    with Cons.prems have "List.find P xs = Some x" by simp
    from Cons.IH [OF this] obtain ys zs
      where "xs = ys @ x # zs" "P x" "\<forall>y \<in> set ys. \<not> P y" by blast
    with False have "a # xs = (a # ys) @ x # zs \<and> P x \<and> (\<forall>y \<in> set (a # ys). \<not> P y)" by simp
    then show ?thesis by blast
  qed
qed

text \<open>The filter-and-map loop: \<open>continue\<close> is \<open>None\<close>, \<open>append\<close> is \<open>Some\<close>.\<close>

lemma set_map_filter: "set (List.map_filter f xs) = {y. \<exists>x \<in> set xs. f x = Some y}"
  by (induction xs) (auto split: option.splits)

lemma map_filter_append [simp]:
  "List.map_filter f (xs @ ys) = List.map_filter f xs @ List.map_filter f ys"
  by (induction xs) (auto split: option.splits)

lemma map_filter_None: "\<forall>x \<in> set xs. f x = None \<Longrightarrow> List.map_filter f xs = []"
  by (induction xs) auto

lemma map_filter_id:
  "(\<And>x. x \<in> set xs \<Longrightarrow> f x = Some (g x)) \<Longrightarrow> List.map_filter f xs = map g xs"
  by (induction xs) auto

lemma sorted_map_filter:
  assumes "sorted (map k xs)" and "\<And>x y. x \<in> set xs \<Longrightarrow> f x = Some y \<Longrightarrow> h y = k x"
  shows "sorted (map h (List.map_filter f xs))"
  using assms
proof (induction xs)
  case Nil
  then show ?case by simp
next
  case (Cons a xs)
  from Cons.prems have sor: "sorted (map k xs)"
    and h: "\<And>x y. x \<in> set xs \<Longrightarrow> f x = Some y \<Longrightarrow> h y = k x" by auto
  then have IH: "sorted (map h (List.map_filter f xs))" by (rule Cons.IH)
  show ?case
  proof (cases "f a")
    case None
    with IH show ?thesis by simp
  next
    case (Some b)
    then have "h b = k a" using Cons.prems(2) by simp
    moreover have "\<forall>y \<in> set (List.map_filter f xs). k a \<le> h y"
      using Cons.prems(1) h by (fastforce simp: set_map_filter)
    ultimately show ?thesis using IH Some by simp
  qed
qed

end
