(* ===== verification/Go_Strings.thy ===== *)
theory Go_Strings
  imports Prelude
begin

text \<open>
  The functions of Go's package \<open>strings\<close> that the tools call, on byte strings.
  \<open>Fields\<close> and \<open>TrimSpace\<close> split and cut at \<open>unicode.IsSpace\<close>. The white-space runes
  beyond ASCII (U+0085, U+00A0, U+1680, U+2000..U+200A, U+2028, U+2029, U+202F, U+205F,
  U+3000) have UTF-8 encodings of two or three bytes that start with a lead byte, and a
  lead byte is never part of another rune; so a position starts such a rune exactly when
  its encoding starts there, and no decoder is needed to find them.
\<close>

subsection \<open>Prefixes, substrings, separators\<close>

abbreviation HasPrefix :: "string \<Rightarrow> string \<Rightarrow> bool" where
  "HasPrefix s p \<equiv> prefix p s"

abbreviation Contains :: "string \<Rightarrow> string \<Rightarrow> bool" where
  "Contains s sub \<equiv> sublist sub s"

definition TrimPrefix :: "string \<Rightarrow> string \<Rightarrow> string" where
  "TrimPrefix s p = (if prefix p s then drop (length p) s else s)"

definition TrimSuffix :: "string \<Rightarrow> string \<Rightarrow> string" where
  "TrimSuffix s p = (if suffix p s then take (length s - length p) s else s)"

text \<open>\<open>strings.Index\<close>; the result -1 of the Go function is \<open>None\<close>.\<close>

fun Index :: "string \<Rightarrow> string \<Rightarrow> nat option" where
  "Index [] sub = (if sub = [] then Some 0 else None)"
| "Index (c # s) sub =
     (if prefix sub (c # s) then Some 0 else map_option Suc (Index s sub))"

text \<open>\<open>strings.LastIndex\<close> of a one-byte string.\<close>

fun LastIndex :: "string \<Rightarrow> char \<Rightarrow> nat option" where
  "LastIndex [] c = None"
| "LastIndex (x # s) c =
     (case LastIndex s c of Some i \<Rightarrow> Some (Suc i) | None \<Rightarrow> if x = c then Some 0 else None)"

text \<open>\<open>strings.Split\<close> and \<open>strings.SplitN\<close> with limit 2, at a one-byte separator.\<close>

fun Split :: "char \<Rightarrow> string \<Rightarrow> string list" where
  "Split c [] = [[]]"
| "Split c (x # s) =
     (if x = c then [] # Split c s
      else (case Split c s of [] \<Rightarrow> [[x]] | y # ys \<Rightarrow> (x # y) # ys))"

definition SplitN2 :: "char \<Rightarrow> string \<Rightarrow> string list" where
  "SplitN2 c s =
     (case dropWhile (\<lambda>x. x \<noteq> c) s of
        [] \<Rightarrow> [s]
      | _ # r \<Rightarrow> [takeWhile (\<lambda>x. x \<noteq> c) s, r])"

text \<open>\<open>strings.Count\<close> and \<open>strings.ReplaceAll(s, c, "")\<close> for a one-byte string.\<close>

abbreviation Count :: "string \<Rightarrow> char \<Rightarrow> nat" where
  "Count s c \<equiv> count_list s c"

definition RemoveAll :: "string \<Rightarrow> char \<Rightarrow> string" where
  "RemoveAll s c = filter (\<lambda>x. x \<noteq> c) s"

lemmas [go_eval] = prefix_code sublist_code TrimPrefix_def TrimSuffix_def Index.simps
  LastIndex.simps Split.simps SplitN2_def RemoveAll_def

lemma TrimPrefix_append [simp]: "TrimPrefix (p @ s) p = s"
  by (simp add: TrimPrefix_def)

lemma Split_not_Nil [simp]: "Split c s \<noteq> []"
  by (induction s) (auto split: list.splits)

lemma Split_no_sep: "c \<notin> set s \<Longrightarrow> Split c s = [s]"
  by (induction s) auto

lemma Split_append: "c \<notin> set a \<Longrightarrow> Split c (a @ c # b) = a # Split c b"
  by (induction a) auto

lemma Split_pieces: "\<forall>p \<in> set (Split c s). c \<notin> set p"
proof (induction s)
  case Nil
  then show ?case by simp
next
  case (Cons x s)
  show ?case
  proof (cases "Split c s")
    case Nil
    then show ?thesis by simp
  next
    case (Cons y ys)
    with Cons.IH show ?thesis by auto
  qed
qed

lemma Split_sublist: "p \<in> set (Split c s) \<Longrightarrow> sublist p s"
proof (induction s arbitrary: p)
  case Nil
  then show ?case by simp
next
  case (Cons x s)
  obtain y ys where ys: "Split c s = y # ys" by (cases "Split c s") auto
  have "prefix y s"
  proof (cases "c \<in> set s")
    case True
    then obtain u v where "s = u @ c # v" "c \<notin> set u" by (meson split_list_first)
    with ys show ?thesis by (simp add: Split_append)
  next
    case False
    with ys show ?thesis by (simp add: Split_no_sep)
  qed
  then have "sublist (x # y) (x # s)" by (auto simp: prefix_def sublist_def intro: exI [of _ "[]"])
  moreover have "q \<in> set (Split c s) \<Longrightarrow> sublist q (x # s)" for q
    using Cons.IH by (simp add: sublist_Cons_right)
  ultimately show ?case using Cons.prems ys by (auto split: if_splits)
qed

lemma TrimPrefix_sublist: "sublist (TrimPrefix s p) s"
  by (simp add: TrimPrefix_def)

lemma length_Split: "length (Split c s) = Suc (Count s c)"
  by (induction s) (auto split: list.splits)

lemma SplitN2_no_sep: "c \<notin> set s \<Longrightarrow> SplitN2 c s = [s]"
proof -
  assume "c \<notin> set s"
  then have "dropWhile (\<lambda>x. x \<noteq> c) s = []" by (induction s) auto
  then show ?thesis by (simp only: SplitN2_def list.case)
qed

lemma SplitN2_append [simp]: "c \<notin> set a \<Longrightarrow> SplitN2 c (a @ c # b) = [a, b]"
proof -
  assume c: "c \<notin> set a"
  then have "dropWhile (\<lambda>x. x \<noteq> c) (a @ c # b) = c # b"
    by (intro dropWhile_append_stop) auto
  moreover have "takeWhile (\<lambda>x. x \<noteq> c) (a @ c # b) = a"
    using c by (intro takeWhile_append_stop) auto
  ultimately show ?thesis by (simp add: SplitN2_def)
qed

lemma SplitN2_hit: "SplitN2 c s = [a, b] \<Longrightarrow> s = a @ c # b \<and> c \<notin> set a"
proof (cases "c \<in> set s")
  case False
  assume "SplitN2 c s = [a, b]"
  with False show ?thesis by (simp add: SplitN2_no_sep)
next
  case True
  assume eq: "SplitN2 c s = [a, b]"
  from True obtain u v where "s = u @ c # v" "c \<notin> set u" by (meson split_list_first)
  with eq show ?thesis by simp
qed

lemma length_SplitN2: "length (SplitN2 c s) = (if c \<in> set s then 2 else 1)"
proof (cases "c \<in> set s")
  case True
  then obtain u v where "s = u @ c # v" "c \<notin> set u" by (meson split_list_first)
  then show ?thesis by simp
qed (simp add: SplitN2_no_sep)

lemma Index_char:
  "Index s [c] = (if c \<in> set s then Some (length (takeWhile (\<lambda>x. x \<noteq> c) s)) else None)"
  by (induction s) auto

lemma LastIndex_append:
  "c \<notin> set b \<Longrightarrow> LastIndex (a @ c # b) c = Some (length a)"
proof (induction a)
  case Nil
  then have "LastIndex b c = None" by (induction b) auto
  then show ?case by simp
qed simp

lemma LastIndex_None: "LastIndex s c = None \<longleftrightarrow> c \<notin> set s"
  by (induction s) (auto split: option.splits)

subsection \<open>Lower case\<close>

text \<open>
  \<open>strings.ToLower\<close>, as far as a search for ASCII words can see it: ASCII letters, and the two
  other characters whose lower case is ASCII, the Kelvin sign and the dotted capital I. The
  remaining bytes of other characters stay outside ASCII and are left as they are.
\<close>

definition lower_char :: "char \<Rightarrow> char" where
  "lower_char c = (let v = (of_char c :: nat) in if 65 \<le> v \<and> v \<le> 90 then char_of (v + 32) else c)"

fun ascii_lower :: "string \<Rightarrow> string" where
  "ascii_lower [] = []"
| "ascii_lower (c # s) =
     (if prefix [CHR 0xE2, CHR 0x84, CHR 0xAA] (c # s) then CHR ''k'' # ascii_lower (drop 2 s)
      else if prefix [CHR 0xC4, CHR 0xB0] (c # s) then CHR ''i'' # ascii_lower (drop 1 s)
      else lower_char c # ascii_lower s)"

subsection \<open>White space\<close>

definition ascii_space :: "char \<Rightarrow> bool" where
  "ascii_space c \<longleftrightarrow>
     c \<in> {CHR '' '', CHR 0x0A, CHR 0x09, CHR 0x0D, CHR 0x0B, CHR 0x0C}"

definition space2 :: "char \<Rightarrow> char \<Rightarrow> bool" where
  "space2 c d \<longleftrightarrow> c = CHR 0xC2 \<and> d \<in> {CHR 0x85, CHR 0xA0}"

definition space3 :: "char \<Rightarrow> char \<Rightarrow> char \<Rightarrow> bool" where
  "space3 c d e \<longleftrightarrow>
     (c = CHR 0xE1 \<and> d = CHR 0x9A \<and> e = CHR 0x80)
   \<or> (c = CHR 0xE2 \<and> d = CHR 0x80 \<and>
        e \<in> {CHR 0x80, CHR 0x81, CHR 0x82, CHR 0x83, CHR 0x84, CHR 0x85, CHR 0x86,
             CHR 0x87, CHR 0x88, CHR 0x89, CHR 0x8A, CHR 0xA8, CHR 0xA9, CHR 0xAF})
   \<or> (c = CHR 0xE2 \<and> d = CHR 0x81 \<and> e = CHR 0x9F)
   \<or> (c = CHR 0xE3 \<and> d = CHR 0x80 \<and> e = CHR 0x80)"

text \<open>One white-space rune off the front, or off the end of a string given reversed.\<close>

fun strip_space :: "string \<Rightarrow> string option" where
  "strip_space [] = None"
| "strip_space (c # s) =
     (if ascii_space c then Some s
      else (case s of
              [] \<Rightarrow> None
            | d # s' \<Rightarrow>
                if space2 c d then Some s'
                else (case s' of [] \<Rightarrow> None | e # s'' \<Rightarrow> if space3 c d e then Some s'' else None)))"

fun strip_space_rev :: "string \<Rightarrow> string option" where
  "strip_space_rev [] = None"
| "strip_space_rev (c # s) =
     (if ascii_space c then Some s
      else (case s of
              [] \<Rightarrow> None
            | d # s' \<Rightarrow>
                if space2 d c then Some s'
                else (case s' of [] \<Rightarrow> None | e # s'' \<Rightarrow> if space3 e d c then Some s'' else None)))"

lemma strip_space_length: "strip_space s = Some r \<Longrightarrow> length r < length s"
  by (cases s) (auto split: if_splits list.splits)

lemma strip_space_rev_length: "strip_space_rev s = Some r \<Longrightarrow> length r < length s"
  by (cases s) (auto split: if_splits list.splits)

function trim_left :: "string \<Rightarrow> string" where
  "trim_left s = (case strip_space s of None \<Rightarrow> s | Some r \<Rightarrow> trim_left r)"
  by pat_completeness auto
termination
  by (relation "measure length") (auto dest: strip_space_length)

function trim_left_rev :: "string \<Rightarrow> string" where
  "trim_left_rev s = (case strip_space_rev s of None \<Rightarrow> s | Some r \<Rightarrow> trim_left_rev r)"
  by pat_completeness auto
termination
  by (relation "measure length") (auto dest: strip_space_rev_length)

declare trim_left.simps [simp del] trim_left_rev.simps [simp del]

definition TrimSpace :: "string \<Rightarrow> string" where
  "TrimSpace s = rev (trim_left_rev (rev (trim_left s)))"

text \<open>
  \<open>strings.Fields\<close>: \<open>cur\<close> is the field being read, reversed. A field ends at a space or
  at the end of the string, and empty fields are dropped.
\<close>

definition flush :: "string \<Rightarrow> string list \<Rightarrow> string list" where
  "flush cur fs = (if cur = [] then fs else rev cur # fs)"

function fields_from :: "string \<Rightarrow> string \<Rightarrow> string list" where
  "fields_from s cur =
     (case strip_space s of
        Some r \<Rightarrow> flush cur (fields_from r [])
      | None \<Rightarrow> (case s of [] \<Rightarrow> flush cur [] | c # r \<Rightarrow> fields_from r (c # cur)))"
  by pat_completeness auto
termination
  by (relation "measure (\<lambda>(s, cur). length s)") (auto dest: strip_space_length)

declare fields_from.simps [simp del] strip_space.simps [simp del] strip_space_rev.simps [simp del]

lemma strip_space_Nil [simp]: "strip_space [] = None"
  by (simp add: strip_space.simps)

lemma strip_space_rev_Nil [simp]: "strip_space_rev [] = None"
  by (simp add: strip_space_rev.simps)

lemma strip_space_rev_ascii [simp]: "ascii_space c \<Longrightarrow> strip_space_rev (c # s) = Some s"
  by (simp add: strip_space_rev.simps)

lemma strip_space_ascii [simp]: "ascii_space c \<Longrightarrow> strip_space (c # s) = Some s"
  by (simp add: strip_space.simps)

definition Fields :: "string \<Rightarrow> string list" where
  "Fields s = fields_from s []"

lemmas [go_eval] = ascii_space_def space2_def space3_def TrimSpace_def trim_left.simps
  trim_left_rev.simps strip_space.simps strip_space_rev.simps flush_def fields_from.simps Fields_def

subsection \<open>Strings with no white space\<close>

fun no_space :: "string \<Rightarrow> bool" where
  "no_space [] = True"
| "no_space (c # s) = (strip_space (c # s) = None \<and> no_space s)"

text \<open>A token is what \<open>Fields\<close> yields: a non-empty string with no white space.\<close>

definition token :: "string \<Rightarrow> bool" where
  "token s \<longleftrightarrow> s \<noteq> [] \<and> no_space s"

lemma strip_space_prefix: "strip_space s = Some r \<Longrightarrow> strip_space (s @ t) = Some (r @ t)"
  by (cases s) (auto simp: strip_space.simps split: if_splits list.splits)

lemma strip_space_before_space:
  assumes "strip_space s = None" and "s \<noteq> []" and "ascii_space x"
  shows "strip_space (s @ x # t) = None"
proof -
  have x: "\<not> space2 c x" "\<not> space3 c x e" "\<not> space3 c d x" for c d e
    using assms(3) by (auto simp: ascii_space_def space2_def space3_def)
  show ?thesis using assms x
    by (cases s) (auto simp: strip_space.simps split: if_splits list.splits)
qed

lemma no_space_append1: "no_space (s @ t) \<Longrightarrow> no_space s"
proof (induction s)
  case Nil
  then show ?case by simp
next
  case (Cons c s)
  have "strip_space (c # s) = None"
    using Cons.prems strip_space_prefix [of "c # s" _ t] by (cases "strip_space (c # s)") auto
  with Cons show ?case by (simp)
qed

lemma no_space_append2: "no_space (s @ t) \<Longrightarrow> no_space t"
  by (induction s) auto

lemma strip_space_suffix: "strip_space s = Some r \<Longrightarrow> \<exists>p. p \<noteq> [] \<and> s = p @ r \<and> (\<forall>t. strip_space (p @ t) = Some t)"
proof (cases s)
  case Nil
  assume "strip_space s = Some r"
  with Nil show ?thesis by simp
next
  case (Cons c s')
  assume eq: "strip_space s = Some r"
  consider "ascii_space c" "r = s'"
    | d where "\<not> ascii_space c" "s' = d # r" "space2 c d"
    | d e where "\<not> ascii_space c" "s' = d # e # r" "\<not> space2 c d" "space3 c d e"
    using eq Cons by (auto simp: strip_space.simps split: if_splits list.splits)
  then show ?thesis
  proof cases
    case 1
    with Cons show ?thesis by (intro exI [of _ "[c]"]) simp
  next
    case (2 d)
    with Cons show ?thesis by (intro exI [of _ "[c, d]"]) (simp add: strip_space.simps)
  next
    case (3 d e)
    with Cons show ?thesis by (intro exI [of _ "[c, d, e]"]) (simp add: strip_space.simps)
  qed
qed

lemma strip_space_rev_None:
  assumes "no_space s"
  shows "strip_space_rev (rev s) = None"
proof (rule ccontr)
  assume "strip_space_rev (rev s) \<noteq> None"
  then obtain r where r: "strip_space_rev (rev s) = Some r" by blast
  then obtain c t where ct: "rev s = c # t" by (cases "rev s") auto
  then have s: "s = rev t @ [c]" by (metis rev_eq_Cons_iff)
  consider "ascii_space c"
    | d u where "t = d # u" "space2 d c"
    | d e u where "t = d # e # u" "space3 e d c"
    using r ct by (auto simp: strip_space_rev.simps split: if_splits list.splits)
  then show False
  proof cases
    case 1
    with s no_space_append2 [of "rev t" "[c]"] assms show False by simp
  next
    case (2 d u)
    with s no_space_append2 [of "rev u" "[d, c]"] assms show False
      by (auto simp: strip_space.simps split: if_splits)
  next
    case (3 d e u)
    with s no_space_append2 [of "rev u" "[e, d, c]"] assms show False
      by (auto simp: strip_space.simps split: if_splits)
  qed
qed

lemma no_space_strip: "no_space s \<Longrightarrow> strip_space s = None"
  by (cases s) auto

lemma TrimSpace_no_space: "no_space s \<Longrightarrow> TrimSpace s = s"
  by (simp add: TrimSpace_def trim_left.simps [of s] no_space_strip
      trim_left_rev.simps [of "rev s"] strip_space_rev_None)

lemma trim_left_Cons_space: "ascii_space x \<Longrightarrow> trim_left (x # s) = trim_left s"
  by (simp add: trim_left.simps [of "x # s"])

lemma TrimSpace_space_Cons: "ascii_space x \<Longrightarrow> TrimSpace (x # s) = TrimSpace s"
  by (simp add: TrimSpace_def trim_left_Cons_space)

lemma strip_space_rev_before_space:
  assumes "strip_space_rev r = None" and "r \<noteq> []" and "ascii_space x"
  shows "strip_space_rev (r @ x # t) = None"
proof -
  have x: "\<not> space2 x c" "\<not> space3 x d c" "\<not> space3 e x c" for c d e
    using assms(3) by (auto simp: ascii_space_def space2_def space3_def)
  show ?thesis using assms x
    by (cases r) (auto simp: strip_space_rev.simps split: if_splits list.splits)
qed

lemma TrimSpace_snoc:
  assumes "strip_space s = None" and "s \<noteq> []" and "strip_space_rev (rev s) = None" and "ascii_space x"
  shows "TrimSpace (s @ [x]) = s"
  using assms strip_space_before_space [of s x "[]"]
  by (simp add: TrimSpace_def trim_left.simps [of "s @ [x]"] trim_left_rev.simps [of "x # rev s"]
      trim_left_rev.simps [of "rev s"])

lemma TrimSpace_stable:
  assumes "strip_space s = None" and "strip_space_rev (rev s) = None"
  shows "TrimSpace s = s"
  using assms by (simp add: TrimSpace_def trim_left.simps [of s] trim_left_rev.simps [of "rev s"])

lemma TrimSpace_token_nl:
  assumes "no_space s" "s \<noteq> []" "ascii_space x"
  shows "TrimSpace (s @ [x]) = s"
proof -
  have "strip_space (s @ [x]) = None"
    using assms strip_space_before_space [of s x "[]"] by (simp add: no_space_strip)
  then have "trim_left (s @ [x]) = s @ [x]" by (simp add: trim_left.simps [of "s @ [x]"])
  moreover have "trim_left_rev (x # rev s) = rev s"
    using assms by (simp add: trim_left_rev.simps [of "x # rev s"]
        trim_left_rev.simps [of "rev s"] strip_space_rev_None)
  ultimately show ?thesis by (simp add: TrimSpace_def)
qed

subsection \<open>Fields of a rendered line\<close>

lemma fields_from_run:
  assumes "no_space t" and "ascii_space x"
  shows "fields_from (t @ x # u) cur = flush (rev t @ cur) (fields_from u [])"
  using assms
proof (induction t arbitrary: cur)
  case Nil
  then show ?case by (simp add: fields_from.simps [of "x # u"])
next
  case (Cons c t)
  have "strip_space ((c # t) @ x # u) = None"
    using Cons.prems by (intro strip_space_before_space) auto
  then have "fields_from ((c # t) @ x # u) cur = fields_from (t @ x # u) (c # cur)"
    by (simp add: fields_from.simps [of "c # t @ x # u"])
  with Cons show ?case by (simp)
qed

lemma fields_from_end: "no_space t \<Longrightarrow> fields_from t cur = flush (rev t @ cur) []"
proof (induction t arbitrary: cur)
  case Nil
  then show ?case by (simp add: fields_from.simps [of "[]"])
next
  case (Cons c t)
  then have "fields_from (c # t) cur = fields_from t (c # cur)"
    by (simp add: fields_from.simps [of "c # t"])
  with Cons show ?case by (simp)
qed

lemma Fields_Nil [simp]: "Fields [] = []"
  by (simp add: Fields_def fields_from.simps [of "[]"] flush_def)

lemma Fields_token: "token t \<Longrightarrow> Fields t = [t]"
  by (simp add: Fields_def fields_from_end token_def flush_def)

lemma Fields_token_Cons: "token t \<Longrightarrow> ascii_space x \<Longrightarrow> Fields (t @ x # u) = t # Fields u"
  by (simp add: Fields_def fields_from_run token_def flush_def)

lemma Fields_space_Cons: "ascii_space x \<Longrightarrow> Fields (x # u) = Fields u"
  by (simp add: Fields_def fields_from.simps [of "x # u"] flush_def)

text \<open>The fields of tokens joined by single spaces are the tokens.\<close>

fun unwords :: "string list \<Rightarrow> string" where
  "unwords [] = []"
| "unwords [w] = w"
| "unwords (w # ws) = w @ CHR '' '' # unwords ws"

lemma ascii_space_blank [simp]: "ascii_space CHR '' ''" "ascii_space CHR 0x0A" "ascii_space CHR 0x09"
  by (simp_all add: ascii_space_def)

lemma no_space_ascii: "no_space s \<Longrightarrow> ascii_space c \<Longrightarrow> c \<notin> set s"
  by (induction s) auto

lemma unwords_Cons: "ws \<noteq> [] \<Longrightarrow> unwords (w # ws) = w @ CHR '' '' # unwords ws"
  by (cases ws) auto

lemma unwords_chars: "c \<in> set (unwords ws) \<Longrightarrow> c = CHR '' '' \<or> (\<exists>w \<in> set ws. c \<in> set w)"
  by (induction ws rule: unwords.induct) auto

text \<open>The text of a line of tokens starts and ends with no space.\<close>

lemma strip_unwords: "ws \<noteq> [] \<Longrightarrow> token (hd ws) \<Longrightarrow> strip_space (unwords ws) = None"
  by (cases ws rule: unwords.cases) (auto simp: token_def no_space_strip strip_space_before_space)

lemma strip_rev_unwords:
  "ws \<noteq> [] \<Longrightarrow> token (last ws) \<Longrightarrow> strip_space_rev (rev (unwords ws)) = None"
proof (induction ws rule: unwords.induct)
  case (3 w v vs)
  then have "strip_space_rev (rev (unwords (v # vs))) = None" by simp
  moreover have "unwords (v # vs) \<noteq> []"
    using "3.prems" by (cases vs) (auto simp: token_def)
  ultimately show ?case by (simp add: strip_space_rev_before_space)
qed (auto simp: token_def strip_space_rev_None)

lemma unwords_not_Nil: "ws \<noteq> [] \<Longrightarrow> token (hd ws) \<Longrightarrow> unwords ws \<noteq> []"
  by (cases ws rule: unwords.cases) (auto simp: token_def)

theorem Fields_unwords: "\<forall>w \<in> set ws. token w \<Longrightarrow> Fields (unwords ws) = ws"
  by (induction ws rule: unwords.induct) (auto simp: Fields_token Fields_token_Cons)

text \<open>Every field is a token, and a line split by \<open>Fields\<close> is stable under re-joining.\<close>

fun no_space_upto :: "string \<Rightarrow> string \<Rightarrow> bool" where
  "no_space_upto [] s = True"
| "no_space_upto (c # t) s = (strip_space (c # t @ s) = None \<and> no_space_upto t s)"

lemma no_space_upto_no_space: "no_space_upto t s \<Longrightarrow> no_space t"
proof (induction t)
  case (Cons c t)
  have "strip_space (c # t) = None"
    using Cons.prems strip_space_prefix [of "c # t" _ s]
    by (cases "strip_space (c # t)") auto
  with Cons show ?case by (simp)
qed simp

lemma no_space_upto_snoc:
  "no_space_upto (t @ [c]) s = (no_space_upto t (c # s) \<and> strip_space (c # s) = None)"
  by (induction t) auto

lemma fields_from_tokens:
  "no_space_upto (rev cur) s \<Longrightarrow> \<forall>f \<in> set (fields_from s cur). token f"
proof (induction s cur rule: fields_from.induct)
  case (1 s cur)
  have cur: "\<forall>f \<in> set (flush cur fs). token f" if "\<forall>f \<in> set fs. token f" for fs
    using that no_space_upto_no_space [OF "1.prems"] by (auto simp: flush_def token_def)
  show ?case
  proof (cases "strip_space s")
    case (Some r)
    with "1.IH"(2) have "\<forall>f \<in> set (fields_from r []). token f" by simp
    from cur [OF this] Some show ?thesis by (simp add: fields_from.simps [of s])
  next
    case None
    show ?thesis
    proof (cases s)
      case Nil
      with cur [of "[]"] show ?thesis by (simp add: fields_from.simps [of "[]"])
    next
      case (Cons c r)
      have "no_space_upto (rev (c # cur)) r"
        using "1.prems" None Cons by (simp add: no_space_upto_snoc)
      with "1.IH"(1) None Cons have "\<forall>f \<in> set (fields_from r (c # cur)). token f" by blast
      with None Cons show ?thesis
        by (simp add: fields_from.simps [of "c # r"])
    qed
  qed
qed

theorem Fields_tokens: "f \<in> set (Fields s) \<Longrightarrow> token f"
  using fields_from_tokens [of "[]" s] by (auto simp: Fields_def)

lemma Fields_unwords_Fields: "Fields (unwords (Fields s)) = Fields s"
  by (rule Fields_unwords) (auto dest: Fields_tokens)

end
