(* ===== verification/Go_Strconv.thy ===== *)
theory Go_Strconv
  imports Go_Strings
begin

text \<open>
  Go's \<open>strconv.Atoi\<close>, \<open>strconv.ParseUint\<close> (bases 10 and 16, 64 bits) and the decimal
  rendering of \<open>%d\<close>. Like the Go functions the parsers return a value \<^emph>\<open>and\<close> an error:
  the tools often drop the error (\<open>v, _ := ...\<close>) and use the value, which is 0 after a
  syntax error and the nearest bound of the type after a range error. Characters are read
  from the left and the first error wins.
\<close>

subsection \<open>Digits\<close>

definition digit_char :: "nat \<Rightarrow> char" where
  "digit_char d = char_of (48 + d)"

definition dec_digit :: "char \<Rightarrow> nat option" where
  "dec_digit c = (let v = (of_char c :: nat) in if 48 \<le> v \<and> v \<le> 57 then Some (v - 48) else None)"

text \<open>The digit value of \<open>strconv.ParseUint\<close>: letters in either case count from 10.\<close>

definition any_digit :: "char \<Rightarrow> nat option" where
  "any_digit c =
     (let v = (of_char c :: nat) in
      if 48 \<le> v \<and> v \<le> 57 then Some (v - 48)
      else if 97 \<le> v \<and> v \<le> 122 then Some (v - 87)
      else if 65 \<le> v \<and> v \<le> 90 then Some (v - 55)
      else None)"

lemma of_char_digit_char: "d < 10 \<Longrightarrow> (of_char (digit_char d) :: nat) = 48 + d"
  by (simp add: digit_char_def)

lemma dec_digit_char [simp]: "d < 10 \<Longrightarrow> dec_digit (digit_char d) = Some d"
  by (simp add: dec_digit_def of_char_digit_char)

lemma any_digit_char [simp]: "d < 10 \<Longrightarrow> any_digit (digit_char d) = Some d"
  by (simp add: any_digit_def of_char_digit_char)

lemma dec_digit_lt: "dec_digit c = Some d \<Longrightarrow> d < 10"
  by (auto simp: dec_digit_def Let_def split: if_splits)

lemma dec_digit_space: "ascii_space c \<Longrightarrow> dec_digit c = None"
  by (auto simp: ascii_space_def dec_digit_def)

subsection \<open>Decimal rendering\<close>

fun utoa :: "nat \<Rightarrow> string" where
  "utoa n = (if n < 10 then [digit_char n] else utoa (n div 10) @ [digit_char (n mod 10)])"

declare utoa.simps [simp del]

definition itoa :: "int \<Rightarrow> string" where
  "itoa i = (if i < 0 then CHR ''-'' # utoa (nat (- i)) else utoa (nat i))"

lemma utoa_not_Nil [simp]: "utoa n \<noteq> []"
  by (subst utoa.simps) simp

lemma utoa_chars: "\<forall>c \<in> set (utoa n). dec_digit c \<noteq> None"
proof (induction n rule: utoa.induct)
  case (1 n)
  then show ?case by (subst utoa.simps) auto
qed

lemma itoa_not_Nil [simp]: "itoa i \<noteq> []"
  by (simp add: itoa_def)

subsection \<open>ParseUint\<close>

fun parse_digits :: "nat \<Rightarrow> nat \<Rightarrow> nat \<Rightarrow> string \<Rightarrow> nat \<times> num_err option" where
  "parse_digits base mx n [] = (n, None)"
| "parse_digits base mx n (c # s) =
     (case any_digit c of
        None \<Rightarrow> (0, Some ErrSyntax)
      | Some d \<Rightarrow>
          if base \<le> d then (0, Some ErrSyntax)
          else if mx < n * base + d then (mx, Some ErrRange)
          else parse_digits base mx (n * base + d) s)"

definition parse_uint :: "nat \<Rightarrow> string \<Rightarrow> nat \<times> num_err option" where
  "parse_uint base s =
     (if s = [] then (0, Some ErrSyntax) else parse_digits base (2 ^ 64 - 1) 0 s)"

definition num_error :: "num_err option \<Rightarrow> string \<Rightarrow> go_err option" where
  "num_error e s = map_option (\<lambda>r. NumErr r s) e"

definition ParseUint :: "string \<Rightarrow> nat \<Rightarrow> uint64 \<times> go_err option" where
  "ParseUint s base = (let (v, e) = parse_uint base s in (word_of_nat v, num_error e s))"

abbreviation ParseUint_val :: "string \<Rightarrow> nat \<Rightarrow> uint64" where
  "ParseUint_val s base \<equiv> fst (ParseUint s base)"

lemma num_error_None [simp]: "num_error e s = None \<longleftrightarrow> e = None"
  by (simp add: num_error_def)

subsection \<open>Atoi\<close>

definition atoi :: "string \<Rightarrow> int \<times> num_err option" where
  "atoi s =
     (if s = [] then (0, Some ErrSyntax)
      else let neg = (hd s = CHR ''-'');
               body = (if hd s = CHR ''-'' \<or> hd s = CHR ''+'' then tl s else s);
               (un, e) = parse_uint 10 body
           in case e of
                Some ErrSyntax \<Rightarrow> (0, Some ErrSyntax)
              | _ \<Rightarrow>
                  if \<not> neg \<and> 2 ^ 63 \<le> un then (2 ^ 63 - 1, Some ErrRange)
                  else if neg \<and> 2 ^ 63 < un then (- (2 ^ 63), Some ErrRange)
                  else (if neg then - int un else int un, None))"

definition Atoi :: "string \<Rightarrow> int \<times> go_err option" where
  "Atoi s = (let (v, e) = atoi s in (v, num_error e s))"

abbreviation Atoi_val :: "string \<Rightarrow> int" where
  "Atoi_val s \<equiv> fst (Atoi s)"

lemmas [go_eval] = digit_char_def dec_digit_def any_digit_def utoa.simps itoa_def
  parse_uint_def num_error_def ParseUint_def atoi_def Atoi_def

text \<open>The loop for \<open>v, err := Atoi(s); if err != nil\<close>: the value when there is no error.\<close>

definition Atoi_ok :: "string \<Rightarrow> int option" where
  "Atoi_ok s = (case Atoi s of (v, None) \<Rightarrow> Some v | (_, Some _) \<Rightarrow> None)"

lemma Atoi_ok_iff: "Atoi_ok s = Some v \<longleftrightarrow> Atoi s = (v, None)"
  by (cases "Atoi s") (auto simp: Atoi_ok_def split: option.splits)

subsection \<open>Values are in range\<close>

lemma parse_digits_le: "n \<le> mx \<Longrightarrow> parse_digits base mx n s = (v, e) \<Longrightarrow> v \<le> mx"
proof (induction s arbitrary: n)
  case Nil
  then show ?case by simp
next
  case (Cons c s)
  show ?case
  proof (cases "any_digit c")
    case None
    with Cons.prems show ?thesis by simp
  next
    case (Some d)
    with Cons.prems Cons.IH [of "n * base + d"] show ?thesis by (auto split: if_splits)
  qed
qed

lemma parse_uint_le: "parse_uint base s = (v, e) \<Longrightarrow> v \<le> 2 ^ 64 - 1"
  by (auto simp: parse_uint_def split: if_splits dest: parse_digits_le [rotated])

lemma unat_ParseUint: "unat (ParseUint_val s base) = fst (parse_uint base s)"
proof -
  obtain v e where ve: "parse_uint base s = (v, e)" by (cases "parse_uint base s")
  then have "v < 2 ^ 64" using parse_uint_le [of base s v e] by simp
  with ve show ?thesis by (simp add: ParseUint_def unat_of_nat)
qed

lemma Atoi_range: "int64_range (Atoi_val s)"
proof -
  obtain v e where ve: "atoi s = (v, e)" by (cases "atoi s")
  then have "int64_range v"
    by (auto simp: atoi_def int64_range_def Let_def split: if_splits option.splits num_err.splits
        prod.splits)
  with ve show ?thesis by (simp add: Atoi_def)
qed

subsection \<open>Reading back a rendered number\<close>

lemma parse_digits_snoc:
  "parse_digits base mx n s = (v, None) \<Longrightarrow> any_digit c = Some d \<Longrightarrow> d < base \<Longrightarrow>
   v * base + d \<le> mx \<Longrightarrow> parse_digits base mx n (s @ [c]) = (v * base + d, None)"
proof (induction s arbitrary: n)
  case Nil
  then show ?case by simp
next
  case (Cons x s)
  then show ?case by (cases "any_digit x") (auto split: if_splits)
qed

lemma parse_digits_utoa: "n \<le> mx \<Longrightarrow> parse_digits 10 mx 0 (utoa n) = (n, None)"
proof (induction n rule: utoa.induct)
  case (1 n)
  show ?case
  proof (cases "n < 10")
    case True
    with "1.prems" show ?thesis by (subst utoa.simps) simp
  next
    case False
    have "parse_digits 10 mx 0 (utoa (n div 10)) = (n div 10, None)"
      using "1.IH" "1.prems" False by simp
    then have "parse_digits 10 mx 0 (utoa (n div 10) @ [digit_char (n mod 10)])
      = (n div 10 * 10 + n mod 10, None)"
      using "1.prems" by (intro parse_digits_snoc) auto
    with False show ?thesis by (subst utoa.simps) simp
  qed
qed

lemma parse_uint_utoa: "n < 2 ^ 64 \<Longrightarrow> parse_uint 10 (utoa n) = (n, None)"
  by (simp add: parse_uint_def parse_digits_utoa)

lemma ParseUint_utoa [simp]: "ParseUint (utoa (unat w)) 10 = (w, None)"
proof -
  have "unat w < 2 ^ LENGTH(64)" by (rule unsigned_less)
  then have "unat w < 2 ^ 64" by simp
  then show ?thesis by (simp add: ParseUint_def parse_uint_utoa num_error_def)
qed

lemma digit_not_sign: "dec_digit c \<noteq> None \<Longrightarrow> c \<noteq> CHR ''-'' \<and> c \<noteq> CHR ''+''"
  by (auto simp: dec_digit_def)

lemma hd_utoa: "dec_digit (hd (utoa n)) \<noteq> None"
  using utoa_chars [of n] by (metis hd_in_set utoa_not_Nil)

theorem Atoi_itoa: "int64_range i \<Longrightarrow> Atoi (itoa i) = (i, None)"
proof (cases "i < 0")
  case True
  assume "int64_range i"
  with True have "nat (- i) \<le> 2 ^ 63" by (simp add: int64_range_def)
  then have "parse_uint 10 (utoa (nat (- i))) = (nat (- i), None)"
    by (intro parse_uint_utoa) simp
  with True \<open>nat (- i) \<le> 2 ^ 63\<close> show ?thesis
    by (simp add: Atoi_def atoi_def itoa_def num_error_def)
next
  case False
  assume "int64_range i"
  with False have lt: "nat i < 2 ^ 63" by (simp add: int64_range_def nat_less_iff)
  then have "parse_uint 10 (utoa (nat i)) = (nat i, None)"
    by (intro parse_uint_utoa) simp
  moreover have "hd (utoa (nat i)) \<noteq> CHR ''-''" "hd (utoa (nat i)) \<noteq> CHR ''+''"
    using digit_not_sign [OF hd_utoa] by auto
  ultimately show ?thesis using False lt
    by (simp add: Atoi_def atoi_def itoa_def num_error_def)
qed

subsection \<open>Rendered numbers are tokens\<close>

text \<open>
  A string of ASCII characters other than blanks has no white space; digits, signs and the
  punctuation of the kernel's files are such characters.
\<close>

definition plain :: "char \<Rightarrow> bool" where
  "plain c \<longleftrightarrow> (of_char c :: nat) < 128 \<and> \<not> ascii_space c"

lemma plain_no_space: "\<forall>c \<in> set s. plain c \<Longrightarrow> no_space s"
proof (induction s)
  case (Cons c s)
  have "(of_char c :: nat) < 128" using Cons.prems by (simp add: plain_def)
  then have "c \<noteq> CHR 0xC2" "c \<noteq> CHR 0xE1" "c \<noteq> CHR 0xE2" "c \<noteq> CHR 0xE3" by auto
  then have "\<not> space2 c d" "\<not> space3 c d e" for d e
    by (auto simp: space2_def space3_def)
  then have "strip_space (c # s) = None"
    using Cons.prems by (auto simp: strip_space.simps plain_def split: list.splits)
  with Cons show ?case by simp
qed simp

lemma dec_digit_plain: "dec_digit c \<noteq> None \<Longrightarrow> plain c"
  using dec_digit_space [of c] by (auto simp: plain_def dec_digit_def Let_def split: if_splits)

lemma token_utoa [simp]: "token (utoa n)"
  using utoa_chars [of n] by (auto simp: token_def intro!: plain_no_space dec_digit_plain)

lemma plain_minus: "plain CHR ''-''"
  by (simp add: plain_def ascii_space_def)

lemma plain_utoa: "c \<in> set (utoa n) \<Longrightarrow> plain c"
  using utoa_chars [of n] by (auto intro: dec_digit_plain)

lemma token_itoa [simp]: "token (itoa i)"
proof -
  have "\<forall>c \<in> set (itoa i). plain c"
    by (auto simp: itoa_def plain_minus plain_utoa)
  then show ?thesis by (simp add: token_def plain_no_space)
qed

lemma char_notin_utoa: "dec_digit c = None \<Longrightarrow> c \<notin> set (utoa n)"
  using utoa_chars [of n] by auto

end
