(* ===== verification/Go_Path.thy ===== *)
theory Go_Path
  imports Go_Strconv
begin

text \<open>
  Go's \<open>path/filepath\<close> as far as the tools use it: \<open>Clean\<close>, \<open>Join\<close>, \<open>Base\<close>, \<open>Split\<close> and
  \<open>Match\<close>, and the decoder of \<open>unicode/utf8\<close> that \<open>Match\<close> and the padding of
  \<open>fmt.Printf\<close> rely on. \<open>Match\<close> follows the library's chunk-by-chunk search, with
  the pattern parsed once; a malformed pattern is \<open>None\<close>
  (\<open>filepath.ErrBadPattern\<close>).
\<close>

subsection \<open>UTF-8\<close>

definition cont_byte :: "nat \<Rightarrow> bool" where
  "cont_byte b \<longleftrightarrow> 0x80 \<le> b \<and> b \<le> 0xBF"

text \<open>
  \<open>utf8.DecodeRuneInString\<close> of a non-empty string: the rune and its width; an invalid
  or truncated encoding is U+FFFD of width 1.
\<close>

definition decode_rune :: "string \<Rightarrow> nat \<times> nat" where
  "decode_rune s =
     (let b = map of_char (take 4 s) :: nat list; bad = (0xFFFD, 1) in
      case b of
        [] \<Rightarrow> (0xFFFD, 0)
      | b0 # bs \<Rightarrow>
          if b0 < 0x80 then (b0, 1)
          else if 0xC2 \<le> b0 \<and> b0 \<le> 0xDF then
            (case bs of
               b1 # _ \<Rightarrow> if cont_byte b1 then ((b0 - 0xC0) * 64 + (b1 - 0x80), 2) else bad
             | _ \<Rightarrow> bad)
          else if 0xE0 \<le> b0 \<and> b0 \<le> 0xEF then
            (case bs of
               b1 # b2 # _ \<Rightarrow>
                 if cont_byte b1 \<and> cont_byte b2 \<and> (b0 = 0xE0 \<longrightarrow> 0xA0 \<le> b1)
                    \<and> (b0 = 0xED \<longrightarrow> b1 \<le> 0x9F)
                 then ((b0 - 0xE0) * 4096 + (b1 - 0x80) * 64 + (b2 - 0x80), 3) else bad
             | _ \<Rightarrow> bad)
          else if 0xF0 \<le> b0 \<and> b0 \<le> 0xF4 then
            (case bs of
               b1 # b2 # b3 # _ \<Rightarrow>
                 if cont_byte b1 \<and> cont_byte b2 \<and> cont_byte b3 \<and> (b0 = 0xF0 \<longrightarrow> 0x90 \<le> b1)
                    \<and> (b0 = 0xF4 \<longrightarrow> b1 \<le> 0x8F)
                 then ((b0 - 0xF0) * 262144 + (b1 - 0x80) * 4096 + (b2 - 0x80) * 64 + (b3 - 0x80), 4)
                 else bad
             | _ \<Rightarrow> bad)
          else bad)"

lemma decode_rune_width: "s \<noteq> [] \<Longrightarrow> 0 < snd (decode_rune s)"
  by (cases s) (auto simp: decode_rune_def Let_def split: list.splits)

text \<open>\<open>utf8.RuneCountInString\<close>, the length that the padding of \<open>%-20s\<close> counts.\<close>

function rune_count :: "string \<Rightarrow> nat" where
  "rune_count s = (if s = [] then 0 else Suc (rune_count (drop (snd (decode_rune s)) s)))"
  by pat_completeness auto
termination
  by (relation "measure length") (auto simp: decode_rune_width)

declare rune_count.simps [simp del]

subsection \<open>Clean, Join, Base\<close>

fun join_with :: "string \<Rightarrow> string list \<Rightarrow> string" where
  "join_with sep [] = []"
| "join_with sep [w] = w"
| "join_with sep (w # ws) = w @ sep @ join_with sep ws"

text \<open>The component stack of \<open>Clean\<close>, most recent component first.\<close>

fun clean_comps :: "bool \<Rightarrow> string list \<Rightarrow> string list \<Rightarrow> string list" where
  "clean_comps rooted acc [] = rev acc"
| "clean_comps rooted acc (c # cs) =
     (if c = [] \<or> c = ''.'' then clean_comps rooted acc cs
      else if c = ''..'' then
        (if acc \<noteq> [] \<and> hd acc \<noteq> ''..'' then clean_comps rooted (tl acc) cs
         else if rooted then clean_comps rooted acc cs
         else clean_comps rooted (c # acc) cs)
      else clean_comps rooted (c # acc) cs)"

definition path_Clean :: "string \<Rightarrow> string" where
  "path_Clean p =
     (if p = [] then ''.''
      else let rooted = (hd p = CHR ''/'');
               body = join_with ''/'' (clean_comps rooted [] (Split CHR ''/'' p))
           in if rooted then CHR ''/'' # body else if body = [] then ''.'' else body)"

definition path_Join :: "string list \<Rightarrow> string" where
  "path_Join elems =
     (case dropWhile (\<lambda>e. e = []) elems of [] \<Rightarrow> [] | es \<Rightarrow> path_Clean (join_with ''/'' es))"

definition path_Base :: "string \<Rightarrow> string" where
  "path_Base p =
     (if p = [] then ''.''
      else let q = rev (dropWhile (\<lambda>c. c = CHR ''/'') (rev p));
               b = last (Split CHR ''/'' q)
           in if b = [] then ''/'' else b)"

text \<open>\<open>filepath.Split\<close>: everything up to and including the last slash, and the rest.\<close>

definition path_Split :: "string \<Rightarrow> string \<times> string" where
  "path_Split p =
     (rev (dropWhile (\<lambda>c. c \<noteq> CHR ''/'') (rev p)), rev (takeWhile (\<lambda>c. c \<noteq> CHR ''/'') (rev p)))"

text \<open>A name that a directory can hold: not empty, no slash, not a dot name.\<close>

definition path_name :: "string \<Rightarrow> bool" where
  "path_name n \<longleftrightarrow> n \<noteq> [] \<and> CHR ''/'' \<notin> set n \<and> n \<noteq> ''.'' \<and> n \<noteq> ''..''"

fun abs_path :: "string list \<Rightarrow> string" where
  "abs_path [] = []"
| "abs_path (c # cs) = CHR ''/'' # c @ abs_path cs"

lemma abs_path_snoc: "abs_path (cs @ [c]) = abs_path cs @ CHR ''/'' # c"
  by (induction cs) auto

lemma join_with_abs: "cs \<noteq> [] \<Longrightarrow> CHR ''/'' # join_with ''/'' cs = abs_path cs"
proof (induction cs)
  case (Cons c cs)
  show ?case
  proof (cases cs)
    case (Cons d ds)
    with Cons.IH have "CHR ''/'' # join_with ''/'' cs = abs_path cs" by simp
    with Cons show ?thesis by simp
  qed simp
qed simp

lemma Split_abs_path:
  "\<forall>c \<in> set cs. path_name c \<Longrightarrow> Split CHR ''/'' (abs_path cs) = [] # (if cs = [] then [] else cs)"
proof (induction cs)
  case (Cons c cs)
  then have c: "CHR ''/'' \<notin> set c" by (simp add: path_name_def)
  show ?case
  proof (cases cs)
    case Nil
    with c show ?thesis by (simp add: Split_no_sep)
  next
    case (Cons d ds)
    then have abs: "abs_path cs = CHR ''/'' # d @ abs_path ds" by simp
    from Cons.IH Cons.prems Cons have IH: "Split CHR ''/'' (abs_path cs) = [] # cs" by simp
    then have "Split CHR ''/'' (d @ abs_path ds) = cs" using abs by simp
    with c abs have "Split CHR ''/'' (c @ abs_path cs) = c # cs" by (simp add: Split_append)
    then show ?thesis by simp
  qed
qed simp

lemma clean_comps_names:
  "\<forall>c \<in> set cs. path_name c \<Longrightarrow> clean_comps r acc cs = rev acc @ cs"
  by (induction cs arbitrary: acc) (auto simp: path_name_def)

lemma path_Clean_abs:
  assumes "\<forall>c \<in> set cs. path_name c" and "cs \<noteq> []"
  shows "path_Clean (abs_path cs) = abs_path cs"
proof -
  have "hd (abs_path cs) = CHR ''/''" "abs_path cs \<noteq> []" using assms(2) by (cases cs; simp)+
  moreover have "clean_comps True [] (Split CHR ''/'' (abs_path cs)) = cs"
    using assms by (simp add: Split_abs_path clean_comps_names)
  ultimately show ?thesis using assms(2) by (simp add: path_Clean_def join_with_abs)
qed

text \<open>Joining a name to a clean absolute path appends it, which is what the tools expect.\<close>

lemma path_Join_name:
  assumes "\<forall>c \<in> set cs. path_name c" and "cs \<noteq> []" and "path_name n"
  shows "path_Join [abs_path cs, n] = abs_path cs @ CHR ''/'' # n"
proof -
  have ne: "abs_path cs \<noteq> []" using assms(2) by (cases cs) auto
  have "path_Join [abs_path cs, n] = path_Clean (abs_path (cs @ [n]))"
    using ne by (simp add: path_Join_def abs_path_snoc)
  also have "\<dots> = abs_path (cs @ [n])"
    using assms by (intro path_Clean_abs) auto
  finally show ?thesis by (simp add: abs_path_snoc)
qed

subsection \<open>Match\<close>

datatype gelem =
    GLit char
  | GAny
  | GClass bool "(nat \<times> nat) list"

text \<open>\<open>getEsc\<close>: one rune of a character class, possibly escaped; at least one byte must follow.\<close>

definition get_esc :: "string \<Rightarrow> (nat \<times> string) option" where
  "get_esc p =
     (if p = [] \<or> hd p = CHR ''-'' \<or> hd p = CHR '']'' then None
      else let q = (if hd p = CHR 0x5C then tl p else p) in
        if q = [] then None
        else let (r, n) = decode_rune q in
          if r = 0xFFFD \<and> n = 1 \<or> drop n q = [] then None else Some (r, drop n q))"

lemma get_esc_length: "get_esc p = Some (r, q) \<Longrightarrow> length q < length p"
proof -
  assume a: "get_esc p = Some (r, q)"
  define p' where "p' = (if hd p = CHR 0x5C then tl p else p)"
  have "p \<noteq> []" "p' \<noteq> []" "q = drop (snd (decode_rune p')) p'"
    using a by (auto simp: get_esc_def p'_def Let_def split: if_splits prod.splits)
  moreover have "length p' \<le> length p" by (simp add: p'_def)
  ultimately show ?thesis using decode_rune_width [of p'] by (cases p') auto
qed

text \<open>The ranges of a class up to its closing bracket.\<close>

function class_ranges :: "(nat \<times> nat) list \<Rightarrow> string \<Rightarrow> ((nat \<times> nat) list \<times> string) option" where
  "class_ranges rs p =
     (if p \<noteq> [] \<and> hd p = CHR '']'' \<and> rs \<noteq> [] then Some (rev rs, tl p)
      else case get_esc p of
        None \<Rightarrow> None
      | Some (lo, q) \<Rightarrow>
          if hd q = CHR ''-'' then
            (case get_esc (tl q) of
               None \<Rightarrow> None
             | Some (hi, q') \<Rightarrow> class_ranges ((lo, hi) # rs) q')
          else class_ranges ((lo, lo) # rs) q)"
  by pat_completeness auto
termination
proof (relation "measure (\<lambda>(rs, p). length p)", simp)
  fix rs p lo q hi q' x y
  assume a: "get_esc p = Some x" "(lo, q) = x" "get_esc (tl q) = Some y" "(hi, q') = y"
  then have "length q < length p" "length q' < length (tl q)"
    using get_esc_length by blast+
  then show "(((lo, hi) # rs, q'), rs, p) \<in> measure (\<lambda>(rs, p). length p)" by simp
next
  fix rs p lo q x
  assume "get_esc p = Some x" "(lo, q) = x"
  then show "(((lo, lo) # rs, q), rs, p) \<in> measure (\<lambda>(rs, p). length p)"
    using get_esc_length by auto
qed

lemma class_ranges_length: "class_ranges rs p = Some (rs', q) \<Longrightarrow> length q < length p"
proof (induction rs p rule: class_ranges.induct)
  case (1 rs p)
  show ?case
  proof (cases "p \<noteq> [] \<and> hd p = CHR '']'' \<and> rs \<noteq> []")
    case True
    with "1.prems" show ?thesis by (auto simp: class_ranges.simps [of rs p])
  next
    case False
    with "1.prems" obtain lo q0 where e: "get_esc p = Some (lo, q0)"
      by (auto simp: class_ranges.simps [of rs p] split: option.splits)
    then have l0: "length q0 < length p" by (rule get_esc_length)
    show ?thesis
    proof (cases "hd q0 = CHR ''-''")
      case True
      with "1.prems" False e obtain hi q1 where e1: "get_esc (tl q0) = Some (hi, q1)"
        and r: "class_ranges ((lo, hi) # rs) q1 = Some (rs', q)"
        by (auto simp: class_ranges.simps [of rs p] split: option.splits)
      from "1.IH"(1) [OF False e _ True e1 _ r] have "length q < length q1" by simp
      with get_esc_length [OF e1] l0 show ?thesis by simp
    next
      case ne: False
      with "1.prems" False e have r: "class_ranges ((lo, lo) # rs) q0 = Some (rs', q)"
        by (auto simp: class_ranges.simps [of rs p] split: option.splits)
      from "1.IH"(2) [OF False e _ ne r] l0 show ?thesis by simp
    qed
  qed
qed

declare class_ranges.simps [simp del]

text \<open>
  The pattern as chunks: each chunk with the flag that a \<open>*\<close> stands before it. \<open>star\<close> and
  \<open>cur\<close> (reversed) are the chunk being read.
\<close>

function parse_pattern ::
  "bool \<Rightarrow> gelem list \<Rightarrow> string \<Rightarrow> (bool \<times> gelem list) list option" where
  "parse_pattern star cur p =
     (case p of
        [] \<Rightarrow> Some (if star \<or> cur \<noteq> [] then [(star, rev cur)] else [])
      | c # q \<Rightarrow>
          if c = CHR ''*'' then
            (if cur = [] then parse_pattern True [] q
             else map_option ((#) (star, rev cur)) (parse_pattern True [] q))
          else if c = CHR ''['' then
            (let (neg, q') = (if q \<noteq> [] \<and> hd q = CHR ''^'' then (True, tl q) else (False, q)) in
             case class_ranges [] q' of
               None \<Rightarrow> None
             | Some (rs, q'') \<Rightarrow> parse_pattern star (GClass neg rs # cur) q'')
          else if c = CHR ''?'' then parse_pattern star (GAny # cur) q
          else if c = CHR 0x5C then
            (case q of [] \<Rightarrow> None | d # q' \<Rightarrow> parse_pattern star (GLit d # cur) q')
          else parse_pattern star (GLit c # cur) q)"
  by pat_completeness auto
termination
  by (relation "measure (\<lambda>(star, cur, p). length p)")
    (auto split: if_splits dest: class_ranges_length)

declare parse_pattern.simps [simp del]

fun match_chunk :: "gelem list \<Rightarrow> string \<Rightarrow> string option" where
  "match_chunk [] s = Some s"
| "match_chunk (g # gs) [] = None"
| "match_chunk (GLit c # gs) (x # s) = (if x = c then match_chunk gs s else None)"
| "match_chunk (GAny # gs) (x # s) =
     (if x = CHR ''/'' then None else match_chunk gs (drop (snd (decode_rune (x # s))) (x # s)))"
| "match_chunk (GClass neg rs # gs) (x # s) =
     (let (r, n) = decode_rune (x # s) in
      if list_ex (\<lambda>(lo, hi). lo \<le> r \<and> r \<le> hi) rs = neg then None
      else match_chunk gs (drop n (x # s)))"

text \<open>The search behind a \<open>*\<close>: the chunk at the next positions, never past a slash.\<close>

fun skip_match :: "gelem list \<Rightarrow> bool \<Rightarrow> string \<Rightarrow> string option" where
  "skip_match gs is_last [] = None"
| "skip_match gs is_last (x # s) =
     (if x = CHR ''/'' then None
      else case match_chunk gs s of
        Some t \<Rightarrow> if is_last \<and> t \<noteq> [] then skip_match gs is_last s else Some t
      | None \<Rightarrow> skip_match gs is_last s)"

fun match_chunks :: "(bool \<times> gelem list) list \<Rightarrow> string \<Rightarrow> bool" where
  "match_chunks [] s = (s = [])"
| "match_chunks ((star, gs) # ps) s =
     (if star \<and> gs = [] then CHR ''/'' \<notin> set s
      else case match_chunk gs s of
        Some t \<Rightarrow>
          if t = [] \<or> ps \<noteq> [] then match_chunks ps t
          else if star then
            (case skip_match gs (ps = []) s of Some t \<Rightarrow> match_chunks ps t | None \<Rightarrow> False)
          else False
      | None \<Rightarrow>
          if star then
            (case skip_match gs (ps = []) s of Some t \<Rightarrow> match_chunks ps t | None \<Rightarrow> False)
          else False)"

definition path_Match :: "string \<Rightarrow> string \<Rightarrow> bool option" where
  "path_Match pattern name =
     map_option (\<lambda>cs. match_chunks cs name) (parse_pattern False [] pattern)"

definition has_meta :: "string \<Rightarrow> bool" where
  "has_meta p \<longleftrightarrow> list_ex (\<lambda>c. c \<in> {CHR ''*'', CHR ''?'', CHR ''['', CHR 0x5C}) p"

lemmas [go_eval] = decode_rune_def cont_byte_def rune_count.simps path_Clean_def path_Join_def
  path_Base_def path_Split_def get_esc_def class_ranges.simps parse_pattern.simps path_Match_def
  has_meta_def

subsection \<open>Matching a literal between two stars\<close>

lemma parse_literal:
  "\<not> has_meta w \<Longrightarrow>
   parse_pattern star cur (w @ p) = parse_pattern star (map GLit (rev w) @ cur) p"
proof (induction w arbitrary: cur)
  case (Cons c w)
  then have "parse_pattern star cur (c # (w @ p)) = parse_pattern star (GLit c # cur) (w @ p)"
    by (subst parse_pattern.simps) (simp add: has_meta_def)
  with Cons show ?case by (simp add: has_meta_def)
qed simp

lemma parse_star_literal_star:
  assumes "\<not> has_meta w" and "w \<noteq> []"
  shows "parse_pattern False [] (CHR ''*'' # w @ ''*'') = Some [(True, map GLit w), (True, [])]"
proof -
  have "parse_pattern False [] (CHR ''*'' # w @ ''*'') = parse_pattern True [] (w @ ''*'')"
    by (subst parse_pattern.simps) simp
  also have "\<dots> = parse_pattern True (map GLit (rev w)) ''*''"
    using parse_literal [OF assms(1), of True "[]" "''*''"] by simp
  also have "\<dots> = Some [(True, map GLit w), (True, [])]"
    using assms(2) by (simp add: parse_pattern.simps rev_map)
  finally show ?thesis .
qed

lemma match_chunk_literal:
  "match_chunk (map GLit w) s = (if prefix w s then Some (drop (length w) s) else None)"
proof (induction w arbitrary: s)
  case (Cons c w)
  then show ?case by (cases s) auto
qed simp

lemma skip_match_literal:
  assumes "CHR ''/'' \<notin> set s" and "w \<noteq> []"
  shows "(\<exists>t. skip_match (map GLit w) False s = Some t \<and> CHR ''/'' \<notin> set t) \<or>
         skip_match (map GLit w) False s = None"
  using assms
proof (induction s)
  case (Cons x s)
  then show ?case by (auto simp: match_chunk_literal dest: in_set_dropD)
qed simp

lemma skip_match_iff:
  assumes "CHR ''/'' \<notin> set (x # s)" and "w \<noteq> []"
  shows "skip_match (map GLit w) False (x # s) \<noteq> None \<longleftrightarrow> sublist w s"
  using assms
proof (induction s arbitrary: x)
  case Nil
  then show ?case by (simp add: match_chunk_literal)
next
  case (Cons y s)
  have "skip_match (map GLit w) False (x # y # s) \<noteq> None \<longleftrightarrow>
    prefix w (y # s) \<or> skip_match (map GLit w) False (y # s) \<noteq> None"
    using Cons.prems by (auto simp: match_chunk_literal simp del: skip_match.simps(2)
        simp: skip_match.simps(2) [of _ _ x])
  with Cons show ?case by (simp add: sublist_Cons_right)
qed

text \<open>
  The pattern \<open>*w*\<close> with a \<open>w\<close> free of metacharacters matches exactly the names that contain
  \<open>w\<close>: what the tools mean by \<open>"*pod" + uid + "*"\<close>.
\<close>

theorem path_Match_contains:
  assumes "\<not> has_meta w" and "w \<noteq> []" and "CHR ''/'' \<notin> set name"
  shows "path_Match (CHR ''*'' # w @ ''*'') name = Some (Contains name w)"
proof (cases name)
  case Nil
  with assms show ?thesis
    by (simp add: path_Match_def parse_star_literal_star match_chunk_literal)
next
  case (Cons x s)
  have sk: "skip_match (map GLit w) False name \<noteq> None \<longleftrightarrow> sublist w s"
    using skip_match_iff [of x s w] assms Cons by simp
  have "match_chunks [(True, map GLit w), (True, [])] name \<longleftrightarrow> prefix w name \<or> sublist w s"
    using sk skip_match_literal [OF assms(3,2)] assms
    by (auto simp: match_chunk_literal dest: in_set_dropD split: option.splits)
  with Cons assms show ?thesis
    by (simp add: path_Match_def parse_star_literal_star sublist_Cons_right)
qed

end
