(* ===== verification/Go_Float.thy ===== *)
theory Go_Float
  imports Go_Strconv Complex_Main "HOL-Library.Log_Nat"
begin

text \<open>
  IEEE-754 double precision as Go's \<open>float64\<close> uses it, with the operations the tools
  need: conversion from \<open>uint64\<close>, quotient, product, comparison, \<open>strconv.ParseFloat\<close> and
  the rendering of \<open>%.Nf\<close>. A value is a sign and an exact rational magnitude, an infinity
  or NaN; every operation computes exactly and rounds to nearest, ties to even, with 53
  significant bits, gradual underflow at \<open>2^-1074\<close> and overflow at \<open>2^1024\<close>.
\<close>

datatype f64 = FFin bool rat | FInf bool | FNaN

subsection \<open>Rounding\<close>

text \<open>Round half to even on the rationals.\<close>

definition rne :: "rat \<Rightarrow> int" where
  "rne q =
     (let f = \<lfloor>q\<rfloor>; r = q - of_int f in
      if r < 1 / 2 then f else if 1 / 2 < r then f + 1 else if even f then f else f + 1)"

text \<open>The exponent \<open>e\<close> with \<open>2^e \<le> q < 2^(e+1)\<close>, from the bit lengths of the fraction.\<close>

definition rat_log2 :: "rat \<Rightarrow> int" where
  "rat_log2 q =
     (let (n, d) = quotient_of q; k = bitlen n - bitlen d in
      if 2 powi k \<le> q then k else k - 1)"

definition ulp_exp :: "rat \<Rightarrow> int" where
  "ulp_exp q = max (rat_log2 q - 52) (- 1074)"

definition rnd :: "rat \<Rightarrow> rat" where
  "rnd q =
     (if q \<le> 0 then 0
      else of_int (rne (q / 2 powi ulp_exp q)) * 2 powi ulp_exp q)"

definition f64_round :: "bool \<Rightarrow> rat \<Rightarrow> f64" where
  "f64_round s q = (let r = rnd q in if 2 ^ 1024 \<le> r then FInf s else FFin s r)"

lemma rne_le: "q \<le> of_int k \<Longrightarrow> rne q \<le> k"
proof -
  assume q: "q \<le> of_int k"
  then have f: "\<lfloor>q\<rfloor> \<le> k" by (simp add: floor_le_iff)
  show ?thesis
  proof (cases "\<lfloor>q\<rfloor> = k")
    case True
    then have "q = of_int k" using q by linarith
    then show ?thesis by (simp add: rne_def)
  next
    case False
    with f show ?thesis by (simp add: rne_def Let_def)
  qed
qed

lemma rne_ge: "of_int k \<le> q \<Longrightarrow> k \<le> rne q"
  by (simp add: rne_def Let_def le_floor_iff) linarith

lemma rne_int [simp]: "rne (of_int k) = k"
  by (simp add: rne_def)

lemma rne_mono: "x \<le> y \<Longrightarrow> rne x \<le> rne y"
proof -
  assume xy: "x \<le> y"
  show ?thesis
  proof (cases "\<lfloor>x\<rfloor> = \<lfloor>y\<rfloor>")
    case True
    with xy show ?thesis by (auto simp: rne_def Let_def)
  next
    case False
    with xy have "\<lfloor>x\<rfloor> + 1 \<le> \<lfloor>y\<rfloor>" using floor_mono [OF xy] by linarith
    moreover have "rne x \<le> \<lfloor>x\<rfloor> + 1" by (simp add: rne_def Let_def)
    moreover have "\<lfloor>y\<rfloor> \<le> rne y" by (simp add: rne_def Let_def)
    ultimately show ?thesis by linarith
  qed
qed

lemma rne_error: "\<bar>of_int (rne q) - q\<bar> \<le> 1 / 2"
proof -
  have "of_int \<lfloor>q\<rfloor> \<le> q" "q < of_int \<lfloor>q\<rfloor> + 1" using floor_correct [of q] by auto
  then show ?thesis by (simp add: rne_def Let_def abs_le_iff)
qed

lemma rne_near: "\<bar>q - of_int k\<bar> < 1 / 2 \<Longrightarrow> rne q = k"
proof -
  assume a: "\<bar>q - of_int k\<bar> < 1 / 2"
  have "\<bar>of_int (rne q) - of_int k :: rat\<bar> < 1"
    using rne_error [of q] a by linarith
  then have "\<bar>rne q - k\<bar> < 1" by linarith
  then show ?thesis by simp
qed

lemma pow2_pos [simp]: "0 < (2 :: rat) powi e"
  by (simp add: zero_less_power_int)

lemma pow2_int: "0 \<le> e \<Longrightarrow> (2 :: rat) powi e = of_int (2 ^ nat e)"
  by (simp add: power_int_def)

lemma pow2_add: "(2 :: rat) powi (a + b) = 2 powi a * 2 powi b"
  by (simp add: power_int_add)

lemma pow2_mono: "a \<le> b \<Longrightarrow> (2 :: rat) powi a \<le> 2 powi b"
  by (simp add: power_int_increasing)

lemma pow2_cancel: "(2 :: rat) powi a < 2 powi b \<Longrightarrow> a < b"
  using pow2_mono [of b a] by linarith

lemma bitlen_pow_le: "0 < n \<Longrightarrow> (2 :: rat) powi (bitlen n - 1) \<le> of_int n"
proof -
  assume n: "0 < n"
  then have b: "0 \<le> bitlen n - 1" using bitlen_eq_zero_iff [of n] bitlen_nonneg [of n] by linarith
  have "(of_int (2 ^ nat (bitlen n - 1)) :: rat) \<le> of_int n"
    using bitlen_bounds [OF n] of_int_le_iff by blast
  then show ?thesis using pow2_int [OF b] by simp
qed

lemma bitlen_pow_gt: "0 < n \<Longrightarrow> (of_int n :: rat) < 2 powi bitlen n"
proof -
  assume n: "0 < n"
  have "(of_int n :: rat) < of_int (2 ^ nat (bitlen n))"
    using bitlen_bounds [OF n] of_int_less_iff by blast
  then show ?thesis using pow2_int [OF bitlen_nonneg [of n]] by simp
qed

lemma rat_log2_bounds:
  assumes "0 < q"
  shows "2 powi rat_log2 q \<le> q \<and> q < 2 powi (rat_log2 q + 1)"
proof -
  obtain n d where nd: "quotient_of q = (n, d)" by (cases "quotient_of q")
  then have d: "0 < d" and q: "q = of_int n / of_int d"
    by (auto simp: quotient_of_denom_pos quotient_of_div)
  with assms have n: "0 < n" by (simp add: zero_less_divide_iff)
  let ?k = "bitlen n - bitlen d"
  have "2 powi (?k + 1) * of_int d > (of_int n :: rat)"
  proof -
    have "(of_int n :: rat) < 2 powi bitlen n" by (rule bitlen_pow_gt [OF n])
    also have "\<dots> = 2 powi (?k + 1) * 2 powi (bitlen d - 1)" by (simp flip: pow2_add)
    also have "\<dots> \<le> 2 powi (?k + 1) * of_int d" using bitlen_pow_le [OF d] by simp
    finally show ?thesis .
  qed
  then have up: "q < 2 powi (?k + 1)" using d q by (simp add: divide_less_eq)
  have "2 powi (?k - 1) * of_int d \<le> (of_int n :: rat)"
  proof -
    have "2 powi (?k - 1) * of_int d \<le> 2 powi (?k - 1) * (2 :: rat) powi bitlen d"
      using bitlen_pow_gt [OF d] by simp
    also have "\<dots> = 2 powi (bitlen n - 1)" by (simp flip: pow2_add)
    also have "\<dots> \<le> of_int n" by (rule bitlen_pow_le [OF n])
    finally show ?thesis .
  qed
  then have lo: "2 powi (?k - 1) \<le> q" using d q by (simp add: le_divide_eq)
  show ?thesis using up lo nd by (auto simp: rat_log2_def Let_def)
qed

lemma rat_log2_mono: "0 < x \<Longrightarrow> x \<le> y \<Longrightarrow> rat_log2 x \<le> rat_log2 y"
proof -
  assume xy: "0 < x" "x \<le> y"
  then have "2 powi rat_log2 x < (2 :: rat) powi (rat_log2 y + 1)"
    using rat_log2_bounds [of x] rat_log2_bounds [of y] by linarith
  then show ?thesis using pow2_cancel by fastforce
qed

lemma rat_log2_ge_iff: "0 < q \<Longrightarrow> k \<le> rat_log2 q \<longleftrightarrow> 2 powi k \<le> q"
proof
  assume "0 < q" "k \<le> rat_log2 q"
  then show "2 powi k \<le> q" using rat_log2_bounds [of q] pow2_mono [of k] by fastforce
next
  assume q: "0 < q" "2 powi k \<le> q"
  then have "2 powi k < (2 :: rat) powi (rat_log2 q + 1)" using rat_log2_bounds [of q] by linarith
  then show "k \<le> rat_log2 q" using pow2_cancel by fastforce
qed

text \<open>The overflow test by the exponent, for evaluation.\<close>

lemma f64_round_code [code]:
  "f64_round s q = (let r = rnd q in if 0 < r \<and> 1024 \<le> rat_log2 r then FInf s else FFin s r)"
proof -
  have "(2 :: rat) ^ 1024 \<le> r \<longleftrightarrow> 0 < r \<and> 1024 \<le> rat_log2 r" for r
  proof (cases "0 < r")
    case True
    then show ?thesis using rat_log2_ge_iff [of r 1024] by (simp add: power_int_def)
  next
    case False
    have "(0 :: rat) < 2 ^ 1024" by (rule zero_less_power) simp
    with False show ?thesis by linarith
  qed
  then show ?thesis by (simp add: f64_round_def Let_def)
qed

lemma rnd_nonneg [simp]: "0 \<le> rnd q"
proof -
  have "0 \<le> rne (q / 2 powi ulp_exp q)" if "0 < q" using that by (intro rne_ge) simp
  then show ?thesis by (simp add: rnd_def)
qed

lemma rnd_0 [simp]: "rnd 0 = 0"
  by (simp add: rnd_def)

text \<open>A value on the grid of \<open>x\<close> bounds the rounded value too.\<close>

lemma rnd_le_grid: "x \<le> of_int k * 2 powi ulp_exp x \<Longrightarrow> 0 \<le> k \<Longrightarrow> rnd x \<le> of_int k * 2 powi ulp_exp x"
proof -
  assume a: "x \<le> of_int k * 2 powi ulp_exp x" "0 \<le> k"
  then have "rne (x / 2 powi ulp_exp x) \<le> k" by (intro rne_le) (simp add: divide_le_eq)
  then show ?thesis using a(2) by (simp add: rnd_def)
qed

lemma rnd_ge_grid: "of_int k * 2 powi ulp_exp x \<le> x \<Longrightarrow> 0 < x \<Longrightarrow> of_int k * 2 powi ulp_exp x \<le> rnd x"
proof -
  assume a: "of_int k * 2 powi ulp_exp x \<le> x" "0 < x"
  then have "k \<le> rne (x / 2 powi ulp_exp x)" by (intro rne_ge) (simp add: le_divide_eq)
  then show ?thesis using a(2) by (simp add: rnd_def)
qed

theorem rnd_mono:
  assumes "x \<le> y"
  shows "rnd x \<le> rnd y"
proof (cases "0 < x")
  case False
  then show ?thesis by (simp add: rnd_def [of x])
next
  case x: True
  with assms have y: "0 < y" by linarith
  have le: "ulp_exp x \<le> ulp_exp y"
    using rat_log2_mono [OF x assms] by (simp add: ulp_exp_def)
  show ?thesis
  proof (cases "ulp_exp x = ulp_exp y")
    case True
    have "rne (x / 2 powi ulp_exp x) \<le> rne (y / 2 powi ulp_exp x)"
      using assms by (intro rne_mono) (simp add: divide_right_mono)
    with True x y show ?thesis by (simp add: rnd_def)
  next
    case False
    let ?L = "rat_log2 y"
    have ey: "ulp_exp y = ?L - 52" and exy: "ulp_exp x < ?L - 52"
      using le False by (auto simp: ulp_exp_def)
    have "rat_log2 x + 1 \<le> ?L" using exy by (simp add: ulp_exp_def)
    then have xL: "x \<le> 2 powi ?L"
      using rat_log2_bounds [OF x] pow2_mono [of "rat_log2 x + 1" ?L] by linarith
    have gx: "(2 :: rat) powi ?L = of_int (2 ^ nat (?L - ulp_exp x)) * 2 powi ulp_exp x"
      using exy pow2_add [of "?L - ulp_exp x" "ulp_exp x"] pow2_int [of "?L - ulp_exp x"] by simp
    have gy: "(2 :: rat) powi ?L = of_int (2 ^ 52) * 2 powi ulp_exp y"
      using pow2_int [of 52] pow2_add [of 52 "?L - 52"] by (simp add: ey)
    have "rnd x \<le> 2 powi ?L" using rnd_le_grid [of x "2 ^ nat (?L - ulp_exp x)"] xL gx by simp
    also have "\<dots> \<le> rnd y" using rnd_ge_grid [of "2 ^ 52" y] rat_log2_bounds [OF y] gy y by simp
    finally show ?thesis .
  qed
qed

text \<open>Integers up to \<open>2^53\<close> are exact.\<close>

lemma rnd_of_nat:
  assumes "n < 2 ^ 53"
  shows "rnd (of_nat n) = of_nat n"
proof (cases "n = 0")
  case False
  then have pos: "0 < (of_nat n :: rat)" by simp
  have "(of_nat n :: rat) < of_nat (2 ^ 53)" using assms of_nat_less_iff by blast
  then have "(of_nat n :: rat) < 2 powi 53" by (simp add: power_int_def)
  then have "2 powi rat_log2 (of_nat n) < (2 :: rat) powi 53"
    using rat_log2_bounds [OF pos] by linarith
  then have e: "ulp_exp (of_nat n) \<le> 0" using pow2_cancel by (fastforce simp: ulp_exp_def)
  let ?e = "ulp_exp (of_nat n)"
  have "(2 :: rat) powi ?e * 2 powi (- ?e) = 1" by (simp flip: pow2_add)
  then have "(of_nat n :: rat) / 2 powi ?e = of_nat n * 2 powi (- ?e)"
    by (simp add: field_simps)
  also have "\<dots> = of_int (int n * 2 ^ nat (- ?e))" using pow2_int [of "- ?e"] e by simp
  finally have "rne (of_nat n / 2 powi ?e) = int n * 2 ^ nat (- ?e)" by (metis rne_int)
  then have "rnd (of_nat n) = of_int (int n * 2 ^ nat (- ?e)) * 2 powi ?e"
    using pos by (simp add: rnd_def)
  also have "\<dots> = of_nat n * (2 powi (- ?e) * 2 powi ?e)" using pow2_int [of "- ?e"] e by simp
  also have "\<dots> = of_nat n" by (simp flip: pow2_add)
  finally show ?thesis .
qed simp

lemma rnd_1 [simp]: "rnd 1 = 1"
  using rnd_of_nat [of 1] by simp

lemma rnd_100 [simp]: "rnd 100 = 100"
  using rnd_of_nat [of 100] by simp

text \<open>Relative error in the normal range.\<close>

lemma rnd_error:
  assumes "2 powi (- 1022) \<le> q"
  shows "\<bar>rnd q - q\<bar> \<le> q / 2 ^ 53"
proof -
  have q: "0 < q" using assms pow2_pos [of "- 1022"] by linarith
  have "2 powi (- 1022) < (2 :: rat) powi (rat_log2 q + 1)"
    using rat_log2_bounds [OF q] assms by linarith
  then have e: "ulp_exp q = rat_log2 q - 52"
    using pow2_cancel by (fastforce simp: ulp_exp_def)
  let ?u = "(2 :: rat) powi ulp_exp q"
  have u: "0 < ?u" by simp
  then have "of_int (rne (q / ?u)) * ?u - q = (of_int (rne (q / ?u)) - q / ?u) * ?u"
    by (simp add: left_diff_distrib)
  then have "\<bar>of_int (rne (q / ?u)) * ?u - q\<bar> = \<bar>of_int (rne (q / ?u)) - q / ?u\<bar> * ?u"
    using u by (simp add: abs_mult)
  also have "\<dots> \<le> 1 / 2 * ?u"
    using rne_error by (intro mult_right_mono) auto
  also have "\<dots> = 2 powi rat_log2 q / 2 ^ 53"
    using e pow2_add [of 52 "ulp_exp q"] by (simp add: power_int_def)
  also have "\<dots> \<le> q / 2 ^ 53"
    using rat_log2_bounds [OF q] by (intro divide_right_mono) auto
  finally show ?thesis using q by (simp add: rnd_def)
qed

subsection \<open>Operations\<close>

definition f64_of_uint64 :: "uint64 \<Rightarrow> f64" where
  "f64_of_uint64 w = f64_round False (of_nat (unat w))"

fun f64_div :: "f64 \<Rightarrow> f64 \<Rightarrow> f64" where
  "f64_div FNaN y = FNaN"
| "f64_div x FNaN = FNaN"
| "f64_div (FInf s) (FInf t) = FNaN"
| "f64_div (FInf s) (FFin t b) = FInf (s \<noteq> t)"
| "f64_div (FFin s a) (FInf t) = FFin (s \<noteq> t) 0"
| "f64_div (FFin s a) (FFin t b) =
     (if b = 0 then (if a = 0 then FNaN else FInf (s \<noteq> t)) else f64_round (s \<noteq> t) (a / b))"

fun f64_mul :: "f64 \<Rightarrow> f64 \<Rightarrow> f64" where
  "f64_mul FNaN y = FNaN"
| "f64_mul x FNaN = FNaN"
| "f64_mul (FInf s) (FInf t) = FInf (s \<noteq> t)"
| "f64_mul (FInf s) (FFin t b) = (if b = 0 then FNaN else FInf (s \<noteq> t))"
| "f64_mul (FFin s a) (FInf t) = (if a = 0 then FNaN else FInf (s \<noteq> t))"
| "f64_mul (FFin s a) (FFin t b) = f64_round (s \<noteq> t) (a * b)"

text \<open>The comparisons \<open>x >= k\<close> and \<open>x > k\<close> with a constant; false on NaN.\<close>

fun f64_ge :: "f64 \<Rightarrow> rat \<Rightarrow> bool" where
  "f64_ge (FFin s q) k = (k \<le> (if s then - q else q))"
| "f64_ge (FInf s) k = (\<not> s)"
| "f64_ge FNaN k = False"

fun f64_gt :: "f64 \<Rightarrow> rat \<Rightarrow> bool" where
  "f64_gt (FFin s q) k = (k < (if s then - q else q))"
| "f64_gt (FInf s) k = (\<not> s)"
| "f64_gt FNaN k = False"

abbreviation f64_zero :: f64 where
  "f64_zero \<equiv> FFin False 0"

definition f64_between :: "rat \<Rightarrow> rat \<Rightarrow> f64 \<Rightarrow> bool" where
  "f64_between lo hi x \<longleftrightarrow> f64_ge x lo \<and> \<not> f64_gt x hi \<and> x \<noteq> FNaN"

lemma f64_round_between:
  assumes "0 \<le> q" and "q \<le> h" and "rnd h = h" and "h < 2 ^ 1024"
  shows "f64_round False q = FFin False (rnd q) \<and> rnd q \<le> h"
proof -
  have "rnd q \<le> h" using rnd_mono [OF assms(2)] assms(3) by simp
  with assms(4) show ?thesis by (simp add: f64_round_def Let_def)
qed

lemma rnd_2_64: "rnd (2 ^ 64) = 2 ^ 64"
  by code_simp

lemma f64_of_uint64_eq: "f64_of_uint64 w = FFin False (rnd (of_nat (unat w)))"
proof -
  have "unat w < 2 ^ LENGTH(64)" by (rule unsigned_less)
  then have "unat w \<le> 2 ^ 64" by simp
  then have "(of_nat (unat w) :: rat) \<le> of_nat (2 ^ 64)" using of_nat_le_iff by blast
  then have le: "(of_nat (unat w) :: rat) \<le> 2 ^ 64"
    by (simp only: of_nat_power of_nat_numeral)
  have "(2 :: rat) ^ 64 < 2 ^ 1024" by (rule power_strict_increasing) auto
  then show ?thesis
    unfolding f64_of_uint64_def
    using f64_round_between [OF of_nat_0_le_iff le rnd_2_64] by blast
qed

lemma rnd_pos_nat: "0 < n \<Longrightarrow> 1 \<le> rnd (of_nat n)"
  using rnd_mono [of 1 "of_nat n"] by simp

text \<open>The quotient of a part by its whole lies between 0 and 1, whatever the rounding does.\<close>

lemma ratio_unit:
  assumes "unat p \<le> unat t" and "t \<noteq> 0"
  shows "\<exists>q. f64_div (f64_of_uint64 p) (f64_of_uint64 t) = FFin False q \<and> 0 \<le> q \<and> q \<le> 1"
proof -
  let ?a = "rnd (of_nat (unat p))" and ?b = "rnd (of_nat (unat t))"
  have "unat t \<noteq> 0" using assms(2) by (simp add: unat_eq_0)
  then have b: "1 \<le> ?b" by (intro rnd_pos_nat) simp
  have ab: "?a \<le> ?b" using assms(1) by (intro rnd_mono of_nat_mono)
  have "0 \<le> ?a / ?b" "?a / ?b \<le> 1" using ab b by (auto simp: divide_le_eq_1)
  moreover have "(1 :: rat) < 2 ^ 1024" by (rule one_less_power) auto
  ultimately have "f64_round False (?a / ?b) = FFin False (rnd (?a / ?b)) \<and> rnd (?a / ?b) \<le> 1"
    by (intro f64_round_between) auto
  then show ?thesis using b by (auto simp: f64_of_uint64_eq)
qed

text \<open>As a percentage: between 0 and 100.\<close>

lemma ratio_percent:
  assumes "unat p \<le> unat t" and "t \<noteq> 0"
  shows "f64_between 0 100
    (f64_mul (f64_div (f64_of_uint64 p) (f64_of_uint64 t)) (FFin False 100))"
proof -
  obtain q where q: "f64_div (f64_of_uint64 p) (f64_of_uint64 t) = FFin False q" "0 \<le> q" "q \<le> 1"
    using ratio_unit [OF assms] by blast
  have "(100 :: rat) < 2 ^ 7" by simp
  also have "(2 :: rat) ^ 7 < 2 ^ 1024" by (rule power_strict_increasing) auto
  finally have "f64_round False (q * 100) = FFin False (rnd (q * 100)) \<and> rnd (q * 100) \<le> 100"
    using q by (intro f64_round_between) auto
  with q show ?thesis by (simp add: f64_between_def)
qed

subsection \<open>ParseFloat\<close>

text \<open>\<open>lower_is c l\<close>: the library's \<open>c | 0x20 == l\<close> for a lower-case letter \<open>l\<close>.\<close>

definition lower_is :: "char \<Rightarrow> char \<Rightarrow> bool" where
  "lower_is c l \<longleftrightarrow> (of_char c = (of_char l :: nat)) \<or> (of_char c + 32 = (of_char l :: nat))"

fun lower_str :: "string \<Rightarrow> string \<Rightarrow> bool" where
  "lower_str [] [] = True"
| "lower_str (c # s) (l # w) = (lower_is c l \<and> lower_str s w)"
| "lower_str _ _ = False"

text \<open>
  The mantissa: value of the digits, number of digits after the point, and whether a digit
  or an underscore was seen; then what follows it.
\<close>

fun read_mant ::
  "nat \<Rightarrow> nat \<Rightarrow> nat \<Rightarrow> bool \<Rightarrow> bool \<Rightarrow> bool \<Rightarrow> string \<Rightarrow> nat \<times> nat \<times> bool \<times> bool \<times> string" where
  "read_mant base m fr dot dig us [] = (m, fr, dig, us, [])"
| "read_mant base m fr dot dig us (c # s) =
     (if c = CHR ''_'' then read_mant base m fr dot dig True s
      else if c = CHR ''.'' then
        (if dot then (m, fr, dig, us, c # s) else read_mant base m fr True dig us s)
      else case any_digit c of
        Some d \<Rightarrow>
          if d < base then read_mant base (m * base + d) (if dot then Suc fr else fr) dot True us s
          else (m, fr, dig, us, c # s)
      | None \<Rightarrow> (m, fr, dig, us, c # s))"

text \<open>The digits of the exponent; they stop counting at 10000, as in the library.\<close>

fun read_exp_digits :: "nat \<Rightarrow> bool \<Rightarrow> string \<Rightarrow> nat \<times> bool \<times> string" where
  "read_exp_digits e us [] = (e, us, [])"
| "read_exp_digits e us (c # s) =
     (if c = CHR ''_'' then read_exp_digits e True s
      else case dec_digit c of
        Some d \<Rightarrow> read_exp_digits (if e < 10000 then e * 10 + d else e) us s
      | None \<Rightarrow> (e, us, c # s))"

definition read_exp :: "nat \<Rightarrow> bool \<Rightarrow> string \<Rightarrow> (int \<times> bool \<times> string) option" where
  "read_exp base us s =
     (if s \<noteq> [] \<and> lower_is (hd s) (if base = 16 then CHR ''p'' else CHR ''e'') then
        (let r = tl s;
             neg = (r \<noteq> [] \<and> hd r = CHR ''-'');
             r' = (if r \<noteq> [] \<and> hd r \<in> {CHR ''+'', CHR ''-''} then tl r else r)
         in if r' = [] \<or> dec_digit (hd r') = None then None
            else let (e, us', rest) = read_exp_digits 0 us r'
                 in Some (if neg then - int e else int e, us', rest))
      else if base = 16 then None
      else Some (0, us, s))"

text \<open>Underscores stand between digits, or between the base prefix and a digit.\<close>

fun underscores_ok :: "bool \<Rightarrow> char \<Rightarrow> string \<Rightarrow> bool" where
  "underscores_ok hex saw [] = (saw \<noteq> CHR ''_'')"
| "underscores_ok hex saw (c # s) =
     (if dec_digit c \<noteq> None \<or> hex \<and> (case any_digit c of Some d \<Rightarrow> d < 16 | None \<Rightarrow> False)
      then underscores_ok hex CHR ''0'' s
      else if c = CHR ''_'' then saw = CHR ''0'' \<and> underscores_ok hex CHR ''_'' s
      else saw \<noteq> CHR ''_'' \<and> underscores_ok hex CHR ''!'' s)"

definition underscoreOK :: "string \<Rightarrow> bool" where
  "underscoreOK s =
     (if 2 \<le> length s \<and> hd s = CHR ''0'' \<and>
         list_ex (lower_is (hd (tl s))) [CHR ''b'', CHR ''o'', CHR ''x'']
      then underscores_ok (lower_is (hd (tl s)) CHR ''x'') CHR ''0'' (drop 2 s)
      else underscores_ok False CHR ''^'' s)"

text \<open>An unsigned number: its exact value, or a syntax error.\<close>

definition read_float :: "string \<Rightarrow> rat option" where
  "read_float s =
     (let hex = (2 < length s \<and> hd s = CHR ''0'' \<and> lower_is (hd (tl s)) CHR ''x'');
          base = (if hex then 16 else 10);
          (m, fr, dig, us, rest) = read_mant base 0 0 False False False (if hex then drop 2 s else s)
      in if \<not> dig then None
         else case read_exp base us rest of
           None \<Rightarrow> None
         | Some (e, us', rest') \<Rightarrow>
             if rest' \<noteq> [] \<or> us' \<and> \<not> underscoreOK s then None
             else Some (if hex then of_nat m * 2 powi (e - 4 * int fr)
                        else of_nat m * 10 powi (e - int fr)))"

definition ParseFloat :: "string \<Rightarrow> f64 \<times> go_err option" where
  "ParseFloat s =
     (let signed = (s \<noteq> [] \<and> hd s \<in> {CHR ''+'', CHR ''-''});
          neg = (s \<noteq> [] \<and> hd s = CHR ''-'');
          body = (if signed then tl s else s)
      in if lower_str body ''inf'' \<or> lower_str body ''infinity'' then (FInf neg, None)
         else if \<not> signed \<and> lower_str body ''nan'' then (FNaN, None)
         else case read_float body of
           None \<Rightarrow> (f64_zero, Some (NumErr ErrSyntax s))
         | Some q \<Rightarrow>
             (case f64_round neg q of
                FInf t \<Rightarrow> (FInf t, Some (NumErr ErrRange s))
              | x \<Rightarrow> (x, None)))"

abbreviation ParseFloat_val :: "string \<Rightarrow> f64" where
  "ParseFloat_val s \<equiv> fst (ParseFloat s)"

subsection \<open>Rendering with a fixed number of decimals\<close>

definition pad_zeros :: "nat \<Rightarrow> string \<Rightarrow> string" where
  "pad_zeros n s = replicate (n - length s) CHR ''0'' @ s"

definition fixed_digits :: "nat \<Rightarrow> nat \<Rightarrow> string" where
  "fixed_digits prec n =
     (if prec = 0 then utoa n
      else utoa (n div 10 ^ prec) @ CHR ''.'' # pad_zeros prec (utoa (n mod 10 ^ prec)))"

fun fmt_f :: "nat \<Rightarrow> f64 \<Rightarrow> string" where
  "fmt_f prec (FFin s q) =
     (if s then [CHR ''-''] else []) @ fixed_digits prec (nat (rne (q * 10 ^ prec)))"
| "fmt_f prec (FInf s) = (if s then ''-Inf'' else ''+Inf'')"
| "fmt_f prec FNaN = ''NaN''"

subsection \<open>Reading a rendered number, and rendering it again\<close>

definition dec_val :: "nat \<Rightarrow> string \<Rightarrow> nat" where
  "dec_val m s = foldl (\<lambda>a c. a * 10 + the (dec_digit c)) m s"

abbreviation digits :: "string \<Rightarrow> bool" where
  "digits s \<equiv> \<forall>c \<in> set s. dec_digit c \<noteq> None"

lemma dec_val_shift: "dec_val m s = m * 10 ^ length s + dec_val 0 s"
proof (induction s arbitrary: m)
  case Nil
  then show ?case by (simp add: dec_val_def)
next
  case (Cons c s)
  have "dec_val m (c # s) = (m * 10 + the (dec_digit c)) * 10 ^ length s + dec_val 0 s"
    using Cons.IH [of "m * 10 + the (dec_digit c)"] by (simp add: dec_val_def)
  also have "\<dots> = m * 10 ^ length (c # s) + (the (dec_digit c) * 10 ^ length s + dec_val 0 s)"
    by (simp add: algebra_simps)
  also have "the (dec_digit c) * 10 ^ length s + dec_val 0 s = dec_val 0 (c # s)"
    using Cons.IH [of "the (dec_digit c)"] by (simp add: dec_val_def)
  finally show ?case .
qed

lemma dec_val_append: "dec_val m (s @ t) = dec_val (dec_val m s) t"
  by (simp add: dec_val_def)

lemma dec_val_utoa: "dec_val 0 (utoa n) = n"
proof (induction n rule: utoa.induct)
  case (1 n)
  then show ?case
    by (subst utoa.simps) (simp add: dec_val_def)
qed

lemma dec_val_zeros: "dec_val 0 (replicate k CHR ''0'') = 0"
  by (induction k) (auto simp: dec_val_def dec_digit_def)

lemma length_utoa: "n < 10 ^ p \<Longrightarrow> 0 < p \<Longrightarrow> length (utoa n) \<le> p"
proof (induction p arbitrary: n)
  case (Suc p)
  show ?case
  proof (cases "n < 10")
    case True
    then show ?thesis by (subst utoa.simps) simp
  next
    case False
    with Suc.prems have p: "0 < p" by (cases p) auto
    moreover have "n div 10 < 10 ^ p" using Suc.prems by (simp add: less_mult_imp_div_less)
    ultimately have "length (utoa (n div 10)) \<le> p" by (intro Suc.IH)
    with False show ?thesis by (subst utoa.simps) simp
  qed
qed simp

lemma pad_zeros_digits: "digits (pad_zeros p (utoa n))"
  using utoa_chars [of n] by (auto simp: pad_zeros_def dec_digit_def)

lemma pad_zeros_val: "dec_val 0 (pad_zeros p (utoa n)) = n"
  by (simp add: pad_zeros_def dec_val_append dec_val_zeros dec_val_utoa)

lemma pad_zeros_length: "n < 10 ^ p \<Longrightarrow> 0 < p \<Longrightarrow> length (pad_zeros p (utoa n)) = p"
  using length_utoa [of n p] by (simp add: pad_zeros_def)

lemma any_digit_dec: "dec_digit c = Some d \<Longrightarrow> any_digit c = Some d"
  by (auto simp: dec_digit_def any_digit_def Let_def split: if_splits)

lemma dec_digit_special: "dec_digit c = Some d \<Longrightarrow> c \<noteq> CHR ''_'' \<and> c \<noteq> CHR ''.''"
  by (auto simp: dec_digit_def)

lemma read_mant_digits:
  "digits ds \<Longrightarrow> read_mant 10 m fr dot dig us (ds @ s) =
   read_mant 10 (dec_val m ds) (if dot then fr + length ds else fr) dot (dig \<or> ds \<noteq> []) us s"
proof (induction ds arbitrary: m fr dig)
  case Nil
  then show ?case by (simp add: dec_val_def)
next
  case (Cons c ds)
  then obtain d where d: "dec_digit c = Some d" by auto
  with Cons show ?case
    using dec_digit_special [OF d] any_digit_dec [OF d] dec_digit_lt [OF d]
    by (simp add: dec_val_def)
qed

lemma read_float_fixed:
  assumes "0 < p"
  shows "read_float (fixed_digits p n) = Some (of_nat n / 10 ^ p)"
proof -
  let ?w = "utoa (n div 10 ^ p)" and ?f = "pad_zeros p (utoa (n mod 10 ^ p))"
  have lf: "length ?f = p" using assms by (intro pad_zeros_length) auto
  have "dec_val (dec_val 0 ?w) ?f = n div 10 ^ p * 10 ^ p + n mod 10 ^ p"
    using dec_val_shift [of "dec_val 0 ?w" ?f] lf by (simp add: dec_val_utoa pad_zeros_val)
  then have val: "dec_val (dec_val 0 ?w) ?f = n" by (simp only: div_mult_mod_eq)
  have "read_mant 10 0 0 False False False (fixed_digits p n) = (n, p, True, False, [])"
    using assms read_mant_digits [of ?w 0 0 False False False "CHR ''.'' # ?f"]
      read_mant_digits [OF pad_zeros_digits, of "dec_val 0 ?w" 0 True True False p "n mod 10 ^ p" "[]"]
      utoa_chars [of "n div 10 ^ p"] val lf
    by (simp add: fixed_digits_def)
  moreover have "\<not> lower_is (hd (tl (fixed_digits p n))) CHR ''x''"
  proof -
    have "c \<in> set (fixed_digits p n) \<Longrightarrow> c = CHR ''.'' \<or> dec_digit c \<noteq> None" for c
      using assms utoa_chars [of "n div 10 ^ p"] pad_zeros_digits [of p "n mod 10 ^ p"]
      by (auto simp: fixed_digits_def)
    moreover have "tl (fixed_digits p n) \<noteq> []"
      using assms by (cases "utoa (n div 10 ^ p)") (auto simp: fixed_digits_def)
    ultimately have "hd (tl (fixed_digits p n)) = CHR ''.'' \<or> dec_digit (hd (tl (fixed_digits p n))) \<noteq> None"
      by (metis hd_in_set list.set_sel(2) tl_Nil)
    then show ?thesis by (auto simp: lower_is_def dec_digit_def Let_def split: if_splits)
  qed
  ultimately show ?thesis
    by (simp add: read_float_def read_exp_def power_int_minus divide_inverse)
qed

lemma hd_fixed_digits: "dec_digit (hd (fixed_digits p n)) \<noteq> None"
  using hd_utoa [of n] hd_utoa [of "n div 10 ^ p"] by (auto simp: fixed_digits_def hd_append)

lemma ParseFloat_fixed:
  assumes "0 < p" and "n < 2 ^ 53"
  shows "ParseFloat (fixed_digits p n) = (FFin False (rnd (of_nat n / 10 ^ p)), None)"
proof -
  let ?s = "fixed_digits p n" and ?q = "(of_nat n / 10 ^ p) :: rat"
  have hd: "dec_digit (hd ?s) \<noteq> None" by (rule hd_fixed_digits)
  have ne: "?s \<noteq> []" by (simp add: fixed_digits_def)
  have sign: "hd ?s \<noteq> CHR ''-''" "hd ?s \<noteq> CHR ''+''" using digit_not_sign [OF hd] by auto
  have "\<not> lower_is (hd ?s) CHR ''i''" "\<not> lower_is (hd ?s) CHR ''n''"
    using hd by (auto simp: lower_is_def dec_digit_def Let_def split: if_splits)
  then have special: "\<not> lower_str ?s ''inf''" "\<not> lower_str ?s ''infinity''" "\<not> lower_str ?s ''nan''"
    using ne by (cases ?s; simp)+
  have "(1 :: rat) \<le> 10 ^ p" by (rule one_le_power) simp
  then have "?q \<le> of_nat n" by (simp add: divide_le_eq mult_le_cancel_left1)
  then have "rnd ?q \<le> of_nat n" using rnd_mono rnd_of_nat [OF assms(2)] by fastforce
  also have "(of_nat n :: rat) < of_nat (2 ^ 53)" using assms(2) of_nat_less_iff by blast
  also have "(of_nat (2 ^ 53) :: rat) = 2 ^ 53" by (rule of_nat_power [THEN trans]) simp
  also have "(2 :: rat) ^ 53 < 2 ^ 1024" by (rule power_strict_increasing) auto
  finally have "f64_round False ?q = FFin False (rnd ?q)" by (simp add: f64_round_def Let_def)
  then show ?thesis
    using special sign ne read_float_fixed [OF assms(1), of n] by (simp add: ParseFloat_def)
qed

text \<open>
  A number with two decimals, as the kernel prints the PSI averages, is printed by \<open>%.2f\<close>
  as it was read: the double next to it is closer than half a hundredth.
\<close>

theorem fmt_ParseFloat_fixed:
  assumes "n < 2 ^ 52"
  shows "fmt_f 2 (ParseFloat_val (fixed_digits 2 n)) = fixed_digits 2 n"
proof -
  let ?q = "(of_nat n / 10 ^ 2) :: rat"
  have "rne (rnd ?q * 10 ^ 2) = int n"
  proof (cases "n = 0")
    case False
    have "(2 :: rat) powi (- 1022) \<le> 2 powi (- 7)" by (rule pow2_mono) simp
    also have "\<dots> \<le> 1 / 100" by (simp add: power_int_minus)
    also have "\<dots> \<le> ?q" using False by (simp add: divide_right_mono)
    finally have "\<bar>rnd ?q - ?q\<bar> \<le> ?q / 2 ^ 53" by (rule rnd_error)
    then have "\<bar>rnd ?q * 100 - of_nat n\<bar> \<le> of_nat n / 2 ^ 53" by (simp add: abs_le_iff field_simps)
    also have "(of_nat n :: rat) < of_nat (2 ^ 52)" using assms of_nat_less_iff by blast
    then have "(of_nat n :: rat) / 2 ^ 53 < 1 / 2" by simp
    finally show ?thesis by (intro rne_near) simp
  next
    case True
    then show ?thesis using rne_int [of 0] by simp
  qed
  moreover have "n < 2 ^ 53" using assms by simp
  ultimately show ?thesis by (simp add: ParseFloat_fixed)
qed

lemma token_fixed: "token (fixed_digits p n)"
proof -
  have "c \<in> set (fixed_digits p n) \<Longrightarrow> plain c" for c
    using utoa_chars [of n] utoa_chars [of "n div 10 ^ p"] pad_zeros_digits [of p "n mod 10 ^ p"]
    by (auto simp: fixed_digits_def intro: dec_digit_plain split: if_splits)
      (simp add: plain_def ascii_space_def)
  then show ?thesis by (simp add: token_def plain_no_space fixed_digits_def)
qed

end
