(* ===== verification/Go_Fmt.thy ===== *)
theory Go_Fmt
  imports Go_Path Go_Float
begin

text \<open>
  The verbs of \<open>fmt.Printf\<close> that the tools use beyond \<open>%s\<close>, \<open>%d\<close> and \<open>%.Nf\<close>: padding, which
  counts runes and never cuts, hexadecimal with leading zeros, booleans and quoted strings
  of plain characters. Output is a list of lines, each without its newline.
\<close>

definition ljust :: "nat \<Rightarrow> string \<Rightarrow> string" where
  "ljust n s = s @ replicate (n - rune_count s) CHR '' ''"

definition rjust :: "nat \<Rightarrow> string \<Rightarrow> string" where
  "rjust n s = replicate (n - rune_count s) CHR '' '' @ s"

definition hex_char :: "nat \<Rightarrow> char" where
  "hex_char d = (if d < 10 then char_of (48 + d) else char_of (87 + d))"

fun utoh :: "nat \<Rightarrow> string" where
  "utoh n = (if n < 16 then [hex_char n] else utoh (n div 16) @ [hex_char (n mod 16)])"

declare utoh.simps [simp del]

abbreviation fmt_u :: "uint64 \<Rightarrow> string" where
  "fmt_u w \<equiv> utoa (unat w)"

definition fmt_hex :: "nat \<Rightarrow> uint64 \<Rightarrow> string" where
  "fmt_hex width w = pad_zeros width (utoh (unat w))"

definition fmt_bool :: "bool \<Rightarrow> string" where
  "fmt_bool b = (if b then ''true'' else ''false'')"

text \<open>Characters of the messages that are not ASCII, in UTF-8.\<close>

definition u_check :: string where "u_check = [CHR 0xE2, CHR 0x9C, CHR 0x93]"
definition u_red :: string where "u_red = [CHR 0xF0, CHR 0x9F, CHR 0x94, CHR 0xB4]"
definition u_warn :: string where "u_warn = [CHR 0xE2, CHR 0x9A, CHR 0xA0]"
definition u_bullet :: string where "u_bullet = [CHR 0xE2, CHR 0x80, CHR 0xA2]"
definition u_dash :: string where "u_dash = [CHR 0xE2, CHR 0x80, CHR 0x94]"
definition u_arrow :: string where "u_arrow = [CHR 0xE2, CHR 0x86, CHR 0x92]"
definition u_degree :: string where "u_degree = [CHR 0xC2, CHR 0xB0]"
definition u_micro :: string where "u_micro = [CHR 0xC2, CHR 0xB5]"

definition u_cross :: string where "u_cross = [CHR 0xE2, CHR 0x9C, CHR 0x97]"

definition rule_line :: string where
  "rule_line = concat (replicate 54 [CHR 0xE2, CHR 0x95, CHR 0x90])"

lemmas [go_eval] = ljust_def rjust_def hex_char_def utoh.simps fmt_hex_def fmt_bool_def


subsection \<open>Outputs\<close>

text \<open>
  A line on standard output, a line on standard error, a line on standard error that ends
  with the text of an error, a line on standard output with the text of an error between two
  strings, and an index panic of the runtime. A line with a \<open>%q\<close> is written with an error
  value that holds the format and its argument, so the quoting is not expanded.
\<close>

datatype out_line = Out string | ErrLine string | ErrOf string go_err | OutOf string go_err string | Panic

abbreviation outs :: "string list \<Rightarrow> out_line list" where
  "outs ls \<equiv> map Out ls"

abbreviation errs :: "string list \<Rightarrow> out_line list" where
  "errs ls \<equiv> map ErrLine ls"

text \<open>\<open>error: ... %q\<close>, and \<open>error: %v\<close>.\<close>

abbreviation bad_arg :: "string \<Rightarrow> string \<Rightarrow> out_line" where
  "bad_arg what arg \<equiv> ErrOf ''error: '' (Errorf what [arg] None)"

subsection \<open>Reading back a hexadecimal number\<close>

lemma any_digit_hex: "d < 16 \<Longrightarrow> any_digit (hex_char d) = Some d"
  by (auto simp: any_digit_def hex_char_def)

lemma utoh_not_Nil [simp]: "utoh n \<noteq> []"
  by (subst utoh.simps) simp

lemma parse_digits_utoh: "n \<le> mx \<Longrightarrow> parse_digits 16 mx 0 (utoh n) = (n, None)"
proof (induction n rule: utoh.induct)
  case (1 n)
  show ?case
  proof (cases "n < 16")
    case True
    with "1.prems" show ?thesis by (subst utoh.simps) (simp add: any_digit_hex)
  next
    case False
    have "parse_digits 16 mx 0 (utoh (n div 16)) = (n div 16, None)"
      using "1.IH" "1.prems" False by simp
    then have "parse_digits 16 mx 0 (utoh (n div 16) @ [hex_char (n mod 16)])
      = (n div 16 * 16 + n mod 16, None)"
      using "1.prems" by (intro parse_digits_snoc) (auto simp: any_digit_hex)
    with False show ?thesis by (subst utoh.simps) simp
  qed
qed

lemma ParseUint_utoh [simp]: "ParseUint (utoh (unat w)) 16 = (w, None)"
proof -
  have "unat w < 2 ^ LENGTH(64)" by (rule unsigned_less)
  then have "unat w \<le> 2 ^ 64 - 1" by simp
  then show ?thesis by (simp add: ParseUint_def parse_uint_def parse_digits_utoh num_error_def)
qed

lemma plain_utoh: "c \<in> set (utoh n) \<Longrightarrow> plain c"
proof (induction n rule: utoh.induct)
  case (1 n)
  have "list_all (\<lambda>d. plain (hex_char d)) [0..<16]" by code_simp
  then have "plain (hex_char d)" if "d < 16" for d
    using that by (simp add: list_all_iff)
  with 1 show ?case by (subst (asm) utoh.simps) (auto split: if_splits)
qed

end
