(* ===== verification/Go_Json.thy ===== *)
theory Go_Json
  imports Go_Fmt
begin

text \<open>
  Strings as \<open>json.Encoder\<close> writes them: the HTML escaping of the encoder, and invalid UTF-8 as
  the replacement character. The records the tools encode are written out by their theories.
\<close>

definition json_ascii :: "char \<Rightarrow> string" where
  "json_ascii c =
     (if c = CHR 0x22 \<or> c = CHR 0x5C then [CHR 0x5C, c]
      else if c = CHR 0x08 then [CHR 0x5C, CHR ''b'']
      else if c = CHR 0x0C then [CHR 0x5C, CHR ''f'']
      else if c = CHR 0x0A then [CHR 0x5C, CHR ''n'']
      else if c = CHR 0x0D then [CHR 0x5C, CHR ''r'']
      else if c = CHR 0x09 then [CHR 0x5C, CHR ''t'']
      else if (of_char c :: nat) < 0x20 \<or> c \<in> {CHR ''<'', CHR ''>'', CHR ''&''}
      then CHR 0x5C # ''u00'' @ [hex_char (of_char c div 16), hex_char (of_char c mod 16)]
      else [c])"

function json_chars :: "string \<Rightarrow> string" where
  "json_chars s =
     (case s of [] \<Rightarrow> []
      | c # _ \<Rightarrow>
          (let (r, n) = decode_rune s in
           if (of_char c :: nat) < 0x80 then json_ascii c @ json_chars (tl s)
           else (if r = 0xFFFD \<and> n = 1 then CHR 0x5C # ''ufffd''
                 else if r = 0x2028 then CHR 0x5C # ''u2028''
                 else if r = 0x2029 then CHR 0x5C # ''u2029''
                 else take n s) @ json_chars (drop n s)))"
  by pat_completeness auto
termination
proof (relation "measure length")
  fix s c cs x y z
  assume a: "s = (c :: char) # cs" "x = decode_rune s" "(y, z) = x"
  then have "0 < snd (decode_rune s)" by (intro decode_rune_width) simp
  then have "0 < z" using a(2,3) by (metis snd_conv)
  then show "(drop z s, s) \<in> measure length" using a(1) by simp
qed auto

declare json_chars.simps [simp del]

definition json_string :: "string \<Rightarrow> string" where
  "json_string s = CHR 0x22 # json_chars s @ [CHR 0x22]"

subsection \<open>No control characters\<close>

definition printing :: "string \<Rightarrow> bool" where
  "printing s = list_all (\<lambda>c. 0x20 \<le> (of_char c :: nat)) s"

lemma printing_append: "printing (s @ t) \<longleftrightarrow> printing s \<and> printing t"
  by (simp add: printing_def)

lemma printing_Cons: "printing (c # s) \<longleftrightarrow> 0x20 \<le> (of_char c :: nat) \<and> printing s"
  by (simp add: printing_def)

lemma printing_Nil: "printing []"
  by (simp add: printing_def)

lemma decode_rune_bytes:
  assumes "0x80 \<le> (of_char c :: nat)"
  shows "printing (take (snd (decode_rune (c # cs))) (c # cs))"
proof -
  have hi: "0x20 \<le> (of_char x :: nat)" if "0x80 \<le> (of_char x :: nat)" for x :: char using that by simp
  have cont: "0x20 \<le> (of_char x :: nat)" if "cont_byte (of_char x)" for x :: char using that by (simp add: cont_byte_def)
  consider "cs = []" | c1 where "cs = [c1]" | c1 c2 where "cs = [c1, c2]" | c1 c2 c3 ds where "cs = c1 # c2 # c3 # ds"
    by (metis neq_Nil_conv)
  then show ?thesis
    using hi [OF assms] assms cont
    by cases (simp_all add: decode_rune_def Let_def printing_Cons printing_Nil)
qed

lemma hex_char_printing: "d < 16 \<Longrightarrow> 0x20 \<le> (of_char (hex_char d) :: nat)"
  by (simp add: hex_char_def)

lemma printing_json_ascii: "(of_char c :: nat) < 0x80 \<Longrightarrow> printing (json_ascii c)"
  by (auto simp: json_ascii_def printing_Cons printing_Nil hex_char_printing)

lemma json_chars_Nil: "json_chars [] = []"
  by (simp add: json_chars.simps [of "[]"])

lemma json_chars_ascii: "(of_char c :: nat) < 0x80 \<Longrightarrow> json_chars (c # cs) = json_ascii c @ json_chars cs"
  by (simp add: json_chars.simps [of "c # cs"] split: prod.splits)

lemma json_chars_multi:
  assumes "\<not> (of_char c :: nat) < 0x80" and "decode_rune (c # cs) = (r, n)"
  shows "json_chars (c # cs) =
    (if r = 0xFFFD \<and> n = 1 then CHR 0x5C # ''ufffd'' else if r = 0x2028 then CHR 0x5C # ''u2028''
     else if r = 0x2029 then CHR 0x5C # ''u2029'' else take n (c # cs)) @ json_chars (drop n (c # cs))"
  by (subst json_chars.simps) (simp only: list.case assms Let_def prod.case if_False)

lemma printing_escapes:
  "printing (CHR 0x5C # ''ufffd'')" "printing (CHR 0x5C # ''u2028'')" "printing (CHR 0x5C # ''u2029'')"
  by code_simp+

lemma printing_json_chars: "printing (json_chars s)"
proof (induction s rule: json_chars.induct)
  case (1 s)
  show ?case
  proof (cases s)
    case Nil
    then show ?thesis by (simp add: json_chars_Nil printing_Nil)
  next
    case (Cons c cs)
    obtain r n where d: "decode_rune s = (r, n)" by (cases "decode_rune s")
    show ?thesis
    proof (cases "(of_char c :: nat) < 0x80")
      case True
      have "printing (json_chars cs)" using 1(1) [OF Cons d [symmetric] refl True] Cons by simp
      with True show ?thesis by (simp add: Cons json_chars_ascii printing_append printing_json_ascii)
    next
      case False
      have rest: "printing (json_chars (drop n s))" using 1(2) [OF Cons d [symmetric] refl False] .
      have "decode_rune (c # cs) = (r, n)" using d Cons by simp
      note step = json_chars_multi [OF False this]
      have "printing (take n (c # cs))" using decode_rune_bytes [of c cs] False d Cons by simp
      with rest show ?thesis unfolding Cons step printing_append
        by (simp only: if_split printing_escapes simp_thms split: if_split)
    qed
  qed
qed

lemma printing_json_string: "printing (json_string s)"
  by (simp add: json_string_def printing_Cons printing_append printing_json_chars printing_Nil)

lemma printing_utoa: "printing (utoa n)"
proof -
  have "dec_digit c \<noteq> None \<Longrightarrow> 0x20 \<le> (of_char c :: nat)" for c
    by (auto simp: dec_digit_def Let_def split: if_splits)
  then show ?thesis using utoa_chars [of n] by (auto simp: printing_def list_all_iff)
qed

lemma printing_itoa: "printing (itoa i)"
  by (simp add: itoa_def printing_utoa printing_Cons)

end
