(* ===== verification/Go_IO.thy ===== *)
theory Go_IO
  imports Go_Path
begin

text \<open>
  What the tools see of the kernel. A \<open>sysview\<close> answers the file-system calls of one
  run of a collector: procfs, sysfs and cgroupfs are read, never written. Every path is
  answered on its own, so a process that exits between the listing of \<open>/proc\<close> and the
  reading of its files is a view that lists the name and fails the reads. A file that is
  read twice in one run answers the same twice; the collectors that depend on two samples
  (CPU steal time) take two views.
\<close>

subsection \<open>The view\<close>

datatype ftype = FDir | FLink | FReg

record dirent =
  de_name :: string
  de_type :: ftype

abbreviation IsDir :: "dirent \<Rightarrow> bool" where
  "IsDir e \<equiv> de_type e = FDir"

record finfo =
  fi_ino :: uint64
  fi_isdir :: bool

text \<open>
  A directory tree as \<open>filepath.WalkDir\<close> meets it: name, whether it is a directory, and
  the entries its listing delivered (all of them, or those before a read error; the
  callback of the tools ignores the error).
\<close>

datatype dtree = DTree (dt_name: string) (dt_isdir: bool) (dt_children: "dtree list")

text \<open>
  \<open>sv_open\<close>: \<open>os.Open\<close> and the reads up to the end or to a read error, which leaves the
  bytes delivered before it. \<open>sv_dir\<close>: the entries of a directory in the order the kernel
  gives them, with the error that ended the listing, if any. \<open>sv_stat\<close> follows symbolic
  links, so on \<open>/proc/<pid>/ns/<type>\<close> its inode is the identity of the namespace.
\<close>

record sysview =
  sv_open :: "string \<Rightarrow> go_err + (string \<times> go_err option)"
  sv_dir :: "string \<Rightarrow> dirent list \<times> go_err option"
  sv_stat :: "string \<Rightarrow> go_err + finfo"
  sv_readlink :: "string \<Rightarrow> go_err + string"
  sv_tree :: "string \<Rightarrow> dtree option"

subsection \<open>os\<close>

definition os_ReadFile :: "sysview \<Rightarrow> string \<Rightarrow> go_err + string" where
  "os_ReadFile sv p =
     (case sv_open sv p of
        Inl e \<Rightarrow> Inl e
      | Inr (data, None) \<Rightarrow> Inr data
      | Inr (data, Some e) \<Rightarrow> Inl e)"

text \<open>\<open>os.ReadDir\<close> sorts the entries by name and returns what it read before an error.\<close>

definition os_ReadDir :: "sysview \<Rightarrow> string \<Rightarrow> dirent list \<times> go_err option" where
  "os_ReadDir sv p = (let (es, e) = sv_dir sv p in (sort_key de_name es, e))"

definition stat_ok :: "sysview \<Rightarrow> string \<Rightarrow> bool" where
  "stat_ok sv p = (case sv_stat sv p of Inl _ \<Rightarrow> False | Inr _ \<Rightarrow> True)"

definition stat_isdir :: "sysview \<Rightarrow> string \<Rightarrow> bool" where
  "stat_isdir sv p = (case sv_stat sv p of Inl _ \<Rightarrow> False | Inr fi \<Rightarrow> fi_isdir fi)"

lemma os_ReadDir_set: "set (fst (os_ReadDir sv p)) = set (fst (sv_dir sv p))"
  by (simp add: os_ReadDir_def split: prod.splits)

lemma os_ReadDir_sorted: "sorted (map de_name (fst (os_ReadDir sv p)))"
  by (simp add: os_ReadDir_def split: prod.splits)

lemma os_ReadDir_err: "snd (os_ReadDir sv p) = snd (sv_dir sv p)"
  by (simp add: os_ReadDir_def split: prod.splits)

subsection \<open>bufio.Scanner\<close>

text \<open>
  \<open>bufio.ScanLines\<close> under the default buffer: pieces between newlines, a last piece without
  newline only if it is not empty, a carriage return at the end of a line dropped. The
  buffer holds 64 KiB, so a line of 65536 bytes or more ends the scan with \<open>ErrTooLong\<close>;
  the lines before it have been delivered. Otherwise the error is the read error, if any.
\<close>

definition scan_pieces :: "string \<Rightarrow> string list" where
  "scan_pieces data =
     (let ps = Split CHR 0x0A data in if last ps = [] then butlast ps else ps)"

definition drop_cr :: "string \<Rightarrow> string" where
  "drop_cr p = (if p \<noteq> [] \<and> last p = CHR 0x0D then butlast p else p)"

definition scan_file :: "string \<times> go_err option \<Rightarrow> string list \<times> go_err option" where
  "scan_file f =
     (let (data, e) = f; ps = scan_pieces data;
          ok = takeWhile (\<lambda>p. length p < 65536) ps
      in (map drop_cr ok, if length ok < length ps then Some TooLong else e))"

definition scan_lines :: "string \<times> go_err option \<Rightarrow> string list" where
  "scan_lines f = fst (scan_file f)"

text \<open>A file as the kernel writes it: every line ended by a newline.\<close>

fun unlines :: "string list \<Rightarrow> string" where
  "unlines [] = []"
| "unlines (l # ls) = l @ CHR 0x0A # unlines ls"

definition line_ok :: "string \<Rightarrow> bool" where
  "line_ok l \<longleftrightarrow> CHR 0x0A \<notin> set l \<and> CHR 0x0D \<notin> set l \<and> length l < 65536"

lemma Split_unlines: "\<forall>l \<in> set ls. CHR 0x0A \<notin> set l \<Longrightarrow> Split CHR 0x0A (unlines ls) = ls @ [[]]"
  by (induction ls) (auto simp: Split_append)

lemma scan_unlines:
  assumes "\<forall>l \<in> set ls. line_ok l"
  shows "scan_file (unlines ls, e) = (ls, e)"
proof -
  have "\<forall>l \<in> set ls. CHR 0x0A \<notin> set l" using assms by (simp add: line_ok_def)
  then have "scan_pieces (unlines ls) = ls" by (simp add: scan_pieces_def Split_unlines)
  moreover have "takeWhile (\<lambda>p. length p < 65536) ls = ls"
    using assms by (simp add: line_ok_def)
  moreover have "map drop_cr ls = ls"
    using assms by (intro map_idI) (auto simp: line_ok_def drop_cr_def dest: last_in_set)
  ultimately show ?thesis
    unfolding scan_file_def Let_def by (simp only: prod.case less_irrefl if_False)
qed

lemma scan_lines_unlines: "\<forall>l \<in> set ls. line_ok l \<Longrightarrow> scan_lines (unlines ls, e) = ls"
  by (simp add: scan_lines_def scan_unlines)

text \<open>
  The collectors that do not scan split the trimmed text at the newlines; on a file of lines
  that start and end with no space this gives the lines.
\<close>

definition tight :: "string \<Rightarrow> bool" where
  "tight l \<longleftrightarrow> l \<noteq> [] \<and> CHR 0x0A \<notin> set l \<and> strip_space l = None \<and> strip_space_rev (rev l) = None"

lemma unlines_snoc: "ls \<noteq> [] \<Longrightarrow> unlines ls = join_with [CHR 0x0A] ls @ [CHR 0x0A]"
proof (induction ls)
  case (Cons l ls)
  then show ?case by (cases ls) auto
qed simp

lemma Split_join: "\<forall>l \<in> set ls. CHR 0x0A \<notin> set l \<Longrightarrow> ls \<noteq> [] \<Longrightarrow>
  Split CHR 0x0A (join_with [CHR 0x0A] ls) = ls"
proof (induction ls)
  case (Cons l ls)
  then show ?case by (cases ls) (auto simp: Split_append Split_no_sep)
qed simp

lemma strip_join: "tight (hd ls) \<Longrightarrow> ls \<noteq> [] \<Longrightarrow> strip_space (join_with [CHR 0x0A] ls) = None"
  by (cases ls rule: unwords.cases) (auto simp: tight_def strip_space_before_space)

lemma strip_rev_join:
  "tight (last ls) \<Longrightarrow> ls \<noteq> [] \<Longrightarrow> strip_space_rev (rev (join_with [CHR 0x0A] ls)) = None
   \<and> join_with [CHR 0x0A] ls \<noteq> []"
proof (induction ls rule: unwords.induct)
  case (3 w v vs)
  then have "strip_space_rev (rev (join_with [CHR 0x0A] (v # vs))) = None
    \<and> join_with [CHR 0x0A] (v # vs) \<noteq> []" by simp
  then show ?case by (simp add: strip_space_rev_before_space)
qed (auto simp: tight_def)

lemma Split_TrimSpace_unlines:
  assumes "ls \<noteq> []" and "\<forall>l \<in> set ls. tight l"
  shows "Split CHR 0x0A (TrimSpace (unlines ls)) = ls"
proof -
  have "tight (hd ls)" "tight (last ls)" using assms by auto
  then have "TrimSpace (unlines ls) = join_with [CHR 0x0A] ls"
    using assms(1) strip_join strip_rev_join by (simp add: unlines_snoc TrimSpace_snoc)
  then show ?thesis using assms by (simp add: Split_join tight_def)
qed

lemma scan_lines_no_newline: "l \<in> set (scan_lines f) \<Longrightarrow> CHR 0x0A \<notin> set l"
proof -
  assume "l \<in> set (scan_lines f)"
  then obtain p where p: "p \<in> set (Split CHR 0x0A (fst f))" "l = drop_cr p"
    by (auto simp: scan_lines_def scan_file_def scan_pieces_def Let_def split: prod.splits if_splits
        dest!: set_takeWhileD in_set_butlastD)
  then show ?thesis using Split_pieces [of "CHR 0x0A" "fst f"]
    by (auto simp: drop_cr_def split: if_splits dest: in_set_butlastD)
qed

subsection \<open>filepath.Glob\<close>

text \<open>\<open>glob(dir, pattern)\<close>: the sorted names of a directory that match, joined to it.\<close>

definition glob_dir :: "sysview \<Rightarrow> string \<Rightarrow> string \<Rightarrow> string list" where
  "glob_dir sv dir pat =
     (if stat_isdir sv dir
      then map (\<lambda>n. path_Join [dir, n])
             (filter (\<lambda>n. path_Match pat n = Some True) (sort (map de_name (fst (sv_dir sv dir)))))
      else [])"

definition clean_glob_path :: "string \<Rightarrow> string" where
  "clean_glob_path p = (if p = [] then ''.'' else if p = ''/'' then p else butlast p)"

function path_Glob :: "sysview \<Rightarrow> string \<Rightarrow> go_err + string list" where
  "path_Glob sv pattern =
     (if parse_pattern False [] pattern = None then Inl BadPattern
      else if \<not> has_meta pattern then Inr (if stat_ok sv pattern then [pattern] else [])
      else let dir = clean_glob_path (fst (path_Split pattern)); file = snd (path_Split pattern) in
        if \<not> has_meta dir then Inr (glob_dir sv dir file)
        else if length pattern \<le> length dir then Inl BadPattern
        else case path_Glob sv dir of
          Inl e \<Rightarrow> Inl e
        | Inr ds \<Rightarrow> Inr (concat (map (\<lambda>d. glob_dir sv d file) ds)))"
  by pat_completeness auto
termination
  by (relation "measure (\<lambda>(sv, p). length p)") auto

declare path_Glob.simps [simp del]

text \<open>The value of \<open>matches, _ := filepath.Glob(p)\<close>.\<close>

definition Glob_val :: "sysview \<Rightarrow> string \<Rightarrow> string list" where
  "Glob_val sv p = (case path_Glob sv p of Inl _ \<Rightarrow> [] | Inr ms \<Rightarrow> ms)"

subsection \<open>filepath.WalkDir\<close>

text \<open>
  The calls \<open>fn(path, d, nil)\<close> of \<open>WalkDir\<close>, in order, for a callback that returns nil:
  a directory before its entries, the entries sorted by name. Each visit is the path, the
  name and whether it is a directory.
\<close>

fun walk_visits :: "string \<Rightarrow> dtree \<Rightarrow> (string \<times> string \<times> bool) list" where
  "walk_visits path (DTree n isdir cs) =
     (path, n, isdir) #
     (if isdir
      then concat (map snd (sort_key fst
             (map (\<lambda>c. (dt_name c, walk_visits (path_Join [path, dt_name c]) c)) cs)))
      else [])"

lemma walk_visits_head: "\<exists>vs. walk_visits path t = (path, dt_name t, dt_isdir t) # vs"
  by (cases t) auto

subsection \<open>Views from tables\<close>

text \<open>
  A view given by tables of files, directories, inodes, links and trees; what is not in a
  table does not exist. The concrete inputs of the development are written this way.
\<close>

definition no_entry :: go_err where
  "no_entry = SysErr ''no such file or directory''"

definition table_get :: "(string \<times> 'a) list \<Rightarrow> string \<Rightarrow> go_err + 'a" where
  "table_get t p = (case map_of t p of None \<Rightarrow> Inl no_entry | Some x \<Rightarrow> Inr x)"

definition table_open :: "(string \<times> string) list \<Rightarrow> string \<Rightarrow> go_err + (string \<times> go_err option)" where
  "table_open t p = (case map_of t p of None \<Rightarrow> Inl no_entry | Some d \<Rightarrow> Inr (d, None))"

definition table_dir :: "(string \<times> dirent list) list \<Rightarrow> string \<Rightarrow> dirent list \<times> go_err option" where
  "table_dir t p = (case map_of t p of None \<Rightarrow> ([], Some no_entry) | Some es \<Rightarrow> (es, None))"

definition table_view ::
  "(string \<times> string) list \<Rightarrow> (string \<times> dirent list) list \<Rightarrow> (string \<times> finfo) list \<Rightarrow>
   (string \<times> string) list \<Rightarrow> (string \<times> dtree) list \<Rightarrow> sysview" where
  "table_view files dirs inodes links trees =
     \<lparr>sv_open = table_open files, sv_dir = table_dir dirs, sv_stat = table_get inodes,
      sv_readlink = table_get links, sv_tree = map_of trees\<rparr>"

abbreviation dir_entry :: "string \<Rightarrow> dirent" where
  "dir_entry n \<equiv> \<lparr>de_name = n, de_type = FDir\<rparr>"

lemmas [go_eval] = scan_pieces_def drop_cr_def scan_file_def scan_lines_def glob_dir_def
  clean_glob_path_def path_Glob.simps Glob_val_def

lemmas [go_io] = os_ReadFile_def os_ReadDir_def stat_ok_def stat_isdir_def

end
