(* ===== verification/Loops.thy ===== *)
theory Loops
  imports Go_IO
begin

text \<open>
  The two loop shapes that almost every collector has, each proved once.

  \<^item> The keyed scan: \<open>for scanner.Scan() { ...; switch key { case "a": x.A = v ... } }\<close>. The
    interface is the locale \<open>keyed_scan\<close>: a parser of one line, an update of the result by
    a key and a value, and a projection per key, with the laws of an assignment. Its
    theorem says that the result holds, for every key of the switch, the value of the last
    line with that key.
  \<^item> The first-come filter: \<open>if seen[k] { continue }; seen[k] = true; append\<close>. The interface
    is the locale \<open>seen_set\<close>: an abstract set of keys.
\<close>

subsection \<open>Keyed scans\<close>

fun scan_fold :: "('l \<Rightarrow> ('k \<times> 'v) option) \<Rightarrow> ('k \<Rightarrow> 'v \<Rightarrow> 's \<Rightarrow> 's) \<Rightarrow> 's \<Rightarrow> 'l list \<Rightarrow> 's" where
  "scan_fold parse upd s [] = s"
| "scan_fold parse upd s (l # ls) =
     scan_fold parse upd (case parse l of None \<Rightarrow> s | Some (k, v) \<Rightarrow> upd k v s) ls"

lemma scan_fold_map:
  "scan_fold parse upd s ls =
   fold (\<lambda>r s. case r of None \<Rightarrow> s | Some (k, v) \<Rightarrow> upd k v s) (map parse ls) s"
  by (induction ls arbitrary: s) auto

text \<open>The specification: the value on the last line that carries the key.\<close>

fun last_entry :: "('l \<Rightarrow> ('k \<times> 'v) option) \<Rightarrow> 'k \<Rightarrow> 'l list \<Rightarrow> 'v option" where
  "last_entry parse k [] = None"
| "last_entry parse k (l # ls) =
     (case last_entry parse k ls of
        Some v \<Rightarrow> Some v
      | None \<Rightarrow> (case parse l of
          None \<Rightarrow> None
        | Some (k', v) \<Rightarrow> if k' = k then Some v else None))"

lemma last_entry_append:
  "last_entry parse k (xs @ ys) =
     (case last_entry parse k ys of Some v \<Rightarrow> Some v | None \<Rightarrow> last_entry parse k xs)"
  by (induction xs) (auto split: option.splits)

lemma last_entry_None:
  "last_entry parse k ls = None \<longleftrightarrow> (\<forall>l \<in> set ls. \<forall>v. parse l \<noteq> Some (k, v))"
  by (induction ls) (auto split: option.splits if_splits)

lemma last_entry_Some:
  "last_entry parse k ls = Some v \<Longrightarrow>
   \<exists>xs l ys. ls = xs @ l # ys \<and> parse l = Some (k, v) \<and> (\<forall>l' \<in> set ys. \<forall>w. parse l' \<noteq> Some (k, w))"
proof (induction ls)
  case Nil
  then show ?case by simp
next
  case (Cons a ls)
  show ?case
  proof (cases "last_entry parse k ls")
    case (Some w)
    with Cons obtain xs l ys where "ls = xs @ l # ys" "parse l = Some (k, v)"
      "\<forall>l' \<in> set ys. \<forall>w. parse l' \<noteq> Some (k, w)" by auto
    then have "a # ls = (a # xs) @ l # ys" by simp
    then show ?thesis
      using \<open>parse l = Some (k, v)\<close> \<open>\<forall>l' \<in> set ys. \<forall>w. parse l' \<noteq> Some (k, w)\<close> by blast
  next
    case None
    with Cons.prems have "parse a = Some (k, v)" by (auto split: option.splits if_splits)
    with None have "a # ls = [] @ a # ls \<and> parse a = Some (k, v)
      \<and> (\<forall>l' \<in> set ls. \<forall>w. parse l' \<noteq> Some (k, w))" by (simp add: last_entry_None)
    then show ?thesis by blast
  qed
qed

text \<open>Distinct keys, one line each: the value is the one on the key's line.\<close>

lemma last_entry_map:
  assumes "distinct ks" and "\<forall>k \<in> set ks. parse (f k) = Some (k, g k)" and "k \<in> set ks"
  shows "last_entry parse k (map f ks) = Some (g k)"
  using assms
proof (induction ks)
  case (Cons a ks)
  show ?case
  proof (cases "k \<in> set ks")
    case True
    with Cons show ?thesis by simp
  next
    case False
    with Cons.prems have "k = a" by simp
    moreover have "last_entry parse k (map f ks) = None"
      using Cons.prems False by (auto simp: last_entry_None)
    ultimately show ?thesis using Cons.prems by simp
  qed
qed simp

locale keyed_scan =
  fixes upd :: "'k \<Rightarrow> 'v \<Rightarrow> 's \<Rightarrow> 's"
    and look :: "'k \<Rightarrow> 's \<Rightarrow> 'w"
    and conv :: "'k \<Rightarrow> 'v \<Rightarrow> 'w"
    and keys :: "'k set"
  assumes look_same: "k \<in> keys \<Longrightarrow> look k (upd k v s) = conv k v"
    and look_other: "k \<in> keys \<Longrightarrow> k' \<noteq> k \<Longrightarrow> look k (upd k' v s) = look k s"
begin

lemma look_scan:
  assumes "k \<in> keys"
  shows "look k (scan_fold parse upd s ls) =
    (case last_entry parse k ls of None \<Rightarrow> look k s | Some v \<Rightarrow> conv k v)"
proof (induction ls arbitrary: s)
  case Nil
  then show ?case by simp
next
  case (Cons l ls)
  show ?case
  proof (cases "parse l")
    case None
    with Cons show ?thesis by (simp split: option.splits)
  next
    case (Some kv)
    obtain k' v where "kv = (k', v)" by (cases kv)
    with Cons Some assms show ?thesis
      by (auto simp: look_same look_other split: option.splits)
  qed
qed

lemma look_scan_absent:
  assumes "k \<in> keys" and "\<forall>l \<in> set ls. \<forall>v. parse l \<noteq> Some (k, v)"
  shows "look k (scan_fold parse upd s ls) = look k s"
  using assms last_entry_None [of parse k ls] by (simp add: look_scan)

lemma look_scan_map:
  assumes "distinct ks" and "\<forall>k \<in> set ks. parse (f k) = Some (k, g k)"
    and "k \<in> set ks" and "k \<in> keys"
  shows "look k (scan_fold parse upd s (map f ks)) = conv k (g k)"
  using last_entry_map [of ks parse f g k] assms by (simp add: look_scan)

end

text \<open>A scan that also determines its result: equal projections, equal results.\<close>

locale keyed_scan_ext = keyed_scan +
  assumes look_ext: "(\<And>k. k \<in> keys \<Longrightarrow> look k s = look k t) \<Longrightarrow> s = t"
begin

lemma scan_cong:
  assumes "\<And>k. k \<in> keys \<Longrightarrow> last_entry parse k ls = last_entry parse' k ls'"
  shows "scan_fold parse upd s ls = scan_fold parse' upd s ls'"
  by (rule look_ext) (simp add: look_scan assms)

text \<open>Lines whose key the switch does not know leave the result alone.\<close>

lemma scan_ignores:
  assumes "\<And>k v. parse l = Some (k, v) \<Longrightarrow> k \<notin> keys"
  shows "scan_fold parse upd s (xs @ l # ys) = scan_fold parse upd s (xs @ ys)"
proof (rule scan_cong)
  fix k
  assume "k \<in> keys"
  then have "last_entry parse k [l] = None" using assms by (auto split: option.splits)
  then show "last_entry parse k (xs @ l # ys) = last_entry parse k (xs @ ys)"
    by (simp add: last_entry_append split: option.splits)
qed

end

subsection \<open>Search loops\<close>

text \<open>\<open>for ... { if !found { continue }; return ... }\<close>: the first element that returns.\<close>

fun first_some :: "('a \<Rightarrow> 'b option) \<Rightarrow> 'a list \<Rightarrow> 'b option" where
  "first_some f [] = None"
| "first_some f (x # xs) = (case f x of Some y \<Rightarrow> Some y | None \<Rightarrow> first_some f xs)"

lemma first_some_None: "first_some f xs = None \<longleftrightarrow> (\<forall>x \<in> set xs. f x = None)"
  by (induction xs) (auto split: option.splits)

lemma first_some_append:
  "\<forall>x \<in> set xs. f x = None \<Longrightarrow> first_some f (xs @ ys) = first_some f ys"
  by (induction xs) auto

subsection \<open>First-come filters\<close>

text \<open>
  \<open>key x = None\<close> marks an element that is never skipped (the zero id of a BPF object);
  otherwise an element is kept unless its key has been seen.
\<close>

fun first_come ::
  "('k \<Rightarrow> 'm \<Rightarrow> bool) \<Rightarrow> ('k \<Rightarrow> 'm \<Rightarrow> 'm) \<Rightarrow> ('a \<Rightarrow> 'k) \<Rightarrow> ('k \<Rightarrow> bool) \<Rightarrow> 'm \<Rightarrow> 'a list \<Rightarrow> 'a list \<times> 'm" where
  "first_come mem add key skip m [] = ([], m)"
| "first_come mem add key skip m (x # xs) =
     (if skip (key x) \<and> mem (key x) m then first_come mem add key skip m xs
      else let r = first_come mem add key skip (add (key x) m) xs in (x # fst r, snd r))"

locale seen_set =
  fixes empty :: "'m"
    and mem :: "'k \<Rightarrow> 'm \<Rightarrow> bool"
    and add :: "'k \<Rightarrow> 'm \<Rightarrow> 'm"
  assumes mem_empty: "\<not> mem k empty"
    and mem_add: "mem k (add k' m) \<longleftrightarrow> k = k' \<or> mem k m"
begin

lemma first_come_append:
  "first_come mem add key skip m (xs @ ys) =
     (let r = first_come mem add key skip m xs; r' = first_come mem add key skip (snd r) ys
      in (fst r @ fst r', snd r'))"
  by (induction xs arbitrary: m) (auto simp: Let_def)

lemma first_come_subseq: "subseq (fst (first_come mem add key skip m xs)) xs"
  by (induction xs arbitrary: m) (auto simp: Let_def)

lemma first_come_subset: "set (fst (first_come mem add key skip m xs)) \<subseteq> set xs"
  by (induction xs arbitrary: m) (auto simp: Let_def)

lemma first_come_fresh:
  "x \<in> set (fst (first_come mem add key skip m xs)) \<Longrightarrow> skip (key x) \<Longrightarrow> \<not> mem (key x) m"
proof (induction xs arbitrary: m)
  case Nil
  then show ?case by simp
next
  case (Cons a xs)
  then have "x \<in> set (fst (first_come mem add key skip (add (key a) m) xs)) \<Longrightarrow> \<not> mem (key x) m"
    using Cons.IH [of "add (key a) m"] by (auto simp: mem_add)
  with Cons show ?case by (auto simp: Let_def split: if_splits)
qed

text \<open>No key is kept twice.\<close>

lemma first_come_distinct:
  "distinct (map key (filter (\<lambda>x. skip (key x)) (fst (first_come mem add key skip m xs))))"
proof (induction xs arbitrary: m)
  case Nil
  then show ?case by simp
next
  case (Cons a xs)
  have "key a \<notin> key ` {x \<in> set (fst (first_come mem add key skip (add (key a) m) xs)). skip (key x)}"
  proof
    assume "key a \<in> key ` {x \<in> set (fst (first_come mem add key skip (add (key a) m) xs)). skip (key x)}"
    then obtain x where "x \<in> set (fst (first_come mem add key skip (add (key a) m) xs))"
      "skip (key x)" "key x = key a" by auto
    then show False using first_come_fresh [of x key skip "add (key a) m" xs] by (simp add: mem_add)
  qed
  with Cons show ?case by (auto simp: Let_def)
qed

text \<open>Every element is represented: it is kept, or an earlier key covers it.\<close>

lemma first_come_covers:
  "x \<in> set xs \<Longrightarrow>
   x \<in> set (fst (first_come mem add key skip m xs)) \<or>
   skip (key x) \<and> (mem (key x) m \<or> key x \<in> key ` set (fst (first_come mem add key skip m xs)))"
proof (induction xs arbitrary: m)
  case Nil
  then show ?case by simp
next
  case (Cons a xs)
  show ?case
  proof (cases "skip (key a) \<and> mem (key a) m")
    case True
    with Cons show ?thesis by auto
  next
    case False
    then have eq: "fst (first_come mem add key skip m (a # xs)) =
      a # fst (first_come mem add key skip (add (key a) m) xs)"
      by (auto simp: Let_def)
    show ?thesis
    proof (cases "x = a")
      case True
      with eq show ?thesis by simp
    next
      case ne: False
      with Cons have "x \<in> set (fst (first_come mem add key skip (add (key a) m) xs)) \<or>
        skip (key x) \<and> (mem (key x) (add (key a) m) \<or>
          key x \<in> key ` set (fst (first_come mem add key skip (add (key a) m) xs)))" by simp
      with eq show ?thesis by (auto simp: mem_add)
    qed
  qed
qed

lemma first_come_all:
  assumes "\<forall>x \<in> set xs. \<not> skip (key x)"
  shows "fst (first_come mem add key skip m xs) = xs"
  using assms by (induction xs arbitrary: m) (auto simp: Let_def)

end

text \<open>The Go \<open>map[K]bool\<close> of the tools: a function to \<open>bool\<close>, false where nothing was stored.\<close>

definition seen_mem :: "'k \<Rightarrow> ('k \<Rightarrow> bool) \<Rightarrow> bool" where
  "seen_mem k m = m k"

definition seen_add :: "'k \<Rightarrow> ('k \<Rightarrow> bool) \<Rightarrow> ('k \<Rightarrow> bool)" where
  "seen_add k m = m(k := True)"

interpretation seen: seen_set "\<lambda>_. False" seen_mem seen_add
  by unfold_locales (auto simp: seen_mem_def seen_add_def)

end
