(* ===== verification/Proc.thy ===== *)
theory Proc
  imports Loops
begin

text \<open>
  Package \<open>internal/proc\<close> of kube-inspect: the processes of a pod, their namespaces and
  the mount table. A pod is recognised by its UID in the cgroup v2 path of a process.
  \<open>ListPodProcesses\<close> is the operation the other collectors (\<open>netns\<close>, \<open>ebpf\<close>, \<open>sched\<close>)
  build on; its contract is the locale \<open>pod_listing\<close>.
\<close>

subsection \<open>Data\<close>

record process =
  p_PID :: int
  p_PPID :: int
  p_Comm :: string
  p_PidNsID :: uint64
  p_CgroupPath :: string

record nsinfo =
  ni_PID :: int
  ni_Comm :: string
  ni_NS :: "string \<rightharpoonup> uint64"

record mountinfo =
  mi_MountID :: int
  mi_ParentID :: int
  mi_Root :: string
  mi_MountPoint :: string
  mi_Options :: string
  mi_FSType :: string
  mi_Source :: string
  mi_SuperOpts :: string

text \<open>\<open>fmt.Sprintf("/proc/%d/<name>", pid)\<close>\<close>

definition proc_path :: "int \<Rightarrow> string \<Rightarrow> string" where
  "proc_path pid name = ''/proc/'' @ itoa pid @ CHR ''/'' # name"

subsection \<open>One process\<close>

definition nsInode :: "sysview \<Rightarrow> int \<Rightarrow> uint64" where
  "nsInode sv pid =
     (case sv_stat sv (proc_path pid ''ns/pid'') of Inl _ \<Rightarrow> 0 | Inr st \<Rightarrow> fi_ino st)"

definition readComm :: "sysview \<Rightarrow> int \<Rightarrow> string" where
  "readComm sv pid =
     (case os_ReadFile sv (proc_path pid ''comm'') of Inl _ \<Rightarrow> ''?'' | Inr data \<Rightarrow> TrimSpace data)"

fun ppid_lines :: "string list \<Rightarrow> int" where
  "ppid_lines [] = 0"
| "ppid_lines (line # ls) =
     (if HasPrefix line ''PPid:'' then
        (let f = Fields line in if 2 \<le> length f then Atoi_val (f ! 1) else ppid_lines ls)
      else ppid_lines ls)"

definition readPPID :: "sysview \<Rightarrow> int \<Rightarrow> int" where
  "readPPID sv pid =
     (case os_ReadFile sv (proc_path pid ''status'') of
        Inl _ \<Rightarrow> 0
      | Inr data \<Rightarrow> ppid_lines (Split CHR 0x0A data))"

fun cgroup_lines :: "string list \<Rightarrow> string" where
  "cgroup_lines [] = []"
| "cgroup_lines (line # ls) =
     (if HasPrefix line ''0::'' then TrimPrefix line ''0::'' else cgroup_lines ls)"

definition readCgroupV2Path :: "sysview \<Rightarrow> int \<Rightarrow> string" where
  "readCgroupV2Path sv pid =
     (case os_ReadFile sv (proc_path pid ''cgroup'') of
        Inl _ \<Rightarrow> []
      | Inr data \<Rightarrow> cgroup_lines (Split CHR 0x0A data))"

subsection \<open>The processes of a pod\<close>

text \<open>The body of the loop over \<open>/proc\<close>: \<open>None\<close> is \<open>continue\<close>.\<close>

definition pod_process :: "sysview \<Rightarrow> string \<Rightarrow> dirent \<Rightarrow> process option" where
  "pod_process sv podUID e =
     (if \<not> IsDir e then None
      else case Atoi_ok (de_name e) of
        None \<Rightarrow> None
      | Some pid \<Rightarrow>
          (let cgroup = readCgroupV2Path sv pid in
           if \<not> Contains cgroup podUID then None
           else Some \<lparr>p_PID = pid, p_PPID = readPPID sv pid, p_Comm = readComm sv pid,
                      p_PidNsID = nsInode sv pid, p_CgroupPath = cgroup\<rparr>))"

definition ListPodProcesses :: "sysview \<Rightarrow> string \<Rightarrow> go_err + process list" where
  "ListPodProcesses sv podUID =
     (case os_ReadDir sv ''/proc'' of
        (entries, Some e) \<Rightarrow> Inl (Errorf ''reading /proc: %w'' [] (Some e))
      | (entries, None) \<Rightarrow> Inr (List.map_filter (pod_process sv podUID) entries))"

definition NsSymlinks :: "sysview \<Rightarrow> int \<Rightarrow> go_err + (string \<rightharpoonup> string)" where
  "NsSymlinks sv pid =
     (let nsDir = proc_path pid ''ns'' in
      case os_ReadDir sv nsDir of
        (entries, Some e) \<Rightarrow> Inl (Errorf ''reading %s: %w'' [nsDir] (Some e))
      | (entries, None) \<Rightarrow>
          Inr (fold (\<lambda>e result.
                 case sv_readlink sv (path_Join [nsDir, de_name e]) of
                   Inl _ \<Rightarrow> result
                 | Inr target \<Rightarrow> result(de_name e \<mapsto> target)) entries Map.empty))"

subsection \<open>Namespaces\<close>

definition podNsTypes :: "string list" where
  "podNsTypes = [''cgroup'', ''ipc'', ''mnt'', ''net'', ''pid'', ''user'', ''uts'']"

definition readNsInode :: "sysview \<Rightarrow> int \<Rightarrow> string \<Rightarrow> uint64" where
  "readNsInode sv pid nstype =
     (case sv_stat sv (proc_path pid (''ns/'' @ nstype)) of Inl _ \<Rightarrow> 0 | Inr st \<Rightarrow> fi_ino st)"

definition process_ns :: "sysview \<Rightarrow> process \<Rightarrow> nsinfo" where
  "process_ns sv p =
     \<lparr>ni_PID = p_PID p, ni_Comm = p_Comm p,
      ni_NS = fold (\<lambda>t ns. ns(t \<mapsto> readNsInode sv (p_PID p) t)) podNsTypes Map.empty\<rparr>"

definition ListPodNamespaces :: "sysview \<Rightarrow> string \<Rightarrow> go_err + nsinfo list" where
  "ListPodNamespaces sv podUID =
     (case ListPodProcesses sv podUID of
        Inl e \<Rightarrow> Inl (Errorf ''listing pod processes: %w'' [] (Some e))
      | Inr procs \<Rightarrow> Inr (map (process_ns sv) procs))"

subsection \<open>The mount table\<close>

text \<open>The scan for the separator: the first field \<open>"-"\<close> from index \<open>i\<close> on.\<close>

fun sep_index :: "nat \<Rightarrow> string list \<Rightarrow> nat option" where
  "sep_index i [] = None"
| "sep_index i (f # fs) = (if f = ''-'' then Some i else sep_index (Suc i) fs)"

definition parseMountInfoLine :: "string \<Rightarrow> go_err + mountinfo" where
  "parseMountInfoLine line =
     (let fields = Fields line in
      if length fields < 7 then Inl (Errorf ''mountinfo: too few fields: %q'' [line] None)
      else case Atoi (fields ! 0) of
        (_, Some e) \<Rightarrow> Inl (Errorf ''mountinfo: bad mount_id %q: %w'' [fields ! 0] (Some e))
      | (mountID, None) \<Rightarrow>
      (case Atoi (fields ! 1) of
        (_, Some e) \<Rightarrow> Inl (Errorf ''mountinfo: bad parent_id %q: %w'' [fields ! 1] (Some e))
      | (parentID, None) \<Rightarrow>
      (case sep_index 6 (drop 6 fields) of
        None \<Rightarrow> Inl (Errorf ''mountinfo: missing '-' separator in %q'' [line] None)
      | Some sepIdx \<Rightarrow>
          if length fields < sepIdx + 4
          then Inl (Errorf ''mountinfo: missing '-' separator in %q'' [line] None)
          else Inr \<lparr>mi_MountID = mountID, mi_ParentID = parentID, mi_Root = fields ! 3,
                    mi_MountPoint = fields ! 4, mi_Options = fields ! 5,
                    mi_FSType = fields ! (sepIdx + 1), mi_Source = fields ! (sepIdx + 2),
                    mi_SuperOpts = fields ! (sepIdx + 3)\<rparr>)))"

definition mount_of_line :: "string \<Rightarrow> mountinfo option" where
  "mount_of_line line =
     (if line = [] then None
      else case parseMountInfoLine line of Inl _ \<Rightarrow> None | Inr m \<Rightarrow> Some m)"

definition ListPodMounts :: "sysview \<Rightarrow> string \<Rightarrow> go_err + mountinfo list" where
  "ListPodMounts sv podUID =
     (case ListPodProcesses sv podUID of
        Inl e \<Rightarrow> Inl (Errorf ''listing pod processes: %w'' [] (Some e))
      | Inr [] \<Rightarrow> Inl (Errorf ''no processes found for pod %s'' [podUID] None)
      | Inr (p # _) \<Rightarrow>
          (let path = proc_path (p_PID p) ''mountinfo'' in
           case os_ReadFile sv path of
             Inl e \<Rightarrow> Inl (Errorf ''reading %s: %w'' [path] (Some e))
           | Inr data \<Rightarrow>
               Inr (List.map_filter mount_of_line (Split CHR 0x0A (TrimSpace data)))))"

text \<open>The inner loop over the super options: the first \<open>lowerdir=\<close> counts.\<close>

fun lowerdir_layers :: "string list \<Rightarrow> nat option" where
  "lowerdir_layers [] = None"
| "lowerdir_layers (opt # opts) =
     (if HasPrefix opt ''lowerdir='' then Some (Count (TrimPrefix opt ''lowerdir='') CHR '':'' + 1)
      else lowerdir_layers opts)"

definition root_overlay :: "mountinfo \<Rightarrow> bool" where
  "root_overlay m \<longleftrightarrow> mi_FSType m = ''overlay'' \<and> mi_MountPoint m = ''/''"

definition count_layers :: "mountinfo list \<Rightarrow> nat" where
  "count_layers mounts =
     (case List.find root_overlay mounts of
        None \<Rightarrow> 0
      | Some m \<Rightarrow>
          (case lowerdir_layers (Split CHR '','' (mi_SuperOpts m)) of None \<Rightarrow> 1 | Some n \<Rightarrow> n))"

definition CountOverlayLayers :: "sysview \<Rightarrow> string \<Rightarrow> go_err + nat" where
  "CountOverlayLayers sv podUID =
     (case ListPodMounts sv podUID of
        Inl e \<Rightarrow> Inl (Errorf ''listing pod mounts: %w'' [] (Some e))
      | Inr mounts \<Rightarrow> Inr (count_layers mounts))"

subsection \<open>The contract of the process listing\<close>

text \<open>
  \<open>proc_pids\<close>: the numeric directories of \<open>/proc\<close>. \<open>in_pod\<close>: the membership test of the
  tool, the UID occurring in the cgroup v2 path.
\<close>

definition proc_pids :: "sysview \<Rightarrow> int set" where
  "proc_pids sv = {pid. \<exists>e \<in> set (fst (sv_dir sv ''/proc'')). IsDir e \<and> Atoi_ok (de_name e) = Some pid}"

definition in_pod :: "sysview \<Rightarrow> string \<Rightarrow> int \<Rightarrow> bool" where
  "in_pod sv uid pid \<longleftrightarrow> Contains (readCgroupV2Path sv pid) uid"

definition pod_entry :: "sysview \<Rightarrow> int \<Rightarrow> process" where
  "pod_entry sv pid =
     \<lparr>p_PID = pid, p_PPID = readPPID sv pid, p_Comm = readComm sv pid,
      p_PidNsID = nsInode sv pid, p_CgroupPath = readCgroupV2Path sv pid\<rparr>"

locale pod_listing =
  fixes list_pod :: "sysview \<Rightarrow> string \<Rightarrow> go_err + process list"
  assumes list_exact: "list_pod sv uid = Inr ps \<Longrightarrow>
      set ps = pod_entry sv ` {pid \<in> proc_pids sv. in_pod sv uid pid}"
    and list_ok: "(\<exists>ps. list_pod sv uid = Inr ps) \<longleftrightarrow> snd (sv_dir sv ''/proc'') = None"
begin

lemma list_member:
  assumes "list_pod sv uid = Inr ps" and "p \<in> set ps"
  shows "p = pod_entry sv (p_PID p) \<and> in_pod sv uid (p_PID p) \<and> p_PID p \<in> proc_pids sv"
proof -
  obtain pid where "p = pod_entry sv pid" "pid \<in> proc_pids sv" "in_pod sv uid pid"
    using list_exact [OF assms(1)] assms(2) by blast
  moreover have "p_PID (pod_entry sv pid) = pid" by (simp add: pod_entry_def)
  ultimately show ?thesis by simp
qed

lemma list_first:
  assumes "list_pod sv uid = Inr (p # ps)"
  shows "in_pod sv uid (p_PID p) \<and> p_PID p \<in> proc_pids sv"
  using list_member [OF assms] by simp

lemma list_empty:
  assumes "list_pod sv uid = Inr ps"
  shows "ps = [] \<longleftrightarrow> (\<forall>pid \<in> proc_pids sv. \<not> in_pod sv uid pid)"
  using list_exact [OF assms] by (cases ps) auto

text \<open>A collector that gathers objects from every process of the pod gathers all of them.\<close>

lemma list_collect:
  assumes "list_pod sv uid = Inr ps"
  shows "set (concat (map (\<lambda>p. f (p_PID p)) ps)) =
    (\<Union>pid \<in> {pid \<in> proc_pids sv. in_pod sv uid pid}. set (f pid))"
  using list_exact [OF assms] by (auto simp: pod_entry_def)

end

lemma pod_process_iff:
  "pod_process sv uid e = Some p \<longleftrightarrow>
   IsDir e \<and> (\<exists>pid. Atoi_ok (de_name e) = Some pid \<and> in_pod sv uid pid \<and> p = pod_entry sv pid)"
  by (auto simp: pod_process_def in_pod_def pod_entry_def Let_def split: option.splits)

lemma ListPodProcesses_Inr:
  "ListPodProcesses sv uid = Inr ps \<longleftrightarrow>
   snd (sv_dir sv ''/proc'') = None
   \<and> ps = List.map_filter (pod_process sv uid) (fst (os_ReadDir sv ''/proc''))"
  using os_ReadDir_err [of sv "''/proc''"]
  by (auto simp: ListPodProcesses_def split: prod.splits option.splits)

lemma ListPodProcesses_Inl:
  "ListPodProcesses sv uid = Inl e \<longleftrightarrow>
   (\<exists>e'. snd (sv_dir sv ''/proc'') = Some e' \<and> e = Errorf ''reading /proc: %w'' [] (Some e'))"
  unfolding os_ReadDir_err [symmetric]
  by (auto simp: ListPodProcesses_def split: prod.splits option.splits)

interpretation lp: pod_listing ListPodProcesses
  by unfold_locales
    (auto simp: ListPodProcesses_Inr set_map_filter pod_process_iff proc_pids_def
      os_ReadDir_set image_iff)

text \<open>A small node: two processes of one pod, one outside it, and a file that is not a PID.\<close>

definition demo_node :: sysview where
  "demo_node = table_view
     [(''/proc/7/cgroup'', ''0::/kubepods/pod-u1/c0'' @ [CHR 0x0A]),
      (''/proc/7/comm'', ''nginx'' @ [CHR 0x0A]),
      (''/proc/7/status'', ''Name: nginx'' @ [CHR 0x0A] @ ''PPid:'' @ [CHR 0x09] @ ''1'' @ [CHR 0x0A]),
      (''/proc/7/mountinfo'',
       ''24 1 0:22 / / rw master:1 - overlay none rw,lowerdir=/a:/b,upperdir=/c'' @ [CHR 0x0A]
       @ ''25 24 0:5 / /proc rw - proc proc rw'' @ [CHR 0x0A]),
      (''/proc/12/cgroup'', ''0::/kubepods/pod-u1/c1'' @ [CHR 0x0A]),
      (''/proc/1/cgroup'', ''0::/init.scope'' @ [CHR 0x0A])]
     [(''/proc'', [dir_entry ''1'', dir_entry ''7'', dir_entry ''12'', dir_entry ''sys''])]
     [(''/proc/7/ns/pid'', \<lparr>fi_ino = 41, fi_isdir = False\<rparr>),
      (''/proc/7/ns/net'', \<lparr>fi_ino = 42, fi_isdir = False\<rparr>)] [] []"


lemma demo_proc_dir: "snd (sv_dir demo_node ''/proc'') = None"
  by code_simp


lemma demo_listing: "ListPodProcesses demo_node ''u1'' =
  Inr [\<lparr>p_PID = 12, p_PPID = 0, p_Comm = ''?'', p_PidNsID = 0, p_CgroupPath = ''/kubepods/pod-u1/c1''\<rparr>,
       \<lparr>p_PID = 7, p_PPID = 1, p_Comm = ''nginx'', p_PidNsID = 41,
        p_CgroupPath = ''/kubepods/pod-u1/c0''\<rparr>]"
  by code_simp


subsection \<open>The line parser is the format\<close>

lemma sep_index_Some:
  "sep_index i fs = Some j \<longleftrightarrow>
   (\<exists>optf rest. fs = optf @ ''-'' # rest \<and> ''-'' \<notin> set optf \<and> j = i + length optf)"
proof (induction fs arbitrary: i)
  case Nil
  then show ?case by simp
next
  case (Cons f fs)
  show ?case
  proof (cases "f = ''-''")
    case True
    then show ?thesis by (auto simp: Cons_eq_append_conv)
  next
    case False
    then have "sep_index i (f # fs) = Some j \<longleftrightarrow>
      (\<exists>optf rest. fs = optf @ ''-'' # rest \<and> ''-'' \<notin> set optf \<and> j = Suc i + length optf)"
      by (simp add: Cons.IH)
    also have "\<dots> \<longleftrightarrow> (\<exists>optf rest. f # fs = optf @ ''-'' # rest \<and> ''-'' \<notin> set optf
        \<and> j = i + length optf)"
    proof
      assume "\<exists>optf rest. fs = optf @ ''-'' # rest \<and> ''-'' \<notin> set optf \<and> j = Suc i + length optf"
      then obtain optf rest where "fs = optf @ ''-'' # rest" "''-'' \<notin> set optf"
        "j = Suc i + length optf" by blast
      with False have "f # fs = (f # optf) @ ''-'' # rest \<and> ''-'' \<notin> set (f # optf)
        \<and> j = i + length (f # optf)" by simp
      then show "\<exists>optf rest. f # fs = optf @ ''-'' # rest \<and> ''-'' \<notin> set optf
        \<and> j = i + length optf" by blast
    next
      assume "\<exists>optf rest. f # fs = optf @ ''-'' # rest \<and> ''-'' \<notin> set optf \<and> j = i + length optf"
      with False show "\<exists>optf rest. fs = optf @ ''-'' # rest \<and> ''-'' \<notin> set optf
        \<and> j = Suc i + length optf" by (auto simp: Cons_eq_append_conv)
    qed
    finally show ?thesis .
  qed
qed

text \<open>The line format of the kernel: what the fields of an accepted line are.\<close>

definition mount_fields :: "mountinfo \<Rightarrow> string list \<Rightarrow> bool" where
  "mount_fields m fs \<longleftrightarrow>
     (\<exists>a b mm optf rest.
        fs = [a, b, mm, mi_Root m, mi_MountPoint m, mi_Options m] @ optf
             @ [''-'', mi_FSType m, mi_Source m, mi_SuperOpts m] @ rest
      \<and> Atoi a = (mi_MountID m, None) \<and> Atoi b = (mi_ParentID m, None) \<and> ''-'' \<notin> set optf)"

lemma parse_fields:
  assumes "Fields line = [a, b, mm, r, mp, os] @ optf @ [''-'', ft, src, so] @ rest"
    and "Atoi a = (x, None)" and "Atoi b = (y, None)" and "''-'' \<notin> set optf"
  shows "parseMountInfoLine line = Inr \<lparr>mi_MountID = x, mi_ParentID = y, mi_Root = r,
    mi_MountPoint = mp, mi_Options = os, mi_FSType = ft, mi_Source = src, mi_SuperOpts = so\<rparr>"
proof -
  have "sep_index 6 (drop 6 (Fields line)) = Some (6 + length optf)"
    using assms(1,4) by (auto simp: sep_index_Some)
  then show ?thesis
    using assms by (simp add: parseMountInfoLine_def nth_append)
qed

lemma fields_6:
  assumes "7 \<le> length fs"
  shows "fs = [fs ! 0, fs ! 1, fs ! 2, fs ! 3, fs ! 4, fs ! 5] @ drop 6 fs"
proof -
  have "fs = take 6 fs @ drop 6 fs" by simp
  moreover have "take 6 fs = [fs ! 0, fs ! 1, fs ! 2, fs ! 3, fs ! 4, fs ! 5]"
    using assms by (intro nth_equalityI) (auto simp: less_Suc_eq nth_Cons' numeral_eq_Suc)
  ultimately show ?thesis by simp
qed

text \<open>C8.
  parseMountInfoLine accepts exactly the lines of the format of /proc/pid/mountinfo: six
  fixed fields with integer IDs, optional fields up to the first lone dash, then file-system
  type, source and super options. The record it returns holds those fields.\<close>

theorem parseMountInfoLine_iff:
  "parseMountInfoLine line = Inr m \<longleftrightarrow> mount_fields m (Fields line)"
proof
  assume "mount_fields m (Fields line)"
  then obtain a b mm optf rest where
    "Fields line = [a, b, mm, mi_Root m, mi_MountPoint m, mi_Options m] @ optf
       @ [''-'', mi_FSType m, mi_Source m, mi_SuperOpts m] @ rest"
    "Atoi a = (mi_MountID m, None)" "Atoi b = (mi_ParentID m, None)" "''-'' \<notin> set optf"
    by (auto simp: mount_fields_def)
  from parse_fields [OF this] show "parseMountInfoLine line = Inr m" by simp
next
  let ?fs = "Fields line"
  assume p: "parseMountInfoLine line = Inr m"
  then have len: "7 \<le> length ?fs" by (auto simp: parseMountInfoLine_def Let_def split: if_splits)
  obtain x y j where ab: "Atoi (?fs ! 0) = (x, None)" "Atoi (?fs ! 1) = (y, None)"
    and j: "sep_index 6 (drop 6 ?fs) = Some j" "j + 4 \<le> length ?fs"
    using p by (auto simp: parseMountInfoLine_def Let_def split: if_splits prod.splits option.splits)
  from j(1) obtain optf tl where o: "drop 6 ?fs = optf @ ''-'' # tl" "''-'' \<notin> set optf"
    "j = 6 + length optf" by (auto simp: sep_index_Some)
  have "length (drop 6 ?fs) = length ?fs - 6" by simp
  then have "3 \<le> length tl" using o j(2) len by simp
  then obtain ft src so rest where tl: "tl = ft # src # so # rest"
    by (auto simp: numeral_eq_Suc Suc_le_length_iff)
  have fs: "?fs = [?fs ! 0, ?fs ! 1, ?fs ! 2, ?fs ! 3, ?fs ! 4, ?fs ! 5] @ optf
      @ [''-'', ft, src, so] @ rest"
    using fields_6 [OF len] o(1) tl by simp
  have m: "m = \<lparr>mi_MountID = x, mi_ParentID = y, mi_Root = ?fs ! 3, mi_MountPoint = ?fs ! 4,
      mi_Options = ?fs ! 5, mi_FSType = ft, mi_Source = src, mi_SuperOpts = so\<rparr>"
    using parse_fields [OF fs ab o(2)] p by simp
  have "mount_fields \<lparr>mi_MountID = x, mi_ParentID = y, mi_Root = ?fs ! 3, mi_MountPoint = ?fs ! 4,
      mi_Options = ?fs ! 5, mi_FSType = ft, mi_Source = src, mi_SuperOpts = so\<rparr> ?fs"
    unfolding mount_fields_def using fs ab o(2) by (intro exI conjI) auto
  with m show "mount_fields m ?fs" by simp
qed

subsection \<open>Reading back a mount table\<close>

text \<open>
  A line as the kernel's \<open>show_mountinfo\<close> writes it, with the device number and the
  optional fields that the record does not keep.
\<close>

definition show_mount :: "string \<Rightarrow> string list \<Rightarrow> mountinfo \<Rightarrow> string" where
  "show_mount mm optf m =
     unwords ([itoa (mi_MountID m), itoa (mi_ParentID m), mm, mi_Root m, mi_MountPoint m,
        mi_Options m] @ optf @ [''-'', mi_FSType m, mi_Source m, mi_SuperOpts m])"

definition mount_ok :: "mountinfo \<Rightarrow> bool" where
  "mount_ok m \<longleftrightarrow> int64_range (mi_MountID m) \<and> int64_range (mi_ParentID m)
     \<and> token (mi_Root m) \<and> token (mi_MountPoint m) \<and> token (mi_Options m)
     \<and> token (mi_FSType m) \<and> token (mi_Source m) \<and> token (mi_SuperOpts m)"

definition opts_ok :: "string \<Rightarrow> string list \<Rightarrow> bool" where
  "opts_ok mm optf \<longleftrightarrow> token mm \<and> list_all token optf \<and> ''-'' \<notin> set optf"

lemma token_dash [simp]: "token ''-''"
  by (simp add: token_def strip_space.simps ascii_space_def)

lemma parse_show_mount:
  assumes "mount_ok m" and "opts_ok mm optf"
  shows "parseMountInfoLine (show_mount mm optf m) = Inr m"
proof -
  have "Fields (show_mount mm optf m) =
    [itoa (mi_MountID m), itoa (mi_ParentID m), mm, mi_Root m, mi_MountPoint m, mi_Options m]
      @ optf @ [''-'', mi_FSType m, mi_Source m, mi_SuperOpts m] @ []"
    unfolding show_mount_def append_Nil2 using assms
    by (intro Fields_unwords) (auto simp: mount_ok_def opts_ok_def list_all_iff)
  from parse_fields [OF this] show ?thesis
    using assms by (simp add: Atoi_itoa mount_ok_def opts_ok_def)
qed

lemma show_mount_tight:
  assumes "mount_ok m" and "opts_ok mm optf"
  shows "tight (show_mount mm optf m)"
proof -
  let ?ws = "[itoa (mi_MountID m), itoa (mi_ParentID m), mm, mi_Root m, mi_MountPoint m,
        mi_Options m] @ optf @ [''-'', mi_FSType m, mi_Source m, mi_SuperOpts m]"
  have tok: "\<forall>w \<in> set ?ws. token w"
    using assms by (auto simp: mount_ok_def opts_ok_def list_all_iff)
  have "CHR 0x0A \<notin> set (unwords ?ws)"
  proof
    assume "CHR 0x0A \<in> set (unwords ?ws)"
    then obtain w where w: "w \<in> set ?ws" "CHR 0x0A \<in> set w"
      using unwords_chars [of "CHR 0x0A" ?ws] by blast
    then have "token w" using tok by blast
    then have "no_space w" by (simp only: token_def)
    then show False using w(2) no_space_ascii ascii_space_blank(2) by blast
  qed
  moreover have "strip_space (unwords ?ws) = None" by (rule strip_unwords) auto
  moreover have "unwords ?ws \<noteq> []" by (rule unwords_not_Nil) auto
  moreover have "strip_space_rev (rev (unwords ?ws)) = None"
    by (rule strip_rev_unwords) (use tok in auto)
  ultimately show ?thesis by (simp add: tight_def show_mount_def)
qed

type_synonym mount_row = "string \<times> string list \<times> mountinfo"

definition row_ok :: "mount_row \<Rightarrow> bool" where
  "row_ok r = (case r of (mm, optf, m) \<Rightarrow> mount_ok m \<and> opts_ok mm optf)"

definition mount_table :: "mount_row list \<Rightarrow> string" where
  "mount_table rows = unlines (map (\<lambda>(mm, optf, m). show_mount mm optf m) rows)"

lemma mount_of_show: "row_ok (mm, optf, m) \<Longrightarrow> mount_of_line (show_mount mm optf m) = Some m"
  using show_mount_tight [of m mm optf]
  by (simp add: mount_of_line_def row_ok_def parse_show_mount tight_def)

lemma mounts_of_table:
  assumes "list_all row_ok rows"
  shows "List.map_filter mount_of_line (Split CHR 0x0A (TrimSpace (mount_table rows))) =
    map (\<lambda>(mm, optf, m). m) rows"
proof (cases "rows = []")
  case True
  then show ?thesis
    by (simp add: mount_table_def TrimSpace_stable mount_of_line_def)
next
  case False
  have "Split CHR 0x0A (TrimSpace (mount_table rows)) = map (\<lambda>(mm, optf, m). show_mount mm optf m) rows"
    unfolding mount_table_def using False assms
    by (intro Split_TrimSpace_unlines) (auto simp: list_all_iff row_ok_def show_mount_tight)
  moreover have "List.map_filter mount_of_line (map (\<lambda>(mm, optf, m). show_mount mm optf m) rows) =
    map (\<lambda>(mm, optf, m). m) rows"
    using assms by (induction rows) (auto simp: mount_of_show)
  ultimately show ?thesis by simp
qed

text \<open>C9.
  Round trip of a whole mount table: when the first process of the pod has a mountinfo file
  as the kernel writes it (any optional fields, no white space inside a field),
  ListPodMounts returns exactly its mounts, in order.\<close>

theorem ListPodMounts_table:
  assumes "ListPodProcesses sv uid = Inr (p # ps)"
    and "os_ReadFile sv (proc_path (p_PID p) ''mountinfo'') = Inr (mount_table rows)"
    and "list_all row_ok rows"
  shows "ListPodMounts sv uid = Inr (map (\<lambda>(mm, optf, m). m) rows)"
  using assms mounts_of_table [OF assms(3)] by (simp add: ListPodMounts_def)

definition demo_mounts :: "mount_row list" where
  "demo_mounts =
     [(''0:22'', [''master:1''], \<lparr>mi_MountID = 24, mi_ParentID = 1, mi_Root = ''/'', mi_MountPoint = ''/'',
        mi_Options = ''rw'', mi_FSType = ''overlay'', mi_Source = ''none'',
        mi_SuperOpts = ''rw,lowerdir=/a:/b,upperdir=/c''\<rparr>),
      (''0:5'', [], \<lparr>mi_MountID = 25, mi_ParentID = 24, mi_Root = ''/'', mi_MountPoint = ''/proc'',
        mi_Options = ''rw'', mi_FSType = ''proc'', mi_Source = ''proc'', mi_SuperOpts = ''rw''\<rparr>)]"

lemma demo_mountinfo: "os_ReadFile demo_node ''/proc/7/mountinfo'' = Inr (mount_table demo_mounts)"
  by code_simp

text \<open>A white-space character that the kernel does not escape splits the mount point.\<close>

lemma mount_point_split:
  "map_option mi_MountPoint (mount_of_line (''24 1 0:22 / /a'' @ [CHR 0xE3, CHR 0x80, CHR 0x80]
     @ ''b rw - ext4 /dev/sda rw'')) = Some ''/a''"
  by code_simp

subsection \<open>Overlay layers\<close>

lemma lowerdir_first:
  assumes "\<forall>opt \<in> set pre. \<not> HasPrefix opt ''lowerdir=''"
  shows "lowerdir_layers (pre @ (''lowerdir='' @ v) # post) = Some (Count v CHR '':'' + 1)"
  using assms
proof (induction pre)
  case Nil
  have "TrimPrefix (''lowerdir='' @ v) ''lowerdir='' = v" by (rule TrimPrefix_append)
  moreover have "HasPrefix (''lowerdir='' @ v) ''lowerdir=''" by (rule prefixI) (rule refl)
  ultimately show ?case by (simp only: append_Nil lowerdir_layers.simps if_True)
next
  case (Cons a pre)
  then have "\<not> HasPrefix a ''lowerdir=''" "\<forall>opt \<in> set pre. \<not> HasPrefix opt ''lowerdir=''" by auto
  with Cons.IH show ?case by (simp only: append_Cons lowerdir_layers.simps if_False)
qed

lemma lowerdir_None: "lowerdir_layers opts = None \<longleftrightarrow> filter (\<lambda>opt. HasPrefix opt ''lowerdir='') opts = []"
  by (induction opts) auto

lemma Split_join_with:
  "\<forall>w \<in> set ws. c \<notin> set w \<Longrightarrow> ws \<noteq> [] \<Longrightarrow> Split c (join_with [c] ws) = ws"
proof (induction ws)
  case (Cons w ws)
  then show ?case by (cases ws) (auto simp: Split_append Split_no_sep)
qed simp

lemma Count_join_with:
  "\<forall>w \<in> set ws. c \<notin> set w \<Longrightarrow> ws \<noteq> [] \<Longrightarrow> Count (join_with [c] ws) c + 1 = length ws"
  using length_Split [of c "join_with [c] ws"] by (simp add: Split_join_with)

lemma root_overlay_find:
  "count_layers ms = 0 \<longleftrightarrow> filter root_overlay ms = []"
proof (cases "List.find root_overlay ms")
  case None
  then have "filter root_overlay ms = []" by (simp add: find_None_set filter_empty_conv)
  with None show ?thesis by (simp add: count_layers_def)
next
  case (Some m)
  have "lowerdir_layers os = Some n \<Longrightarrow> n \<noteq> 0" for os n
    by (induction os) (auto split: if_splits)
  with Some show ?thesis using find_Some_set [OF Some]
    by (auto simp: count_layers_def filter_empty_conv split: option.splits)
qed

text \<open>
  The super options of an overlay mount with the lower directories \<open>dirs\<close>: options before,
  the \<open>lowerdir=\<close> option, options after.
\<close>

definition overlay_opts :: "string list \<Rightarrow> string list \<Rightarrow> string list \<Rightarrow> string list" where
  "overlay_opts pre dirs post = pre @ (''lowerdir='' @ join_with '':'' dirs) # post"

lemma count_layers_overlay:
  assumes "filter root_overlay ms = m # rest"
    and "mi_SuperOpts m = join_with '','' (overlay_opts pre dirs post)"
    and "\<forall>opt \<in> set (overlay_opts pre dirs post). CHR '','' \<notin> set opt"
    and "\<forall>opt \<in> set pre. \<not> HasPrefix opt ''lowerdir=''"
    and "dirs \<noteq> []" and "\<forall>d \<in> set dirs. CHR '':'' \<notin> set d"
  shows "count_layers ms = length dirs"
proof -
  have "List.find root_overlay ms = Some m"
    using assms(1) by (induction ms) (auto split: if_splits)
  moreover have "Split CHR '','' (mi_SuperOpts m) = overlay_opts pre dirs post"
    unfolding assms(2) by (rule Split_join_with [OF assms(3)]) (simp add: overlay_opts_def)
  moreover have "lowerdir_layers (overlay_opts pre dirs post) = Some (length dirs)"
    unfolding overlay_opts_def lowerdir_first [OF assms(4)] Count_join_with [OF assms(6,5)] ..
  ultimately show ?thesis by (simp add: count_layers_def)
qed

text \<open>C33.
  CountOverlayLayers counts the lower directories of the pod's root overlay: for a mount table
  whose first overlay on "/" has the super options pre, lowerdir=d1:...:dn, post, it returns n.\<close>

theorem CountOverlayLayers_lowerdirs:
  assumes "ListPodMounts sv uid = Inr ms"
    and "filter root_overlay ms = m # rest"
    and "mi_SuperOpts m = join_with '','' (overlay_opts pre dirs post)"
    and "\<forall>opt \<in> set (overlay_opts pre dirs post). CHR '','' \<notin> set opt"
    and "\<forall>opt \<in> set pre. \<not> HasPrefix opt ''lowerdir=''"
    and "dirs \<noteq> []" and "\<forall>d \<in> set dirs. CHR '':'' \<notin> set d"
  shows "CountOverlayLayers sv uid = Inr (length dirs)"
  using assms(1) count_layers_overlay [OF assms(2-7)] by (simp add: CountOverlayLayers_def)

lemma demo_list_mounts:
  "ListPodMounts (demo_node\<lparr>sv_dir := table_dir [(''/proc'', [dir_entry ''7''])]\<rparr>) ''u1'' =
   Inr (map (\<lambda>(mm, optf, m). m) demo_mounts)"
  by code_simp

theorem CountOverlayLayers_witness:
  "CountOverlayLayers (demo_node\<lparr>sv_dir := table_dir [(''/proc'', [dir_entry ''7''])]\<rparr>) ''u1'' = Inr 2"
proof -
  have "CountOverlayLayers (demo_node\<lparr>sv_dir := table_dir [(''/proc'', [dir_entry ''7''])]\<rparr>) ''u1'' =
    Inr (length [''/a'', ''/b''])"
    by (rule CountOverlayLayers_lowerdirs [OF demo_list_mounts, of _ "[]" "[''rw'']" _
        "[''upperdir=/c'']"]) code_simp+
  then show ?thesis by simp
qed

text \<open>CountOverlayLayers returns 0 exactly when the mount table could be read and has no overlay
  mount on "/"; an overlay without a lowerdir option does not count as none.\<close>

theorem CountOverlayLayers_zero:
  "CountOverlayLayers sv uid = Inr 0 \<longleftrightarrow>
   (\<exists>ms. ListPodMounts sv uid = Inr ms \<and> filter root_overlay ms = [])"
  by (auto simp: CountOverlayLayers_def root_overlay_find split: sum.splits)

subsection \<open>Namespaces of a pod\<close>

lemma ns_map: "fold (\<lambda>t ns. ns(t \<mapsto> f t)) ts m = (\<lambda>t. if t \<in> set ts then Some (f t) else m t)"
  by (induction ts arbitrary: m) auto

lemma ListPodNamespaces_map:
  "ListPodProcesses sv uid = Inr ps \<Longrightarrow>
   ListPodNamespaces sv uid = Inr (map (\<lambda>p. \<lparr>ni_PID = p_PID p, ni_Comm = p_Comm p,
     ni_NS = (\<lambda>t. if t \<in> set podNsTypes then Some (readNsInode sv (p_PID p) t) else None)\<rparr>) ps)"
  by (simp add: ListPodNamespaces_def process_ns_def ns_map)



theorem ListPodMounts_witness:
  "ListPodMounts (demo_node\<lparr>sv_dir := table_dir [(''/proc'', [dir_entry ''7''])]\<rparr>) ''u1'' =
   Inr (map (\<lambda>(mm, optf, m). m) demo_mounts)"
proof -
  let ?sv = "demo_node\<lparr>sv_dir := table_dir [(''/proc'', [dir_entry ''7''])]\<rparr>"
  have l: "ListPodProcesses ?sv ''u1'' = Inr [\<lparr>p_PID = 7, p_PPID = 1, p_Comm = ''nginx'',
      p_PidNsID = 41, p_CgroupPath = ''/kubepods/pod-u1/c0''\<rparr>]" by code_simp
  have r: "os_ReadFile ?sv ''/proc/7/mountinfo'' = Inr (mount_table demo_mounts)" by code_simp
  have p: "proc_path 7 ''mountinfo'' = ''/proc/7/mountinfo''" by code_simp
  have ok: "list_all row_ok demo_mounts" by code_simp
  show ?thesis by (rule ListPodMounts_table [OF l _ ok]) (simp only: process.simps p r)
qed

end
