(* ===== verification/Formats.thy ===== *)
theory Formats
  imports Loops Go_Float
begin

text \<open>
  The kernel's file formats that several tools parse, each with the line parser the tools
  share and a renderer that says what the kernel writes: the key-value files of cgroup v2
  (\<open>cpu.stat\<close>, \<open>memory.events\<close>), the pressure files (PSI), and \<open>key: value\<close> files. The
  locale \<open>psi_source\<close> is the contract that every PSI reader of the repository meets.
\<close>

subsection \<open>Lines of two fields\<close>

text \<open>\<open>parts := strings.Fields(line); if len(parts) != 2 { continue }\<close>\<close>

definition two_fields :: "string \<Rightarrow> (string \<times> string) option" where
  "two_fields line = (case Fields line of [k, v] \<Rightarrow> Some (k, v) | _ \<Rightarrow> None)"

definition kv_show :: "string \<times> uint64 \<Rightarrow> string" where
  "kv_show kv = unwords [fst kv, utoa (unat (snd kv))]"

definition kv_file :: "(string \<times> uint64) list \<Rightarrow> string" where
  "kv_file kvs = unlines (map kv_show kvs)"

text \<open>A counter file: token keys, each once, lines below the scanner's limit.\<close>

definition kv_ok :: "(string \<times> uint64) list \<Rightarrow> bool" where
  "kv_ok kvs \<longleftrightarrow> list_all (\<lambda>(k, v). token k \<and> length k < 65000) kvs \<and> distinct (map fst kvs)"

lemma two_fields_iff: "two_fields line = Some (k, v) \<longleftrightarrow> Fields line = [k, v]"
  by (auto simp: two_fields_def split: list.splits)

lemma two_fields_tokens: "two_fields line = Some (k, v) \<Longrightarrow> token k \<and> token v"
  using Fields_tokens [of _ line] by (simp add: two_fields_iff)

lemma two_fields_show: "token k \<Longrightarrow> two_fields (kv_show (k, v)) = Some (k, utoa (unat v))"
  by (simp add: two_fields_iff kv_show_def Fields_unwords del: unwords.simps)

lemma token_no_ascii: "token w \<Longrightarrow> ascii_space c \<Longrightarrow> c \<notin> set w"
  by (simp add: token_def no_space_ascii)

lemma line_ok_unwords:
  assumes "\<forall>w \<in> set ws. token w" and "length (unwords ws) < 65536"
  shows "line_ok (unwords ws)"
proof -
  have no: "c \<notin> set (unwords ws)" if "ascii_space c" "c \<noteq> CHR '' ''" for c
    using unwords_chars [of c ws] that assms(1) token_no_ascii by blast
  have "ascii_space CHR 0x0D" by (simp add: ascii_space_def)
  from no [OF this] no [OF ascii_space_blank(2)] assms(2) show ?thesis
    by (simp add: line_ok_def)
qed

lemma length_utoa_word: "length (utoa (unat (w :: uint64))) \<le> 20"
proof -
  have "unat w < 2 ^ LENGTH(64)" by (rule unsigned_less)
  then have "unat w < 10 ^ 20" by simp
  then show ?thesis by (intro length_utoa) auto
qed

lemma kv_line_ok: "token k \<Longrightarrow> length k < 65000 \<Longrightarrow> line_ok (kv_show (k, v))"
  unfolding kv_show_def fst_conv snd_conv
  by (rule line_ok_unwords) (use length_utoa_word [of v] in auto)

lemma kv_file_lines: "kv_ok kvs \<Longrightarrow> scan_file (kv_file kvs, e) = (map kv_show kvs, e)"
  unfolding kv_file_def by (rule scan_unlines) (auto simp: kv_ok_def list_all_iff kv_line_ok)

text \<open>What a scan with a value conversion finds on such a file: the entry of the table.\<close>

lemma last_entry_kv:
  assumes "kv_ok kvs" and conv: "\<And>k v. token k \<Longrightarrow> parse (kv_show (k, v)) = Some (k, f v)"
  shows "last_entry parse k (map kv_show kvs) = map_option f (map_of kvs k)"
  using assms(1)
proof (induction kvs)
  case Nil
  then show ?case by simp
next
  case (Cons kv kvs)
  obtain a v where kv: "kv = (a, v)" by (cases kv)
  from Cons.prems have ok: "kv_ok kvs" "token a" "a \<notin> fst ` set kvs"
    by (auto simp: kv_ok_def kv)
  then have "map_of kvs a = None" by (simp add: map_of_eq_None_iff)
  with Cons.IH [OF ok(1)] conv [OF ok(2)] show ?case
    by (auto simp: kv split: option.splits)
qed

text \<open>
  The same line with \<open>v, _ := strconv.ParseUint(parts[1], 10, 64)\<close>: a number that does not
  parse counts as the value \<open>ParseUint\<close> returns with its error.
\<close>

definition count_line :: "string \<Rightarrow> (string \<times> uint64) option" where
  "count_line line =
     (case two_fields line of None \<Rightarrow> None | Some (k, s) \<Rightarrow> Some (k, ParseUint_val s 10))"

lemma count_line_show: "token k \<Longrightarrow> count_line (kv_show (k, v)) = Some (k, v)"
  by (simp add: count_line_def two_fields_show)

definition get0 :: "(string \<times> uint64) list \<Rightarrow> string \<Rightarrow> uint64" where
  "get0 kvs k = (case map_of kvs k of None \<Rightarrow> 0 | Some v \<Rightarrow> v)"

lemma last_entry_counts:
  "kv_ok kvs \<Longrightarrow> last_entry count_line k (map kv_show kvs) = map_of kvs k"
  using last_entry_kv [of kvs count_line "\<lambda>v. v" k] count_line_show by (simp add: option.map_ident)

subsection \<open>Lines of a key, a colon and a value\<close>

text \<open>
  \<open>parts := strings.SplitN(line, ":", 2)\<close>, with key and value trimmed: the files
  \<open>/proc/<pid>/status\<close> and \<open>/proc/<pid>/fdinfo/<fd>\<close>.
\<close>

definition colon_line :: "string \<Rightarrow> (string \<times> string) option" where
  "colon_line line =
     (case SplitN2 CHR '':'' line of [k, v] \<Rightarrow> Some (TrimSpace k, TrimSpace v) | _ \<Rightarrow> None)"

definition colon_show :: "string \<times> string \<Rightarrow> string" where
  "colon_show kv = fst kv @ CHR '':'' # CHR 0x09 # snd kv"

definition trimmed :: "string \<Rightarrow> bool" where
  "trimmed v \<longleftrightarrow> strip_space v = None \<and> strip_space_rev (rev v) = None"

definition colon_ok :: "(string \<times> string) list \<Rightarrow> bool" where
  "colon_ok kvs \<longleftrightarrow> distinct (map fst kvs) \<and>
     list_all (\<lambda>(k, v). token k \<and> CHR '':'' \<notin> set k \<and> trimmed v
       \<and> CHR 0x0A \<notin> set v \<and> CHR 0x0D \<notin> set v \<and> length k + length v < 65000) kvs"

definition colon_file :: "(string \<times> string) list \<Rightarrow> string" where
  "colon_file kvs = unlines (map colon_show kvs)"

lemma trimmed_token: "token t \<Longrightarrow> trimmed t"
  by (simp add: trimmed_def token_def no_space_strip strip_space_rev_None)

lemma TrimSpace_trimmed: "trimmed v \<Longrightarrow> TrimSpace v = v"
  by (simp add: trimmed_def TrimSpace_stable)

lemma colon_line_show:
  assumes "token k" and "CHR '':'' \<notin> set k" and "trimmed v"
  shows "colon_line (colon_show (k, v)) = Some (k, v)"
  using assms by (simp add: colon_line_def colon_show_def TrimSpace_space_Cons TrimSpace_trimmed
      trimmed_token)

lemma colon_show_ok:
  assumes "token k" and "CHR 0x0A \<notin> set v" and "CHR 0x0D \<notin> set v" and "length k + length v < 65000"
  shows "line_ok (colon_show (k, v))"
proof -
  have "ascii_space CHR 0x0D" by (simp add: ascii_space_def)
  then have "CHR 0x0A \<notin> set k" "CHR 0x0D \<notin> set k"
    using assms(1) token_no_ascii ascii_space_blank(2) by blast+
  with assms show ?thesis by (simp add: line_ok_def colon_show_def)
qed

lemma colon_file_lines: "colon_ok kvs \<Longrightarrow> scan_file (colon_file kvs, e) = (map colon_show kvs, e)"
  unfolding colon_file_def by (rule scan_unlines) (auto simp: colon_ok_def list_all_iff colon_show_ok)

lemma last_entry_colon:
  "colon_ok kvs \<Longrightarrow> last_entry colon_line k (map colon_show kvs) = map_of kvs k"
proof (induction kvs)
  case (Cons kv kvs)
  obtain a v where kv: "kv = (a, v)" by (cases kv)
  from Cons.prems have ok: "colon_ok kvs" "colon_line (colon_show (a, v)) = Some (a, v)"
    "a \<notin> fst ` set kvs" by (auto simp: colon_ok_def kv colon_line_show)
  then have "map_of kvs a = None" by (simp add: map_of_eq_None_iff)
  with Cons.IH [OF ok(1)] ok(2) show ?case by (auto simp: kv split: option.splits)
qed simp

subsection \<open>Columns\<close>

text \<open>Words set in columns: before each a run of at least one blank.\<close>

definition padded :: "(nat \<times> string) list \<Rightarrow> string" where
  "padded pws = concat (map (\<lambda>(p, w). replicate (Suc p) CHR '' '' @ w) pws)"

lemma Fields_blanks: "Fields (replicate n CHR '' '' @ s) = Fields s"
  by (induction n) (simp_all add: Fields_space_Cons)

lemma TrimSpace_blanks: "TrimSpace (replicate n CHR '' '' @ s) = TrimSpace s"
  by (induction n) (simp_all add: TrimSpace_space_Cons)

lemma padded_Cons: "padded ((p, w) # pws) = replicate (Suc p) CHR '' '' @ w @ padded pws"
  by (simp add: padded_def)

lemma padded_blank: "pws \<noteq> [] \<Longrightarrow> \<exists>u. padded pws = CHR '' '' # u"
  by (cases pws) (auto simp: padded_def split: prod.splits)

lemma Fields_word_padded: "token w \<Longrightarrow> Fields (w @ padded pws) = w # Fields (padded pws)"
proof (cases "pws = []")
  case True
  then show "token w \<Longrightarrow> Fields (w @ padded pws) = w # Fields (padded pws)"
    by (simp add: padded_def Fields_token)
next
  case False
  then obtain u where "padded pws = CHR '' '' # u" using padded_blank by blast
  then show "token w \<Longrightarrow> Fields (w @ padded pws) = w # Fields (padded pws)"
    by (simp add: Fields_token_Cons Fields_space_Cons)
qed

lemma Fields_padded: "\<forall>pw \<in> set pws. token (snd pw) \<Longrightarrow> Fields (padded pws) = map snd pws"
proof (induction pws)
  case (Cons pw pws)
  obtain p w where "pw = (p, w)" by (cases pw)
  with Cons show ?case
    by (simp add: padded_Cons Fields_blanks Fields_word_padded del: replicate_Suc)
qed (simp add: padded_def)

lemma strip_rev_padded:
  "\<forall>pw \<in> set pws. token (snd pw) \<Longrightarrow> strip_space_rev (rev s) = None \<Longrightarrow> s \<noteq> [] \<Longrightarrow>
   strip_space_rev (rev (s @ padded pws)) = None"
proof (induction pws arbitrary: s)
  case (Cons pw pws)
  obtain p w where pw: "pw = (p, w)" by (cases pw)
  with Cons.prems have w: "token w" by simp
  then have "strip_space_rev (rev w) = None" "w \<noteq> []" by (auto simp: token_def strip_space_rev_None)
  then have "strip_space_rev (rev (s @ replicate (Suc p) CHR '' '' @ w)) = None"
    by (simp add: replicate_app_Cons_same strip_space_rev_before_space)
  moreover have "s @ replicate (Suc p) CHR '' '' @ w \<noteq> []" by simp
  ultimately have "strip_space_rev (rev ((s @ replicate (Suc p) CHR '' '' @ w) @ padded pws)) = None"
    using Cons.prems by (intro Cons.IH) auto
  then show ?case by (simp add: pw padded_Cons)
qed (simp add: padded_def)

lemma strip_padded: "token w \<Longrightarrow> strip_space (w @ padded pws) = None"
proof (cases "pws = []")
  case True
  then show "token w \<Longrightarrow> strip_space (w @ padded pws) = None"
    by (simp add: padded_def token_def no_space_strip)
next
  case False
  then obtain u where "padded pws = CHR '' '' # u" using padded_blank by blast
  then show "token w \<Longrightarrow> strip_space (w @ padded pws) = None"
    by (simp add: token_def no_space_strip strip_space_before_space)
qed

lemma Fields_TrimSpace_padded:
  assumes "\<forall>pw \<in> set pws. token (snd pw)"
  shows "Fields (TrimSpace (padded pws)) = map snd pws"
proof (cases pws)
  case Nil
  then show ?thesis by (simp add: padded_def TrimSpace_stable)
next
  case (Cons pw qs)
  obtain p w where pw: "pw = (p, w)" by (cases pw)
  with Cons assms have w: "token w" and qs: "\<forall>pw \<in> set qs. token (snd pw)" by auto
  have "strip_space_rev (rev (w @ padded qs)) = None"
    using w qs by (intro strip_rev_padded) (auto simp: token_def strip_space_rev_None)
  then have "TrimSpace (w @ padded qs) = w @ padded qs"
    using w by (intro TrimSpace_stable strip_padded)
  then have "TrimSpace (padded pws) = w @ padded qs"
    unfolding Cons pw padded_Cons TrimSpace_blanks .
  then show ?thesis using w qs by (simp add: Fields_word_padded Fields_padded Cons pw)
qed

subsection \<open>Pressure files\<close>

text \<open>\<open>kv := strings.SplitN(f, "=", 2); if len(kv) != 2 { continue }\<close>\<close>

definition eq_field :: "string \<Rightarrow> (string \<times> string) option" where
  "eq_field f = (case SplitN2 CHR ''='' f of [k, v] \<Rightarrow> Some (k, v) | _ \<Rightarrow> None)"

lemma eq_field_append: "CHR ''='' \<notin> set k \<Longrightarrow> eq_field (k @ CHR ''='' # v) = Some (k, v)"
  by (simp add: eq_field_def)

text \<open>A pressure line: the averages in hundredths of a percent, the total in microseconds.\<close>

record psi_row =
  avg10_c :: nat
  avg60_c :: nat
  avg300_c :: nat
  total_us :: uint64

definition psi_ok :: "psi_row \<Rightarrow> bool" where
  "psi_ok r \<longleftrightarrow> avg10_c r \<le> 10000 \<and> avg60_c r \<le> 10000 \<and> avg300_c r \<le> 10000"

definition psi_fields :: "psi_row \<Rightarrow> string list" where
  "psi_fields r =
     [''avg10='' @ fixed_digits 2 (avg10_c r), ''avg60='' @ fixed_digits 2 (avg60_c r),
      ''avg300='' @ fixed_digits 2 (avg300_c r), ''total='' @ utoa (unat (total_us r))]"

definition psi_line :: "string \<Rightarrow> psi_row \<Rightarrow> string" where
  "psi_line kind r = unwords (kind # psi_fields r)"

definition psi_file :: "psi_row \<Rightarrow> psi_row option \<Rightarrow> string" where
  "psi_file s f = unlines (psi_line ''some'' s # (case f of None \<Rightarrow> [] | Some r \<Rightarrow> [psi_line ''full'' r]))"

text \<open>The value a reader stores for a number of hundredths.\<close>

definition cent_val :: "nat \<Rightarrow> f64" where
  "cent_val n = FFin False (rnd (of_nat n / 10 ^ 2))"

lemma plain_fixed: "c \<in> set (fixed_digits p n) \<Longrightarrow> plain c"
  using utoa_chars [of n] utoa_chars [of "n div 10 ^ p"] pad_zeros_digits [of p "n mod 10 ^ p"]
  by (auto simp: fixed_digits_def intro: dec_digit_plain split: if_splits)
    (simp add: plain_def ascii_space_def)

lemma token_plain: "s \<noteq> [] \<Longrightarrow> \<forall>c \<in> set s. plain c \<Longrightarrow> token s"
  by (simp add: token_def plain_no_space)

lemma plain_append: "\<forall>c \<in> set k. plain c \<Longrightarrow> \<forall>c \<in> set v. plain c \<Longrightarrow> \<forall>c \<in> set (k @ v). plain c"
  by auto

lemma plain_keys:
  "\<forall>c \<in> set ''avg10=''. plain c" "\<forall>c \<in> set ''avg60=''. plain c"
  "\<forall>c \<in> set ''avg300=''. plain c" "\<forall>c \<in> set ''total=''. plain c"
  "\<forall>c \<in> set ''some''. plain c" "\<forall>c \<in> set ''full''. plain c"
  by (simp_all add: plain_def ascii_space_def)

lemma token_key_val: "k \<noteq> [] \<Longrightarrow> \<forall>c \<in> set k. plain c \<Longrightarrow> \<forall>c \<in> set v. plain c \<Longrightarrow> token (k @ v)"
  by (auto intro!: token_plain)

lemma plain_digits: "\<forall>c \<in> set (fixed_digits 2 n). plain c" "\<forall>c \<in> set (utoa n). plain c"
  using plain_fixed plain_utoa by blast+

lemma psi_fields_tokens: "w \<in> set (psi_fields r) \<Longrightarrow> token w"
proof -
  have t: "token (''avg10='' @ fixed_digits 2 n)" "token (''avg60='' @ fixed_digits 2 n)"
    "token (''avg300='' @ fixed_digits 2 n)" "token (''total='' @ utoa n)" for n
    by (rule token_key_val, simp, (rule plain_keys plain_digits)+)+
  assume "w \<in> set (psi_fields r)"
  then show "token w"
    unfolding psi_fields_def list.set insert_iff empty_iff by (elim disjE FalseE) (simp_all only: t)
qed

lemma token_kinds [simp]: "token ''some''" "token ''full''"
  using plain_keys(5,6) by (auto intro: token_plain)

lemma Fields_psi_line: "token kind \<Longrightarrow> Fields (psi_line kind r) = kind # psi_fields r"
  unfolding psi_line_def by (rule Fields_unwords) (auto dest: psi_fields_tokens)

lemma length_fixed: "n \<le> 10000 \<Longrightarrow> length (fixed_digits 2 n) \<le> 6"
proof -
  assume "n \<le> 10000"
  then have "length (utoa (n div 100)) \<le> 3" by (intro length_utoa) auto
  moreover have "length (pad_zeros 2 (utoa (n mod 100))) = 2" by (intro pad_zeros_length) auto
  ultimately show ?thesis by (simp add: fixed_digits_def)
qed

lemma psi_line_ok: "psi_ok r \<Longrightarrow> token kind \<Longrightarrow> length kind < 1000 \<Longrightarrow> line_ok (psi_line kind r)"
  unfolding psi_line_def
proof (rule line_ok_unwords)
  assume "psi_ok r" "length kind < 1000"
  then show "length (unwords (kind # psi_fields r)) < 65536"
    using length_utoa_word [of "total_us r"] length_fixed [of "avg10_c r"]
      length_fixed [of "avg60_c r"] length_fixed [of "avg300_c r"]
    by (simp add: psi_fields_def psi_ok_def)
qed (auto dest: psi_fields_tokens)

lemma psi_file_lines:
  assumes "psi_ok s" and "\<forall>r. f = Some r \<longrightarrow> psi_ok r"
  shows "scan_file (psi_file s f, e) =
    (psi_line ''some'' s # (case f of None \<Rightarrow> [] | Some r \<Rightarrow> [psi_line ''full'' r]), e)"
  unfolding psi_file_def
  by (rule scan_unlines) (use assms in \<open>auto simp: psi_line_ok split: option.splits\<close>)

lemma eq_fields_psi:
  "map eq_field (psi_fields r) =
   [Some (''avg10'', fixed_digits 2 (avg10_c r)), Some (''avg60'', fixed_digits 2 (avg60_c r)),
    Some (''avg300'', fixed_digits 2 (avg300_c r)), Some (''total'', utoa (unat (total_us r)))]"
  using eq_field_append [of "''avg10''"] eq_field_append [of "''avg60''"]
    eq_field_append [of "''avg300''"] eq_field_append [of "''total''"]
  by (simp add: psi_fields_def)

lemma ParseFloat_cent: "n \<le> 10000 \<Longrightarrow> ParseFloat (fixed_digits 2 n) = (cent_val n, None)"
  by (simp add: ParseFloat_fixed cent_val_def)

lemma fmt_cent: "n \<le> 10000 \<Longrightarrow> fmt_f 2 (cent_val n) = fixed_digits 2 n"
  using fmt_ParseFloat_fixed [of n] by (simp add: ParseFloat_cent)

text \<open>
  The contract of a PSI reader, on the contents of the file (with the read error, if any):
  on a file as the kernel writes it, it delivers the ten-second averages of the two lines,
  and zero for a line that is not there.
\<close>

locale psi_source =
  fixes read10 :: "string \<times> go_err option \<Rightarrow> f64 \<times> f64"
  assumes read10_file: "psi_ok s \<Longrightarrow> (\<And>r. f = Some r \<Longrightarrow> psi_ok r) \<Longrightarrow>
    read10 (psi_file s f, e) =
      (cent_val (avg10_c s), case f of None \<Rightarrow> f64_zero | Some r \<Rightarrow> cent_val (avg10_c r))"
begin

text \<open>What a tool prints with \<open>%.2f\<close> is what the kernel wrote.\<close>

lemma print_some:
  assumes "psi_ok s" and "\<And>r. f = Some r \<Longrightarrow> psi_ok r"
  shows "fmt_f 2 (fst (read10 (psi_file s f, e))) = fixed_digits 2 (avg10_c s)"
  using assms by (simp add: read10_file fmt_cent psi_ok_def)

lemma print_full:
  assumes "psi_ok s" and "psi_ok r"
  shows "fmt_f 2 (snd (read10 (psi_file s (Some r), e))) = fixed_digits 2 (avg10_c r)"
  using read10_file [of s "Some r" e] assms by (simp add: fmt_cent psi_ok_def)

end

end
