(* ===== verification/Cgroup.thy ===== *)
theory Cgroup
  imports Formats
begin

text \<open>
  Package \<open>internal/cgroup\<close> of kube-inspect: the cgroup v2 directory of a pod, its resource
  counters and its pressure files. The directory is found by \<open>filepath.WalkDir\<close>; the
  callback stops at the first directory whose name contains the pod UID, and swallows read
  errors, so the error result of \<open>WalkDir\<close> itself is always nil.
\<close>

subsection \<open>Reading one file\<close>

definition readUint64 :: "sysview \<Rightarrow> string \<Rightarrow> uint64 \<times> go_err option" where
  "readUint64 sv path =
     (case os_ReadFile sv path of
        Inl e \<Rightarrow> (0, Some e)
      | Inr data \<Rightarrow> ParseUint (TrimSpace data) 10)"

definition readString :: "sysview \<Rightarrow> string \<Rightarrow> string" where
  "readString sv path =
     (case os_ReadFile sv path of Inl e \<Rightarrow> [] | Inr data \<Rightarrow> TrimSpace data)"

text \<open>A line of \<open>readKV\<close>: two fields, the second a number in range.\<close>

definition kv_line :: "string \<Rightarrow> (string \<times> uint64) option" where
  "kv_line line =
     (case two_fields line of
        None \<Rightarrow> None
      | Some (k, s) \<Rightarrow> (case ParseUint s 10 of (v, None) \<Rightarrow> Some (k, v) | (_, Some _) \<Rightarrow> None))"

definition kv_set :: "string \<Rightarrow> uint64 \<Rightarrow> (string \<rightharpoonup> uint64) \<Rightarrow> (string \<rightharpoonup> uint64)" where
  "kv_set k v m = m(k \<mapsto> v)"

text \<open>\<open>None\<close> is the nil map.\<close>

definition readKV :: "sysview \<Rightarrow> string \<Rightarrow> (string \<rightharpoonup> uint64) option" where
  "readKV sv path =
     (case sv_open sv path of
        Inl e \<Rightarrow> None
      | Inr f \<Rightarrow> Some (scan_fold kv_line kv_set Map.empty (scan_lines f)))"

text \<open>\<open>m[key]\<close> of a Go map: 0 when absent, and when the map is nil.\<close>

definition map_get :: "(string \<rightharpoonup> uint64) option \<Rightarrow> string \<Rightarrow> uint64" where
  "map_get m k = (case m of None \<Rightarrow> 0 | Some m \<Rightarrow> (case m k of None \<Rightarrow> 0 | Some v \<Rightarrow> v))"

subsection \<open>The pod's directory\<close>

definition kubepods_root :: string where
  "kubepods_root = ''/sys/fs/cgroup/kubepods''"

text \<open>The calls of the callback with a nil error; an unreadable root gives none.\<close>

definition kubepods_visits :: "sysview \<Rightarrow> (string \<times> string \<times> bool) list" where
  "kubepods_visits sv =
     (case sv_tree sv kubepods_root of None \<Rightarrow> [] | Some t \<Rightarrow> walk_visits kubepods_root t)"

definition pod_dir :: "string \<Rightarrow> string \<times> string \<times> bool \<Rightarrow> bool" where
  "pod_dir podUID v = (case v of (path, name, isdir) \<Rightarrow> isdir \<and> Contains name podUID)"

definition cgroup_findPodCgroup :: "sysview \<Rightarrow> string \<Rightarrow> go_err + string" where
  "cgroup_findPodCgroup sv podUID =
     (let found = (case List.find (pod_dir podUID) (kubepods_visits sv) of
                     None \<Rightarrow> [] | Some (path, _) \<Rightarrow> path) in
      if found = []
      then Inl (Errorf ''pod cgroup for %s not found under %s'' [podUID, kubepods_root] None)
      else Inr found)"

subsection \<open>Resource counters\<close>

record podstats =
  ps_CgroupPath :: string
  ps_MemoryCurrent :: uint64
  ps_MemoryMax :: string
  ps_MemoryHigh :: string
  ps_MemoryStat :: "(string \<rightharpoonup> uint64) option"
  ps_MemoryEvents :: "(string \<rightharpoonup> uint64) option"
  ps_CPUStat :: "(string \<rightharpoonup> uint64) option"
  ps_CPUMax :: string
  ps_CPUWeight :: uint64
  ps_PidsCurrent :: uint64
  ps_PidsMax :: string

definition ReadPodStats :: "sysview \<Rightarrow> string \<Rightarrow> go_err + podstats" where
  "ReadPodStats sv podUID =
     (case cgroup_findPodCgroup sv podUID of
        Inl e \<Rightarrow> Inl e
      | Inr cgPath \<Rightarrow>
          (let file = (\<lambda>n. path_Join [cgPath, n]) in
           Inr \<lparr>ps_CgroupPath = cgPath,
                ps_MemoryCurrent = fst (readUint64 sv (file ''memory.current'')),
                ps_MemoryMax = readString sv (file ''memory.max''),
                ps_MemoryHigh = readString sv (file ''memory.high''),
                ps_MemoryStat = readKV sv (file ''memory.stat''),
                ps_MemoryEvents = readKV sv (file ''memory.events''),
                ps_CPUStat = readKV sv (file ''cpu.stat''),
                ps_CPUMax = readString sv (file ''cpu.max''),
                ps_CPUWeight = fst (readUint64 sv (file ''cpu.weight'')),
                ps_PidsCurrent = fst (readUint64 sv (file ''pids.current'')),
                ps_PidsMax = readString sv (file ''pids.max'')\<rparr>))"

subsection \<open>Pressure\<close>

record psiline =
  pl_Avg10 :: f64
  pl_Avg60 :: f64
  pl_Avg300 :: f64
  pl_Total :: uint64

definition psi_zero :: psiline where
  "psi_zero = \<lparr>pl_Avg10 = f64_zero, pl_Avg60 = f64_zero, pl_Avg300 = f64_zero, pl_Total = 0\<rparr>"

definition psi_set :: "string \<Rightarrow> string \<Rightarrow> psiline \<Rightarrow> psiline" where
  "psi_set k v p =
     (if k = ''avg10'' then p\<lparr>pl_Avg10 := ParseFloat_val v\<rparr>
      else if k = ''avg60'' then p\<lparr>pl_Avg60 := ParseFloat_val v\<rparr>
      else if k = ''avg300'' then p\<lparr>pl_Avg300 := ParseFloat_val v\<rparr>
      else if k = ''total'' then p\<lparr>pl_Total := ParseUint_val v 10\<rparr>
      else p)"

definition parsePSILineFields :: "string \<Rightarrow> psiline" where
  "parsePSILineFields line = scan_fold eq_field psi_set psi_zero (Fields line)"

text \<open>The scan of the file: the state is the pair of the named results \<open>some\<close> and \<open>full\<close>.\<close>

definition psi_file_line :: "string \<Rightarrow> (string \<times> psiline) option" where
  "psi_file_line line =
     (if HasPrefix line ''some '' then Some (''some'', parsePSILineFields (TrimPrefix line ''some ''))
      else if HasPrefix line ''full '' then Some (''full'', parsePSILineFields (TrimPrefix line ''full ''))
      else None)"

definition psi_pair_set :: "string \<Rightarrow> 'v \<Rightarrow> 'v \<times> 'v \<Rightarrow> 'v \<times> 'v" where
  "psi_pair_set k v sf =
     (if k = ''some'' then (v, snd sf) else if k = ''full'' then (fst sf, v) else sf)"

definition scan_psi :: "string \<times> go_err option \<Rightarrow> psiline \<times> psiline" where
  "scan_psi f = scan_fold psi_file_line psi_pair_set (psi_zero, psi_zero) (scan_lines f)"

definition readPSIFile :: "sysview \<Rightarrow> string \<Rightarrow> psiline \<times> psiline" where
  "readPSIFile sv path =
     (case sv_open sv path of Inl e \<Rightarrow> (psi_zero, psi_zero) | Inr f \<Rightarrow> scan_psi f)"

record podpsi =
  pp_CgroupPath :: string
  pp_MemorySome :: psiline
  pp_MemoryFull :: psiline
  pp_CPUSome :: psiline
  pp_IOSome :: psiline
  pp_IOFull :: psiline
  pp_OOMCount :: uint64
  pp_OOMKillCount :: uint64

definition ReadPodPSI :: "sysview \<Rightarrow> string \<Rightarrow> go_err + podpsi" where
  "ReadPodPSI sv podUID =
     (case cgroup_findPodCgroup sv podUID of
        Inl e \<Rightarrow> Inl e
      | Inr cgPath \<Rightarrow>
          (let (memSome, memFull) = readPSIFile sv (path_Join [cgPath, ''memory.pressure'']);
               (cpuSome, _) = readPSIFile sv (path_Join [cgPath, ''cpu.pressure'']);
               (ioSome, ioFull) = readPSIFile sv (path_Join [cgPath, ''io.pressure'']);
               events = readKV sv (path_Join [cgPath, ''memory.events''])
           in Inr \<lparr>pp_CgroupPath = cgPath, pp_MemorySome = memSome, pp_MemoryFull = memFull,
                   pp_CPUSome = cpuSome, pp_IOSome = ioSome, pp_IOFull = ioFull,
                   pp_OOMCount = map_get events ''oom'',
                   pp_OOMKillCount = map_get events ''oom_kill''\<rparr>))"

subsection \<open>The scans as keyed scans\<close>

interpretation kv: keyed_scan_ext kv_set "\<lambda>k m. m k" "\<lambda>_. Some" UNIV
  by unfold_locales (auto simp: kv_set_def)

definition psi_get :: "string \<Rightarrow> psiline \<Rightarrow> f64 \<times> uint64" where
  "psi_get k p =
     (if k = ''avg10'' then (pl_Avg10 p, 0) else if k = ''avg60'' then (pl_Avg60 p, 0)
      else if k = ''avg300'' then (pl_Avg300 p, 0) else (f64_zero, pl_Total p))"

definition psi_conv :: "string \<Rightarrow> string \<Rightarrow> f64 \<times> uint64" where
  "psi_conv k v = (if k = ''total'' then (f64_zero, ParseUint_val v 10) else (ParseFloat_val v, 0))"

definition psi_keys :: "string set" where
  "psi_keys = {''avg10'', ''avg60'', ''avg300'', ''total''}"

interpretation psi_fields: keyed_scan_ext psi_set psi_get psi_conv psi_keys
proof unfold_locales
  fix k v s assume "k \<in> psi_keys"
  then show "psi_get k (psi_set k v s) = psi_conv k v"
    by (auto simp: psi_keys_def psi_get_def psi_set_def psi_conv_def)
next
  fix k k' :: string and v s assume "k \<in> psi_keys" "k' \<noteq> k"
  then show "psi_get k (psi_set k' v s) = psi_get k s"
    by (auto simp: psi_keys_def psi_get_def psi_set_def)
next
  fix s t :: psiline assume "\<And>k. k \<in> psi_keys \<Longrightarrow> psi_get k s = psi_get k t"
  from this [of "''avg10''"] this [of "''avg60''"] this [of "''avg300''"] this [of "''total''"]
  show "s = t" by (simp add: psi_keys_def psi_get_def)
qed

definition pair_get :: "string \<Rightarrow> 'v \<times> 'v \<Rightarrow> 'v" where
  "pair_get k sf = (if k = ''some'' then fst sf else snd sf)"

interpretation psi_lines: keyed_scan_ext psi_pair_set pair_get "\<lambda>_ v. v" "{''some'', ''full''}"
proof unfold_locales
  fix s t :: "'v \<times> 'v" assume "\<And>k. k \<in> {''some'', ''full''} \<Longrightarrow> pair_get k s = pair_get k t"
  from this [of "''some''"] this [of "''full''"] show "s = t" by (simp add: pair_get_def prod_eq_iff)
qed (auto simp: psi_pair_set_def pair_get_def)

subsection \<open>Counter files\<close>

lemma kv_line_show: "token k \<Longrightarrow> kv_line (kv_show (k, v)) = Some (k, v)"
  by (simp add: kv_line_def two_fields_show)

text \<open>Round trip of a counter file: on a file as the kernel writes it (one key and one decimal
  number per line, no key twice), readKV returns exactly the table of the counters.\<close>

theorem readKV_roundtrip:
  assumes "sv_open sv path = Inr (kv_file kvs, e)" and "kv_ok kvs"
  shows "readKV sv path = Some (map_of kvs)"
proof -
  have "scan_fold kv_line kv_set Map.empty (map kv_show kvs) k = map_of kvs k" for k
    using kv.look_scan [of k kv_line Map.empty "map kv_show kvs"]
      last_entry_kv [OF assms(2), of kv_line "\<lambda>v. v" k] kv_line_show
    by (simp add: option.map_ident split: option.splits)
  then show ?thesis
    using assms by (auto simp: readKV_def scan_lines_def kv_file_lines)
qed

definition demo_kvs :: "(string \<times> uint64) list" where
  "demo_kvs = [(''low'', 0), (''high'', 7), (''max'', 2), (''oom'', 3), (''oom_kill'', 1)]"

definition demo_cgroup :: sysview where
  "demo_cgroup = table_view
     [(''/sys/fs/cgroup/kubepods/burstable/pod-u1/memory.events'', kv_file demo_kvs),
      (''/sys/fs/cgroup/kubepods/burstable/pod-u1/memory.current'', ''4096'' @ [CHR 0x0A])]
     [] [] []
     [(kubepods_root, DTree ''kubepods'' True
        [DTree ''cpu.stat'' False [],
         DTree ''burstable'' True [DTree ''pod-u1'' True [DTree ''c0'' True []]],
         DTree ''pod-u1x'' True []])]"

lemma demo_kvs_ok: "kv_ok demo_kvs"
  by code_simp

theorem readKV_roundtrip_witness:
  "readKV demo_cgroup ''/sys/fs/cgroup/kubepods/burstable/pod-u1/memory.events'' = Some (map_of demo_kvs)"
proof (rule readKV_roundtrip [OF _ demo_kvs_ok])
  show "sv_open demo_cgroup ''/sys/fs/cgroup/kubepods/burstable/pod-u1/memory.events'' =
    Inr (kv_file demo_kvs, None)" by code_simp
qed

text \<open>
  Malformed lines, and lines whose number is out of range, leave the table alone; a later
  line for a key replaces an earlier one.
\<close>

lemma readKV_spec:
  "readKV sv path = Some m \<Longrightarrow> sv_open sv path = Inr f \<Longrightarrow>
   m k = last_entry kv_line k (scan_lines f)"
  by (auto simp: readKV_def kv.look_scan split: option.splits)

subsection \<open>The directory search\<close>

lemma join_not_Nil: "p \<noteq> [] \<Longrightarrow> path_Join [p, n] \<noteq> []"
  by (cases n) (auto simp: path_Join_def path_Clean_def Let_def)

lemma walk_visits_paths: "path \<noteq> [] \<Longrightarrow> (p, v) \<in> set (walk_visits path t) \<Longrightarrow> p \<noteq> []"
proof (induction path t rule: walk_visits.induct)
  case (1 path n isdir cs)
  show ?case
  proof (cases "p = path")
    case False
    with "1.prems" obtain c where c: "c \<in> set cs" "isdir"
      "(p, v) \<in> set (walk_visits (path_Join [path, dt_name c]) c)"
      by (auto split: if_splits)
    have "path_Join [path, dt_name c] \<noteq> []" using "1.prems"(1) by (rule join_not_Nil)
    with "1.IH" c show ?thesis by blast
  qed (use "1.prems" in simp)
qed

lemma kubepods_paths: "(p, v) \<in> set (kubepods_visits sv) \<Longrightarrow> p \<noteq> []"
  using walk_visits_paths [of kubepods_root p v]
  by (auto simp: kubepods_visits_def kubepods_root_def split: option.splits)

lemma cgroup_find_Inr:
  "cgroup_findPodCgroup sv uid = Inr p \<longleftrightarrow>
   (\<exists>n d. List.find (pod_dir uid) (kubepods_visits sv) = Some (p, n, d))"
  using kubepods_paths find_Some_set [of "pod_dir uid" "kubepods_visits sv"]
  by (fastforce simp: cgroup_findPodCgroup_def Let_def split: option.splits)

text \<open>
  findPodCgroup finds the first directory of the walk (a directory before its entries,
  entries by name) whose name contains the UID.
\<close>

lemma findPodCgroup_first:
  "cgroup_findPodCgroup sv uid =
     (case filter (pod_dir uid) (kubepods_visits sv) of
        [] \<Rightarrow> Inl (Errorf ''pod cgroup for %s not found under %s'' [uid, kubepods_root] None)
      | (path, name, isdir) # _ \<Rightarrow> Inr path)"
proof (cases "List.find (pod_dir uid) (kubepods_visits sv)")
  case None
  then have "filter (pod_dir uid) (kubepods_visits sv) = []"
    by (simp add: find_None_set filter_empty_conv)
  with None show ?thesis by (simp add: cgroup_findPodCgroup_def)
next
  case (Some v)
  then obtain ys zs where sp: "kubepods_visits sv = ys @ v # zs" "pod_dir uid v"
    "\<forall>y \<in> set ys. \<not> pod_dir uid y" using find_Some_split by metis
  then have "filter (pod_dir uid) (kubepods_visits sv) = v # filter (pod_dir uid) zs"
    by (simp add: filter_empty_conv)
  moreover obtain p n d where v: "v = (p, n, d)" by (cases v)
  moreover have "cgroup_findPodCgroup sv uid = Inr p"
    using Some v by (auto simp: cgroup_find_Inr)
  ultimately show ?thesis by simp
qed

text \<open>
  On the tree itself: the chains of names from the root to each of its directories, the path
  of a chain, and the chains that end at the topmost directory named by the UID.
\<close>

fun dir_chains :: "dtree \<Rightarrow> string list list" where
  "dir_chains (DTree n isdir cs) =
     (if isdir then [n] # concat (map (\<lambda>c. map ((#) n) (dir_chains c)) cs) else [])"

definition chain_path :: "string \<Rightarrow> string list \<Rightarrow> string" where
  "chain_path dir ns = foldl (\<lambda>p n. path_Join [p, n]) dir ns"

definition names_pod :: "string \<Rightarrow> string list \<Rightarrow> bool" where
  "names_pod uid ns \<longleftrightarrow> Contains (last ns) uid \<and> list_all (\<lambda>n. \<not> Contains n uid) (butlast ns)"

lemma dir_chains_hd: "ns \<in> set (dir_chains t) \<Longrightarrow> \<exists>ms. ns = dt_name t # ms"
  by (cases t) (auto split: if_splits)

lemma walk_find_chain:
  "List.find (pod_dir uid) (walk_visits path t) = Some (p, v) \<Longrightarrow>
   \<exists>ns \<in> set (dir_chains t). p = chain_path path (tl ns) \<and> names_pod uid ns"
proof (induction path t arbitrary: v rule: walk_visits.induct)
  case (1 path n isdir cs)
  show ?case
  proof (cases "pod_dir uid (path, n, isdir)")
    case True
    with "1.prems" show ?thesis by (auto simp: pod_dir_def chain_path_def names_pod_def)
  next
    case False
    with "1.prems" have d: isdir by (auto split: if_splits)
    with False "1.prems" obtain c where c: "c \<in> set cs"
      "List.find (pod_dir uid) (walk_visits (path_Join [path, dt_name c]) c) = Some (p, v)"
      by (auto dest!: find_concat_Some)
    obtain ns where ns: "ns \<in> set (dir_chains c)" "p = chain_path (path_Join [path, dt_name c]) (tl ns)"
      "names_pod uid ns" using "1.IH" [OF d c] by blast
    obtain ms where "ns = dt_name c # ms" using dir_chains_hd [OF ns(1)] by blast
    with ns False d have "n # ns \<in> set (dir_chains (DTree n isdir cs)) \<and>
        p = chain_path path (tl (n # ns)) \<and> names_pod uid (n # ns)"
      using c(1) by (auto simp: chain_path_def names_pod_def pod_dir_def)
    then show ?thesis by blast
  qed
qed

lemma walk_none_chain:
  "ns \<in> set (dir_chains t) \<Longrightarrow> Contains (last ns) uid \<Longrightarrow>
   \<exists>v \<in> set (walk_visits path t). pod_dir uid v"
proof (induction path t arbitrary: ns rule: walk_visits.induct)
  case (1 path n isdir cs)
  show ?case
  proof (cases "ns = [n]")
    case True
    with "1.prems" show ?thesis by (auto simp: pod_dir_def split: if_splits)
  next
    case False
    with "1.prems" obtain c ms where c: "c \<in> set cs" "isdir" "ms \<in> set (dir_chains c)" "ns = n # ms"
      by (auto split: if_splits)
    moreover have "Contains (last ms) uid"
      using c dir_chains_hd [OF c(3)] "1.prems"(2) by auto
    ultimately obtain v where "v \<in> set (walk_visits (path_Join [path, dt_name c]) c)" "pod_dir uid v"
      using "1.IH" by blast
    with c show ?thesis by auto
  qed
qed

lemma chain_found:
  assumes "cgroup_findPodCgroup sv uid = Inr p"
  shows "\<exists>t. sv_tree sv kubepods_root = Some t \<and>
    list_ex (\<lambda>ns. p = chain_path kubepods_root (tl ns) \<and> names_pod uid ns) (dir_chains t)"
  using assms walk_find_chain
  by (fastforce simp: cgroup_find_Inr kubepods_visits_def list_ex_iff split: option.splits)

text \<open>C14.
  findPodCgroup fails, with the message that names the UID, exactly when no directory of the
  tree below /sys/fs/cgroup/kubepods has a name containing the UID; otherwise it returns the
  path of such a directory, and none of the directories above it has a name containing the
  UID: what is found is the pod's own cgroup and never that of a container inside it.\<close>

theorem findPodCgroup_topmost:
  "case cgroup_findPodCgroup sv uid of
     Inl e \<Rightarrow> e = Errorf ''pod cgroup for %s not found under %s'' [uid, kubepods_root] None
       \<and> (case sv_tree sv kubepods_root of None \<Rightarrow> True
          | Some t \<Rightarrow> list_all (\<lambda>ns. \<not> Contains (last ns) uid) (dir_chains t))
   | Inr p \<Rightarrow> (\<exists>t. sv_tree sv kubepods_root = Some t \<and>
       list_ex (\<lambda>ns. p = chain_path kubepods_root (tl ns) \<and> names_pod uid ns) (dir_chains t))"
proof (cases "cgroup_findPodCgroup sv uid")
  case (Inl e)
  then have e: "e = Errorf ''pod cgroup for %s not found under %s'' [uid, kubepods_root] None"
    by (auto simp: cgroup_findPodCgroup_def Let_def split: if_splits)
  have "List.find (pod_dir uid) (kubepods_visits sv) = None"
    using Inl by (metis cgroup_find_Inr not_Some_eq sum.simps(4) surj_pair)
  then have "list_all (\<lambda>ns. \<not> Contains (last ns) uid) (dir_chains t)"
    if "sv_tree sv kubepods_root = Some t" for t
    using that walk_none_chain by (fastforce simp: find_None_set kubepods_visits_def list_all_iff)
  with Inl e show ?thesis by (simp split: option.split)
next
  case (Inr p)
  with chain_found show ?thesis by simp
qed
lemma demo_find: "cgroup_findPodCgroup demo_cgroup ''u1'' = Inr ''/sys/fs/cgroup/kubepods/burstable/pod-u1''"
  by code_simp

text \<open>ReadPodStats and ReadPodPSI fail exactly when the pod's directory is not found; a missing
  or unreadable file inside it is never an error. The OOM counters they deliver are those of
  the directory's memory.events file.\<close>

theorem ReadPodPSI_events:
  "map_sum id pp_CgroupPath (ReadPodPSI sv uid) = cgroup_findPodCgroup sv uid \<and>
   map_sum id (\<lambda>p. (pp_CgroupPath p, Some (pp_OOMCount p, pp_OOMKillCount p))) (ReadPodPSI sv uid) =
   map_sum id (\<lambda>s. (ps_CgroupPath s, Some (map_get (ps_MemoryEvents s) ''oom'',
     map_get (ps_MemoryEvents s) ''oom_kill''))) (ReadPodStats sv uid)"
  by (auto simp: ReadPodPSI_def ReadPodStats_def Let_def split: sum.splits prod.splits)

lemma demo_stats:
  "map_sum id (\<lambda>s. (ps_CgroupPath s, ps_MemoryCurrent s, map_get (ps_MemoryEvents s) ''oom'', ps_CPUWeight s))
     (ReadPodStats demo_cgroup ''u1'') =
   Inr (''/sys/fs/cgroup/kubepods/burstable/pod-u1'', 4096, 3, 0)"
  by code_simp

subsection \<open>Pressure files\<close>

definition psiline_of :: "psi_row \<Rightarrow> psiline" where
  "psiline_of r = \<lparr>pl_Avg10 = cent_val (avg10_c r), pl_Avg60 = cent_val (avg60_c r),
     pl_Avg300 = cent_val (avg300_c r), pl_Total = total_us r\<rparr>"

lemma scan_psi_fields: "psi_ok r \<Longrightarrow> scan_fold eq_field psi_set psi_zero (psi_fields r) = psiline_of r"
  by (simp add: scan_fold_map eq_fields_psi psi_set_def psi_zero_def ParseFloat_cent psiline_of_def psi_ok_def)

lemma Fields_psi_fields: "Fields (unwords (psi_fields r)) = psi_fields r"
  by (rule Fields_unwords) (auto dest: psi_fields_tokens)

lemma parse_psi_fields: "psi_ok r \<Longrightarrow> parsePSILineFields (unwords (psi_fields r)) = psiline_of r"
  by (simp add: parsePSILineFields_def Fields_psi_fields scan_psi_fields)

lemma psi_line_split: "psi_line kind r = (kind @ '' '') @ unwords (psi_fields r)"
  by (simp add: psi_line_def psi_fields_def)

lemma psi_file_line_some: "psi_ok r \<Longrightarrow> psi_file_line (psi_line ''some'' r) = Some (''some'', psiline_of r)"
  using parse_psi_fields [of r] TrimPrefix_append [of "''some ''" "unwords (psi_fields r)"]
  by (simp add: psi_file_line_def psi_line_split)

lemma psi_file_line_full: "psi_ok r \<Longrightarrow> psi_file_line (psi_line ''full'' r) = Some (''full'', psiline_of r)"
  using parse_psi_fields [of r] TrimPrefix_append [of "''full ''" "unwords (psi_fields r)"]
  by (simp add: psi_file_line_def psi_line_split)

lemma scan_psi_file:
  assumes "psi_ok s" and "\<And>r. f = Some r \<Longrightarrow> psi_ok r"
  shows "scan_psi (psi_file s f, e) =
    (psiline_of s, case f of None \<Rightarrow> psi_zero | Some r \<Rightarrow> psiline_of r)"
proof (cases f)
  case None
  then show ?thesis using assms psi_file_lines [of s f e]
    by (simp add: scan_psi_def scan_lines_def psi_file_line_some psi_pair_set_def)
next
  case (Some r)
  then show ?thesis using assms psi_file_lines [of s f e]
    by (simp add: scan_psi_def scan_lines_def psi_file_line_some psi_file_line_full psi_pair_set_def)
qed

interpretation cgroup_psi: psi_source "\<lambda>f. map_prod pl_Avg10 pl_Avg10 (scan_psi f)"
  by unfold_locales (auto simp: scan_psi_file psiline_of_def psi_zero_def split: option.splits)

text \<open>What \<open>%.2f\<close> and \<open>%d\<close> print for a line.\<close>

definition show_psiline :: "psiline \<Rightarrow> string list" where
  "show_psiline p =
     [fmt_f 2 (pl_Avg10 p), fmt_f 2 (pl_Avg60 p), fmt_f 2 (pl_Avg300 p), utoa (unat (pl_Total p))]"

lemma show_psiline_of: "psi_ok r \<Longrightarrow> show_psiline (psiline_of r) =
  [fixed_digits 2 (avg10_c r), fixed_digits 2 (avg60_c r), fixed_digits 2 (avg300_c r),
   utoa (unat (total_us r))]"
  by (simp add: show_psiline_def psiline_of_def fmt_cent psi_ok_def)

text \<open>C15.
  Round trip of a pressure file through binary floating point: on a file as the kernel writes
  it, readPSIFile delivers for the some and the full line the doubles nearest to the kernel's
  averages and the exact total, and printing them with two decimals gives back the kernel's
  digits.\<close>

theorem readPSIFile_roundtrip:
  assumes "sv_open sv path = Inr (psi_file s (Some f), e)" and "psi_ok s" and "psi_ok f"
  shows "readPSIFile sv path = (psiline_of s, psiline_of f) \<and>
    show_psiline (fst (readPSIFile sv path)) =
      [fixed_digits 2 (avg10_c s), fixed_digits 2 (avg60_c s), fixed_digits 2 (avg300_c s),
       utoa (unat (total_us s))] \<and>
    show_psiline (snd (readPSIFile sv path)) =
      [fixed_digits 2 (avg10_c f), fixed_digits 2 (avg60_c f), fixed_digits 2 (avg300_c f),
       utoa (unat (total_us f))]"
proof -
  have "readPSIFile sv path = (psiline_of s, psiline_of f)"
    using assms scan_psi_file [of s "Some f" e] by (simp add: readPSIFile_def)
  then show ?thesis using assms(2,3) by (simp add: show_psiline_of)
qed

definition demo_psi :: "psi_row \<times> psi_row" where
  "demo_psi = (\<lparr>avg10_c = 1234, avg60_c = 7, avg300_c = 10000, total_us = 4242\<rparr>,
     \<lparr>avg10_c = 0, avg60_c = 10, avg300_c = 99, total_us = 7\<rparr>)"

lemma demo_psi_text: "psi_file (fst demo_psi) (Some (snd demo_psi)) =
  ''some avg10=12.34 avg60=0.07 avg300=100.00 total=4242'' @ [CHR 0x0A] @
  ''full avg10=0.00 avg60=0.10 avg300=0.99 total=7'' @ [CHR 0x0A]"
  by code_simp

theorem readPSIFile_roundtrip_witness:
  "show_psiline (fst (readPSIFile (table_view [(''/m'', psi_file (fst demo_psi) (Some (snd demo_psi)))]
     [] [] [] []) ''/m'')) = [''12.34'', ''0.07'', ''100.00'', ''4242'']"
proof -
  let ?sv = "table_view [(''/m'', psi_file (fst demo_psi) (Some (snd demo_psi)))] [] [] [] []"
  have o: "sv_open ?sv ''/m'' = Inr (psi_file (fst demo_psi) (Some (snd demo_psi)), None)"
    by (simp add: table_view_def table_open_def)
  have ok: "psi_ok (fst demo_psi)" "psi_ok (snd demo_psi)" by code_simp+
  have "show_psiline (fst (readPSIFile ?sv ''/m'')) =
    [fixed_digits 2 (avg10_c (fst demo_psi)), fixed_digits 2 (avg60_c (fst demo_psi)),
     fixed_digits 2 (avg300_c (fst demo_psi)), utoa (unat (total_us (fst demo_psi)))]"
    using readPSIFile_roundtrip [OF o ok] by blast
  also have "\<dots> = [''12.34'', ''0.07'', ''100.00'', ''4242'']" by code_simp
  finally show ?thesis .
qed

end
