(* ===== verification/Pod_Glob.thy ===== *)
theory Pod_Glob
  imports Cgroup
begin

text \<open>
  The lookup of a pod's cgroup directory by \<open>filepath.Glob\<close>, which the packages \<open>kubelet\<close>,
  \<open>metrics\<close> and \<open>sched\<close> and two exercises repeat line for line: the directories under
  \<open>/sys/fs/cgroup/kubepods.slice/*/\<close>, then those under \<open>/sys/fs/cgroup/kubepods.slice/\<close>, that
  match \<open>*pod<uid>*\<close>; the first one is taken. The locale \<open>pod_finder\<close> is the contract of
  such a lookup.
\<close>

definition kubepods_slice :: string where
  "kubepods_slice = ''/sys/fs/cgroup/kubepods.slice''"

definition pod_pattern :: "string \<Rightarrow> string" where
  "pod_pattern podUID = CHR ''*'' # ''pod'' @ podUID @ ''*''"

text \<open>\<open>append(matches, direct...)\<close>\<close>

definition pod_matches :: "sysview \<Rightarrow> string \<Rightarrow> string list" where
  "pod_matches sv podUID =
     Glob_val sv (path_Join [kubepods_slice, ''*'', pod_pattern podUID])
     @ Glob_val sv (path_Join [kubepods_slice, pod_pattern podUID])"

subsection \<open>What the two patterns match\<close>

text \<open>A UID that is a literal of the pattern language; Kubernetes UIDs are hex digits and dashes.\<close>

definition uid_ok :: "string \<Rightarrow> bool" where
  "uid_ok uid \<longleftrightarrow> \<not> has_meta uid \<and> CHR ''/'' \<notin> set uid"

definition names_ok :: "sysview \<Rightarrow> bool" where
  "names_ok sv \<longleftrightarrow> (\<forall>d. \<forall>e \<in> set (fst (sv_dir sv d)). CHR ''/'' \<notin> set (de_name e))"

text \<open>The entries of a directory, sorted, and those of them that name the pod.\<close>

definition dir_names :: "sysview \<Rightarrow> string \<Rightarrow> string list" where
  "dir_names sv d = (if stat_isdir sv d then sort (map de_name (fst (sv_dir sv d))) else [])"

definition pods_in :: "sysview \<Rightarrow> string \<Rightarrow> string \<Rightarrow> string list" where
  "pods_in sv uid d =
     map (\<lambda>n. path_Join [d, n]) (filter (\<lambda>n. Contains n (''pod'' @ uid)) (dir_names sv d))"

definition slice_comps :: "string list" where
  "slice_comps = [''sys'', ''fs'', ''cgroup'', ''kubepods.slice'']"

lemma slice_abs: "kubepods_slice = abs_path slice_comps"
  by code_simp

lemma slice_names: "\<forall>c \<in> set slice_comps. path_name c"
  by (simp add: slice_comps_def path_name_def)

lemma slice_no_meta: "\<not> has_meta kubepods_slice"
  by code_simp

lemma pattern_name: "uid_ok uid \<Longrightarrow> path_name (pod_pattern uid)"
  by (auto simp: uid_ok_def path_name_def pod_pattern_def)

lemma star_name: "path_name ''*''"
  by (simp add: path_name_def)

lemma has_meta_append: "has_meta (a @ b) \<longleftrightarrow> has_meta a \<or> has_meta b"
  by (simp add: has_meta_def)

lemma path_Split_snoc: "CHR ''/'' \<notin> set n \<Longrightarrow> path_Split (p @ CHR ''/'' # n) = (p @ ''/'', n)"
proof -
  assume n: "CHR ''/'' \<notin> set n"
  have "rev (p @ CHR ''/'' # n) = rev n @ CHR ''/'' # rev p" by simp
  moreover have "takeWhile (\<lambda>c. c \<noteq> CHR ''/'') (rev n @ CHR ''/'' # rev p) = rev n"
    using n by (intro takeWhile_append_stop) auto
  moreover have "dropWhile (\<lambda>c. c \<noteq> CHR ''/'') (rev n @ CHR ''/'' # rev p) = CHR ''/'' # rev p"
    using n by (intro dropWhile_append_stop) auto
  ultimately show ?thesis by (simp add: path_Split_def)
qed

lemma clean_glob_slash: "p \<noteq> [] \<Longrightarrow> clean_glob_path (p @ ''/'') = p"
  by (cases p) (auto simp: clean_glob_path_def)

text \<open>One level: a pattern below a literal directory.\<close>

lemma Glob_level:
  assumes "\<not> has_meta p" and "p \<noteq> []" and "CHR ''/'' \<notin> set pat" and "has_meta pat"
    and "parse_pattern False [] (p @ CHR ''/'' # pat) \<noteq> None"
  shows "path_Glob sv (p @ CHR ''/'' # pat) = Inr (glob_dir sv p pat)"
  using assms
  by (simp add: path_Glob.simps [of sv "p @ CHR ''/'' # pat"] path_Split_snoc clean_glob_slash
      has_meta_append) (simp add: has_meta_def)

lemma Glob_below:
  assumes "has_meta p" and "p \<noteq> []" and "CHR ''/'' \<notin> set pat"
    and "parse_pattern False [] (p @ CHR ''/'' # pat) \<noteq> None" and "path_Glob sv p = Inr ds"
  shows "path_Glob sv (p @ CHR ''/'' # pat) = Inr (concat (map (\<lambda>d. glob_dir sv d pat) ds))"
  using assms
  by (simp add: path_Glob.simps [of sv "p @ CHR ''/'' # pat"] path_Split_snoc clean_glob_slash
      has_meta_append)

lemma parse_pattern_ok:
  "CHR ''['' \<notin> set p \<Longrightarrow> CHR 0x5C \<notin> set p \<Longrightarrow> parse_pattern star cur p \<noteq> None"
proof (induction p arbitrary: star cur)
  case Nil
  then show ?case by (subst parse_pattern.simps) simp
next
  case (Cons c p)
  then have IH: "parse_pattern b ys p \<noteq> None" for b ys by simp
  have c: "c \<noteq> CHR ''[''" "c \<noteq> CHR 0x5C" using Cons.prems by auto
  have "parse_pattern star cur (c # p) =
    (if c = CHR ''*'' then (if cur = [] then parse_pattern True [] p
        else map_option ((#) (star, rev cur)) (parse_pattern True [] p))
     else if c = CHR ''?'' then parse_pattern star (GAny # cur) p
     else parse_pattern star (GLit c # cur) p)"
    by (subst parse_pattern.simps) (simp add: c)
  then show ?case using IH by (simp only: option.map_disc_iff split: if_split) blast
qed

lemma no_meta_chars: "\<not> has_meta p \<Longrightarrow> CHR ''['' \<notin> set p \<and> CHR 0x5C \<notin> set p"
  by (auto simp: has_meta_def list_ex_iff)

lemma slash_pattern_ok:
  assumes "CHR ''['' \<notin> set p" "CHR 0x5C \<notin> set p" "CHR ''['' \<notin> set q" "CHR 0x5C \<notin> set q"
  shows "parse_pattern False [] (p @ CHR ''/'' # q) \<noteq> None"
  by (rule parse_pattern_ok) (use assms in auto)

lemma pod_pattern_chars:
  assumes "uid_ok uid"
  shows "CHR ''['' \<notin> set (pod_pattern uid) \<and> CHR 0x5C \<notin> set (pod_pattern uid)
    \<and> CHR ''/'' \<notin> set (pod_pattern uid) \<and> has_meta (pod_pattern uid)"
  using assms no_meta_chars [of uid] by (auto simp: uid_ok_def pod_pattern_def has_meta_def)

lemma Match_star: "CHR ''/'' \<notin> set n \<Longrightarrow> path_Match ''*'' n = Some True"
proof -
  have "parse_pattern False [] ''*'' = Some [(True, [])]" by code_simp
  then show "CHR ''/'' \<notin> set n \<Longrightarrow> path_Match ''*'' n = Some True" by (simp add: path_Match_def)
qed

lemma Match_pod:
  assumes "uid_ok uid" and "CHR ''/'' \<notin> set n"
  shows "path_Match (pod_pattern uid) n = Some (Contains n (''pod'' @ uid))"
proof -
  have "\<not> has_meta (''pod'' @ uid)" using assms by (auto simp: uid_ok_def has_meta_def)
  from path_Match_contains [OF this _ assms(2)] show ?thesis
    by (simp add: pod_pattern_def)
qed

lemma dir_names_no_slash: "names_ok sv \<Longrightarrow> n \<in> set (dir_names sv d) \<Longrightarrow> CHR ''/'' \<notin> set n"
  by (auto simp: names_ok_def dir_names_def split: if_splits)

lemma glob_dir_names:
  "glob_dir sv d pat = map (\<lambda>n. path_Join [d, n]) (filter (\<lambda>n. path_Match pat n = Some True) (dir_names sv d))"
  by (simp add: glob_dir_def dir_names_def)

lemma glob_dir_pod:
  assumes "uid_ok uid" and "names_ok sv"
  shows "glob_dir sv d (pod_pattern uid) = pods_in sv uid d"
  unfolding glob_dir_names pods_in_def
  using Match_pod [OF assms(1)] dir_names_no_slash [OF assms(2)]
  by (intro arg_cong [where f = "map _"] filter_cong) auto

lemma glob_dir_star:
  assumes "names_ok sv"
  shows "glob_dir sv d ''*'' = map (\<lambda>n. path_Join [d, n]) (dir_names sv d)"
  unfolding glob_dir_names
  using Match_star dir_names_no_slash [OF assms]
  by (intro arg_cong [where f = "map _"] filter_True) auto

lemma join_direct:
  "uid_ok uid \<Longrightarrow> path_Join [kubepods_slice, pod_pattern uid] = kubepods_slice @ CHR ''/'' # pod_pattern uid"
  unfolding slice_abs by (rule path_Join_name [OF slice_names]) (simp_all add: slice_comps_def pattern_name)

lemma join_nested:
  assumes "uid_ok uid"
  shows "path_Join [kubepods_slice, ''*'', pod_pattern uid] =
    (kubepods_slice @ ''/*'') @ CHR ''/'' # pod_pattern uid"
proof -
  have "path_Join [kubepods_slice, ''*'', pod_pattern uid] =
    path_Clean (abs_path (slice_comps @ [''*'', pod_pattern uid]))"
    by (simp add: path_Join_def slice_abs slice_comps_def)
  also have "\<dots> = abs_path (slice_comps @ [''*'', pod_pattern uid])"
    using slice_names star_name pattern_name [OF assms] by (intro path_Clean_abs) auto
  also have "\<dots> = (kubepods_slice @ ''/*'') @ CHR ''/'' # pod_pattern uid"
    by (simp add: slice_abs slice_comps_def)
  finally show ?thesis .
qed

lemma slice_chars: "CHR ''['' \<notin> set kubepods_slice" "CHR 0x5C \<notin> set kubepods_slice"
  "kubepods_slice \<noteq> []"
  by (simp_all add: kubepods_slice_def)

lemma Glob_direct:
  assumes "uid_ok uid" and "names_ok sv"
  shows "path_Glob sv (kubepods_slice @ CHR ''/'' # pod_pattern uid) = Inr (pods_in sv uid kubepods_slice)"
  using Glob_level [OF slice_no_meta slice_chars(3)] pod_pattern_chars [OF assms(1)]
    slash_pattern_ok [OF slice_chars(1,2)] glob_dir_pod [OF assms] by simp

lemma Glob_nested:
  assumes "uid_ok uid" and "names_ok sv"
  shows "path_Glob sv ((kubepods_slice @ ''/*'') @ CHR ''/'' # pod_pattern uid) =
    Inr (concat (map (\<lambda>n. pods_in sv uid (path_Join [kubepods_slice, n])) (dir_names sv kubepods_slice)))"
proof -
  have star: "path_Glob sv (kubepods_slice @ CHR ''/'' # ''*'') =
    Inr (map (\<lambda>n. path_Join [kubepods_slice, n]) (dir_names sv kubepods_slice))"
    using Glob_level [OF slice_no_meta slice_chars(3), of "''*''" sv] slash_pattern_ok [OF slice_chars(1,2)]
      glob_dir_star [OF assms(2)] by (simp add: has_meta_def)
  have meta: "has_meta (kubepods_slice @ ''/*'')" by (simp add: has_meta_append) (simp add: has_meta_def)
  have chars: "CHR ''['' \<notin> set (kubepods_slice @ ''/*'')" "CHR 0x5C \<notin> set (kubepods_slice @ ''/*'')"
    using slice_chars by auto
  have "path_Glob sv ((kubepods_slice @ ''/*'') @ CHR ''/'' # pod_pattern uid) =
    Inr (concat (map (\<lambda>d. glob_dir sv d (pod_pattern uid))
      (map (\<lambda>n. path_Join [kubepods_slice, n]) (dir_names sv kubepods_slice))))"
    using pod_pattern_chars [OF assms(1)] slash_pattern_ok [OF chars] star
    by (intro Glob_below [OF meta]) auto
  then show ?thesis by (simp add: glob_dir_pod [OF assms] comp_def)
qed

lemma pod_matches_eq:
  assumes "uid_ok uid" and "names_ok sv"
  shows "pod_matches sv uid =
    concat (map (\<lambda>n. pods_in sv uid (path_Join [kubepods_slice, n])) (dir_names sv kubepods_slice))
    @ pods_in sv uid kubepods_slice"
  unfolding pod_matches_def Glob_val_def join_direct [OF assms(1)] join_nested [OF assms(1)]
    Glob_direct [OF assms] Glob_nested [OF assms] by simp

subsection \<open>The contract of the lookup\<close>

definition pod_first :: "sysview \<Rightarrow> string \<Rightarrow> string option" where
  "pod_first sv uid = (case pod_matches sv uid of [] \<Rightarrow> None | d # _ \<Rightarrow> Some d)"

text \<open>The directories the lookup ranges over: those of the slice, then the slice itself.\<close>

definition slice_dirs :: "sysview \<Rightarrow> string list" where
  "slice_dirs sv =
     map (\<lambda>n. path_Join [kubepods_slice, n]) (dir_names sv kubepods_slice) @ [kubepods_slice]"

lemma pod_matches_slice:
  "uid_ok uid \<Longrightarrow> names_ok sv \<Longrightarrow> pod_matches sv uid = concat (map (pods_in sv uid) (slice_dirs sv))"
  by (simp add: pod_matches_eq slice_dirs_def comp_def)

lemma slice_dirs_not_Nil: "d \<in> set (slice_dirs sv) \<Longrightarrow> d \<noteq> []"
proof -
  assume "d \<in> set (slice_dirs sv)"
  then consider n where "d = path_Join [kubepods_slice, n]" | "d = kubepods_slice"
    by (auto simp: slice_dirs_def)
  then show "d \<noteq> []" using slice_chars(3) join_not_Nil by cases auto
qed

lemma pod_matches_not_Nil:
  assumes "uid_ok uid" and "names_ok sv" and "d \<in> set (pod_matches sv uid)"
  shows "d \<noteq> []"
proof -
  obtain p n where "p \<in> set (slice_dirs sv)" "d = path_Join [p, n]"
    using assms(3) unfolding pod_matches_slice [OF assms(1,2)] by (auto simp: pods_in_def)
  with slice_dirs_not_Nil join_not_Nil show ?thesis by simp
qed

lemma pod_first_not_Nil: "uid_ok uid \<Longrightarrow> names_ok sv \<Longrightarrow> pod_first sv uid = Some d \<Longrightarrow> d \<noteq> []"
  using pod_matches_not_Nil [of uid sv d] by (auto simp: pod_first_def split: list.splits)

locale pod_finder =
  fixes find_pod :: "sysview \<Rightarrow> string \<Rightarrow> string option"
  assumes find_first: "uid_ok uid \<Longrightarrow> names_ok sv \<Longrightarrow> find_pod sv uid = pod_first sv uid"
begin

lemma find_sound:
  assumes "uid_ok uid" and "names_ok sv" and "find_pod sv uid = Some d"
  shows "\<exists>parent n. parent \<in> set (slice_dirs sv) \<and> n \<in> set (dir_names sv parent)
    \<and> Contains n (''pod'' @ uid) \<and> d = path_Join [parent, n]"
proof -
  have "d \<in> set (pod_matches sv uid)"
    using assms find_first by (auto simp: pod_first_def split: list.splits)
  then show ?thesis
    unfolding pod_matches_slice [OF assms(1,2)] by (auto simp: pods_in_def)
qed

lemma find_none:
  assumes "uid_ok uid" and "names_ok sv"
  shows "find_pod sv uid = None \<longleftrightarrow>
    (\<forall>parent \<in> set (slice_dirs sv). \<forall>n \<in> set (dir_names sv parent). \<not> Contains n (''pod'' @ uid))"
proof -
  have "find_pod sv uid = None \<longleftrightarrow> pod_matches sv uid = []"
    using assms find_first by (auto simp: pod_first_def split: list.splits)
  then show ?thesis
    unfolding pod_matches_slice [OF assms] by (auto simp: pods_in_def filter_empty_conv)
qed

text \<open>A UID whose directory has another spelling is never found.\<close>

lemma find_missed:
  assumes "uid_ok uid" and "names_ok sv"
    and "\<And>parent n. n \<in> set (dir_names sv parent) \<Longrightarrow> \<not> Contains n (''pod'' @ uid)"
  shows "find_pod sv uid = None"
  using assms by (simp add: find_none)

end

text \<open>
  The directory of a pod as the systemd cgroup driver of the kubelet names it: the UID with
  its dashes replaced by underscores. It does not contain the UID as the tools write it.
\<close>

definition systemd_name :: "string \<Rightarrow> string" where
  "systemd_name uid =
     ''kubepods-burstable-pod'' @ map (\<lambda>c. if c = CHR ''-'' then CHR ''_'' else c) uid @ ''.slice''"

lemma systemd_name_missed:
  "\<not> Contains (systemd_name ''1f0a-22'') (''pod'' @ ''1f0a-22'')"
  by code_simp

subsection \<open>A node with one pod\<close>

definition demo_events :: "(string \<times> uint64) list" where
  "demo_events = [(''low'', 0), (''high'', 7), (''max'', 2), (''oom'', 3), (''oom_kill'', 1)]"

definition demo_cpu :: "(string \<times> uint64) list" where
  "demo_cpu = [(''usage_usec'', 900), (''nr_periods'', 200), (''nr_throttled'', 50), (''throttled_usec'', 77)]"

definition demo_slice :: sysview where
  "demo_slice = table_view
     [(''/sys/fs/cgroup/kubepods.slice/burstable/podu1/memory.events'',
       ''low 0'' @ [CHR 0x0A] @ ''high 7'' @ [CHR 0x0A] @ ''max 2'' @ [CHR 0x0A] @ ''oom 3'' @ [CHR 0x0A] @ ''oom_kill 1'' @ [CHR 0x0A]),
      (''/sys/fs/cgroup/kubepods.slice/burstable/podu1/cpu.stat'',
       ''usage_usec 900'' @ [CHR 0x0A] @ ''nr_periods 200'' @ [CHR 0x0A] @ ''nr_throttled 50'' @ [CHR 0x0A] @ ''throttled_usec 77'' @ [CHR 0x0A]),
      (''/sys/fs/cgroup/kubepods.slice/burstable/podu1/cpu.max'', ''max 100000'' @ [CHR 0x0A]),
      (''/proc/7/cgroup'', ''0::/kubepods.slice/burstable/podu1/c0'' @ [CHR 0x0A]),
      (''/proc/7/schedstat'', ''3000 1000 12'' @ [CHR 0x0A]),
      (''/proc/7/comm'', ''nginx'' @ [CHR 0x0A]),
      (''/proc/9/cgroup'', ''0::/kubepods.slice/burstable/podu1/c1'' @ [CHR 0x0A])]
     [(kubepods_slice, [dir_entry ''burstable'', \<lparr>de_name = ''cpu.stat'', de_type = FReg\<rparr>]),
      (''/sys/fs/cgroup/kubepods.slice/burstable'', [dir_entry ''podu2'', dir_entry ''podu1'']),
      (''/proc'', [dir_entry ''7'', dir_entry ''9'', dir_entry ''irq''])]
     [(kubepods_slice, \<lparr>fi_ino = 1, fi_isdir = True\<rparr>),
      (''/sys/fs/cgroup/kubepods.slice/burstable'', \<lparr>fi_ino = 2, fi_isdir = True\<rparr>)] [] []"

lemma names_ok_table:
  "list_all (\<lambda>(d, es). list_all (\<lambda>e. CHR ''/'' \<notin> set (de_name e)) es) dirs \<Longrightarrow>
   names_ok (table_view files dirs inodes links trees)"
  by (fastforce simp: names_ok_def table_view_def table_dir_def list_all_iff split: option.splits
      dest: map_of_SomeD)

lemma demo_slice_names: "names_ok demo_slice"
  unfolding demo_slice_def by (rule names_ok_table) code_simp

lemma demo_slice_pod: "pod_first demo_slice ''u1'' = Some ''/sys/fs/cgroup/kubepods.slice/burstable/podu1''"
  by code_simp

lemma demo_uid: "uid_ok ''u1''" "uid_ok ''9d-0''"
  by code_simp+

lemma demo_kv: "kv_ok demo_events" "kv_ok demo_cpu"
  by code_simp+

lemma demo_slice_files:
  "sv_open demo_slice (path_Join [''/sys/fs/cgroup/kubepods.slice/burstable/podu1'', ''memory.events'']) =
     Inr (kv_file demo_events, None)"
  "sv_open demo_slice (path_Join [''/sys/fs/cgroup/kubepods.slice/burstable/podu1'', ''cpu.stat'']) =
     Inr (kv_file demo_cpu, None)"
  by code_simp+

end
