(* ===== verification/Kubelet.thy ===== *)
theory Kubelet
  imports Pod_Glob
begin

text \<open>
  Package \<open>internal/kubelet\<close> of kube-inspect: node pressure from \<open>/proc/pressure\<close> and the
  \<open>memory.events\<close> counters of a pod. Functions with named results return their values and
  the error, also when there is an error.
\<close>

subsection \<open>Node pressure\<close>

record nodepressure =
  np_MemorySomeAvg10 :: f64
  np_MemoryFullAvg10 :: f64
  np_CPUSomeAvg10 :: f64
  np_IOSomeAvg10 :: f64
  np_IOFullAvg10 :: f64

text \<open>The loops over the lines and over the fields of a line, on \<open>(someAvg10, fullAvg10)\<close>.\<close>

definition avg10_field :: "string \<Rightarrow> string \<Rightarrow> f64 \<times> f64 \<Rightarrow> f64 \<times> f64" where
  "avg10_field kind kv sf =
     (case eq_field kv of
        None \<Rightarrow> sf
      | Some (k, v) \<Rightarrow>
          if k = ''avg10'' then
            (if kind = ''some'' then (ParseFloat_val v, snd sf)
             else if kind = ''full'' then (fst sf, ParseFloat_val v) else sf)
          else sf)"

definition avg10_line :: "string \<Rightarrow> f64 \<times> f64 \<Rightarrow> f64 \<times> f64" where
  "avg10_line line sf =
     (let fields = Fields line in
      if length fields < 2 then sf else fold (avg10_field (hd fields)) (tl fields) sf)"

definition scan_avg10 :: "string \<times> go_err option \<Rightarrow> f64 \<times> f64" where
  "scan_avg10 f = fold avg10_line (scan_lines f) (f64_zero, f64_zero)"

definition parsePSIAvg10 :: "sysview \<Rightarrow> string \<Rightarrow> (f64 \<times> f64) \<times> go_err option" where
  "parsePSIAvg10 sv path =
     (case sv_open sv path of
        Inl e \<Rightarrow> ((f64_zero, f64_zero), Some e)
      | Inr f \<Rightarrow> (scan_avg10 f, snd (scan_file f)))"

definition GetNodePressure :: "sysview \<Rightarrow> nodepressure \<times> go_err option" where
  "GetNodePressure sv =
     (let np = \<lparr>np_MemorySomeAvg10 = f64_zero, np_MemoryFullAvg10 = f64_zero,
                np_CPUSomeAvg10 = f64_zero, np_IOSomeAvg10 = f64_zero, np_IOFullAvg10 = f64_zero\<rparr>;
          ((ms, mf), err) = parsePSIAvg10 sv ''/proc/pressure/memory'';
          np = np\<lparr>np_MemorySomeAvg10 := ms, np_MemoryFullAvg10 := mf\<rparr>
      in case err of Some e \<Rightarrow> (np, Some (Errorf ''memory pressure: %w'' [] (Some e))) | None \<Rightarrow>
     (let ((cs, _), err) = parsePSIAvg10 sv ''/proc/pressure/cpu'';
          np = np\<lparr>np_CPUSomeAvg10 := cs\<rparr>
      in case err of Some e \<Rightarrow> (np, Some (Errorf ''cpu pressure: %w'' [] (Some e))) | None \<Rightarrow>
     (let ((ios, iof), err) = parsePSIAvg10 sv ''/proc/pressure/io'';
          np = np\<lparr>np_IOSomeAvg10 := ios, np_IOFullAvg10 := iof\<rparr>
      in case err of Some e \<Rightarrow> (np, Some (Errorf ''io pressure: %w'' [] (Some e)))
       | None \<Rightarrow> (np, None))))"

subsection \<open>Memory events of a pod\<close>

record podmemevents =
  me_PodUID :: string
  me_CgPath :: string
  me_Low :: uint64
  me_High :: uint64
  me_Max :: uint64
  me_OOM :: uint64
  me_OOMKill :: uint64

definition mem_set :: "string \<Rightarrow> uint64 \<Rightarrow> podmemevents \<Rightarrow> podmemevents" where
  "mem_set k v ev =
     (if k = ''low'' then ev\<lparr>me_Low := v\<rparr>
      else if k = ''high'' then ev\<lparr>me_High := v\<rparr>
      else if k = ''max'' then ev\<lparr>me_Max := v\<rparr>
      else if k = ''oom'' then ev\<lparr>me_OOM := v\<rparr>
      else if k = ''oom_kill'' then ev\<lparr>me_OOMKill := v\<rparr>
      else ev)"

text \<open>
  The five results are assigned to the fields of \<open>ev\<close> in any case; they are zero when the
  file cannot be opened, as in the fresh \<open>ev\<close>.
\<close>

definition parseMemoryEvents :: "sysview \<Rightarrow> string \<Rightarrow> podmemevents \<Rightarrow> podmemevents \<times> go_err option" where
  "parseMemoryEvents sv path ev =
     (let ev0 = ev\<lparr>me_Low := 0, me_High := 0, me_Max := 0, me_OOM := 0, me_OOMKill := 0\<rparr> in
      case sv_open sv path of
        Inl e \<Rightarrow> (ev0, Some e)
      | Inr f \<Rightarrow> (scan_fold count_line mem_set ev0 (scan_lines f), snd (scan_file f)))"

definition GetPodMemEvents :: "sysview \<Rightarrow> string \<Rightarrow> podmemevents \<times> go_err option" where
  "GetPodMemEvents sv podUID =
     (let ev = \<lparr>me_PodUID = podUID, me_CgPath = [], me_Low = 0, me_High = 0, me_Max = 0,
                me_OOM = 0, me_OOMKill = 0\<rparr>
      in case pod_matches sv podUID of
           [] \<Rightarrow> (ev, Some (Errorf ''cgroup not found for pod %s'' [podUID] None))
         | cg # _ \<Rightarrow> parseMemoryEvents sv (path_Join [cg, ''memory.events'']) (ev\<lparr>me_CgPath := cg\<rparr>))"

subsection \<open>Pressure files\<close>

definition avg10_upd :: "string \<Rightarrow> (string \<times> string) option \<Rightarrow> f64 \<times> f64 \<Rightarrow> f64 \<times> f64" where
  "avg10_upd kind r sf =
     (case r of None \<Rightarrow> sf | Some (k, v) \<Rightarrow>
        if k = ''avg10'' then psi_pair_set kind (ParseFloat_val v) sf else sf)"

lemma fold_avg10: "fold (avg10_field kind) kvs sf = fold (avg10_upd kind) (map eq_field kvs) sf"
  by (induction kvs arbitrary: sf)
    (auto simp: avg10_field_def avg10_upd_def psi_pair_set_def split: option.splits)

lemma avg10_line_psi:
  assumes "psi_ok r" and "token kind"
  shows "avg10_line (psi_line kind r) sf = psi_pair_set kind (cent_val (avg10_c r)) sf"
proof -
  have len: "length (psi_fields r) = 4" by (simp add: psi_fields_def)
  have "fold (avg10_field kind) (psi_fields r) sf = psi_pair_set kind (cent_val (avg10_c r)) sf"
    unfolding fold_avg10 eq_fields_psi using assms by (simp add: avg10_upd_def ParseFloat_cent psi_ok_def)
  then show ?thesis using len assms(2) by (simp add: avg10_line_def Fields_psi_line)
qed

lemma scan_avg10_file:
  assumes "psi_ok s" and "\<And>r. f = Some r \<Longrightarrow> psi_ok r"
  shows "scan_avg10 (psi_file s f, e) =
    (cent_val (avg10_c s), case f of None \<Rightarrow> f64_zero | Some r \<Rightarrow> cent_val (avg10_c r))"
  using assms psi_file_lines [of s f e]
  by (cases f) (simp_all add: scan_avg10_def scan_lines_def avg10_line_psi psi_pair_set_def)

interpretation kubelet_psi: psi_source scan_avg10
  by unfold_locales (rule scan_avg10_file)

lemma parsePSIAvg10_file:
  assumes "sv_open sv path = Inr (psi_file s f, e)" and "psi_ok s" and "\<And>r. f = Some r \<Longrightarrow> psi_ok r"
  shows "parsePSIAvg10 sv path = (scan_avg10 (psi_file s f, e), e)"
  using assms psi_file_lines [of s f e] by (simp add: parsePSIAvg10_def)

text \<open>GetNodePressure on the three files of /proc/pressure as the kernel writes them (cpu with or
  without a full line) reports no error and prints, with two decimals, the kernel's own
  ten-second averages.\<close>

theorem GetNodePressure_kernel:
  assumes "sv_open sv ''/proc/pressure/memory'' = Inr (psi_file ms (Some mf), None)"
    and "sv_open sv ''/proc/pressure/cpu'' = Inr (psi_file cs cf, None)"
    and "sv_open sv ''/proc/pressure/io'' = Inr (psi_file ios (Some iof), None)"
    and "list_all psi_ok [ms, mf, cs, ios, iof]" and "pred_option psi_ok cf"
  shows "\<exists>np. GetNodePressure sv = (np, None) \<and>
    map (fmt_f 2) [np_MemorySomeAvg10 np, np_MemoryFullAvg10 np, np_CPUSomeAvg10 np,
                   np_IOSomeAvg10 np, np_IOFullAvg10 np] =
    map (fixed_digits 2) [avg10_c ms, avg10_c mf, avg10_c cs, avg10_c ios, avg10_c iof]"
proof -
  have ok: "psi_ok ms" "psi_ok mf" "psi_ok cs" "psi_ok ios" "psi_ok iof" "\<And>r. cf = Some r \<Longrightarrow> psi_ok r"
    using assms(4,5) by auto
  have m: "parsePSIAvg10 sv ''/proc/pressure/memory'' = ((cent_val (avg10_c ms), cent_val (avg10_c mf)), None)"
    using parsePSIAvg10_file [OF assms(1) ok(1)] kubelet_psi.read10_file [OF ok(1), of "Some mf"] ok(2) by simp
  have i: "parsePSIAvg10 sv ''/proc/pressure/io'' = ((cent_val (avg10_c ios), cent_val (avg10_c iof)), None)"
    using parsePSIAvg10_file [OF assms(3) ok(4)] kubelet_psi.read10_file [OF ok(4), of "Some iof"] ok(5) by simp
  obtain x where c: "parsePSIAvg10 sv ''/proc/pressure/cpu'' = ((cent_val (avg10_c cs), x), None)"
    using parsePSIAvg10_file [OF assms(2) ok(3,6)] kubelet_psi.read10_file [OF ok(3,6)] by simp
  have "n \<le> 10000" if "psi_ok r" "n = avg10_c r" for n r using that by (simp add: psi_ok_def)
  then show ?thesis using ok by (simp add: GetNodePressure_def m i c fmt_cent)
qed

definition demo_pressure :: sysview where
  "demo_pressure = table_view
     [(''/proc/pressure/memory'', psi_file (fst demo_psi) (Some (snd demo_psi))),
      (''/proc/pressure/cpu'', psi_file (fst demo_psi) None),
      (''/proc/pressure/io'', psi_file (snd demo_psi) (Some (fst demo_psi)))] [] [] [] []"

lemma demo_pressure_open:
  "sv_open demo_pressure ''/proc/pressure/memory'' = Inr (psi_file (fst demo_psi) (Some (snd demo_psi)), None)"
  "sv_open demo_pressure ''/proc/pressure/cpu'' = Inr (psi_file (fst demo_psi) None, None)"
  "sv_open demo_pressure ''/proc/pressure/io'' = Inr (psi_file (snd demo_psi) (Some (fst demo_psi)), None)"
  by (simp_all add: demo_pressure_def table_view_def table_open_def)

theorem GetNodePressure_kernel_witness:
  "\<exists>np. GetNodePressure demo_pressure = (np, None) \<and>
    map (fmt_f 2) [np_MemorySomeAvg10 np, np_MemoryFullAvg10 np, np_CPUSomeAvg10 np,
                   np_IOSomeAvg10 np, np_IOFullAvg10 np] =
    [''12.34'', ''0.00'', ''12.34'', ''0.00'', ''12.34'']"
proof -
  have "list_all psi_ok [fst demo_psi, snd demo_psi, fst demo_psi, snd demo_psi, fst demo_psi]" by code_simp
  moreover have "map (fixed_digits 2) [avg10_c (fst demo_psi), avg10_c (snd demo_psi), avg10_c (fst demo_psi),
     avg10_c (snd demo_psi), avg10_c (fst demo_psi)] = [''12.34'', ''0.00'', ''12.34'', ''0.00'', ''12.34'']"
    by code_simp
  ultimately show ?thesis using GetNodePressure_kernel [OF demo_pressure_open] by simp
qed

text \<open>The first file that cannot be read decides the error, and later files are not read.\<close>

lemma GetNodePressure_error:
  "snd (parsePSIAvg10 sv ''/proc/pressure/memory'') = Some e \<Longrightarrow>
   snd (GetNodePressure sv) = Some (Errorf ''memory pressure: %w'' [] (Some e)) \<and>
   np_CPUSomeAvg10 (fst (GetNodePressure sv)) = f64_zero"
  by (auto simp: GetNodePressure_def Let_def split: prod.splits)

subsection \<open>Memory events\<close>

definition mem_get :: "string \<Rightarrow> podmemevents \<Rightarrow> uint64" where
  "mem_get k ev =
     (if k = ''low'' then me_Low ev else if k = ''high'' then me_High ev
      else if k = ''max'' then me_Max ev else if k = ''oom'' then me_OOM ev else me_OOMKill ev)"

definition mem_keys :: "string set" where
  "mem_keys = {''low'', ''high'', ''max'', ''oom'', ''oom_kill''}"

interpretation mem: keyed_scan mem_set mem_get "\<lambda>_ v. v" mem_keys
proof unfold_locales
  fix k v s assume "k \<in> mem_keys"
  then show "mem_get k (mem_set k v s) = v" by (auto simp: mem_keys_def mem_get_def mem_set_def)
next
  fix k k' :: string and v s assume "k \<in> mem_keys" "k' \<noteq> k"
  then show "mem_get k (mem_set k' v s) = mem_get k s"
    by (auto simp: mem_keys_def mem_get_def mem_set_def)
qed

lemma mem_set_frame: "me_PodUID (mem_set k v ev) = me_PodUID ev \<and> me_CgPath (mem_set k v ev) = me_CgPath ev"
  by (simp add: mem_set_def)

lemma mem_scan_frame:
  "me_PodUID (scan_fold p mem_set ev ls) = me_PodUID ev \<and> me_CgPath (scan_fold p mem_set ev ls) = me_CgPath ev"
  by (induction ls arbitrary: ev) (auto simp: mem_set_frame split: option.splits)

lemma mem_scan:
  assumes "kv_ok kvs" and "k \<in> mem_keys" and "mem_get k ev = 0"
  shows "mem_get k (scan_fold count_line mem_set ev (map kv_show kvs)) = get0 kvs k"
  using mem.look_scan [OF assms(2), of count_line ev "map kv_show kvs"] assms
  by (simp add: last_entry_counts get0_def split: option.splits)

definition events_of :: "string \<Rightarrow> string \<Rightarrow> (string \<times> uint64) list \<Rightarrow> podmemevents" where
  "events_of uid cg kvs = \<lparr>me_PodUID = uid, me_CgPath = cg, me_Low = get0 kvs ''low'',
     me_High = get0 kvs ''high'', me_Max = get0 kvs ''max'', me_OOM = get0 kvs ''oom'',
     me_OOMKill = get0 kvs ''oom_kill''\<rparr>"

lemma mem_eq: "me_PodUID a = me_PodUID b \<Longrightarrow> me_CgPath a = me_CgPath b \<Longrightarrow>
  (\<And>k. k \<in> mem_keys \<Longrightarrow> mem_get k a = mem_get k b) \<Longrightarrow> a = (b :: podmemevents)"
proof -
  assume a: "me_PodUID a = me_PodUID b" "me_CgPath a = me_CgPath b"
    "\<And>k. k \<in> mem_keys \<Longrightarrow> mem_get k a = mem_get k b"
  show "a = b"
    using a(1,2) a(3) [of "''low''"] a(3) [of "''high''"] a(3) [of "''max''"] a(3) [of "''oom''"]
      a(3) [of "''oom_kill''"]
    by (simp add: mem_keys_def mem_get_def)
qed

lemma parseMemoryEvents_file:
  assumes "sv_open sv path = Inr (kv_file kvs, e)" and "kv_ok kvs"
  shows "parseMemoryEvents sv path ev = (events_of (me_PodUID ev) (me_CgPath ev) kvs, e)"
proof -
  let ?ev0 = "ev\<lparr>me_Low := 0, me_High := 0, me_Max := 0, me_OOM := 0, me_OOMKill := 0\<rparr>"
  have z: "k \<in> mem_keys \<Longrightarrow> mem_get k ?ev0 = 0" for k by (auto simp: mem_get_def)
  have g: "k \<in> mem_keys \<Longrightarrow> mem_get k (events_of u c kvs) = get0 kvs k" for k u c
    by (auto simp: mem_get_def mem_keys_def events_of_def)
  have "scan_fold count_line mem_set ?ev0 (map kv_show kvs) = events_of (me_PodUID ev) (me_CgPath ev) kvs"
    by (rule mem_eq) (simp_all add: mem_scan_frame mem_scan [OF assms(2) _ z] g, simp_all add: events_of_def)
  then show ?thesis using assms by (simp add: parseMemoryEvents_def scan_lines_def kv_file_lines)
qed

definition kubelet_cg :: "sysview \<Rightarrow> string \<Rightarrow> string option" where
  "kubelet_cg sv uid = (let cg = me_CgPath (fst (GetPodMemEvents sv uid)) in if cg = [] then None else Some cg)"

lemma parseMemoryEvents_path: "me_CgPath (fst (parseMemoryEvents sv p ev)) = me_CgPath ev"
  by (simp add: parseMemoryEvents_def Let_def mem_scan_frame split: sum.splits)

interpretation kubelet_pod: pod_finder kubelet_cg
proof unfold_locales
  fix uid sv assume "uid_ok uid" "names_ok sv"
  then show "kubelet_cg sv uid = pod_first sv uid"
    using pod_matches_not_Nil [of uid sv]
    by (cases "pod_matches sv uid")
      (simp_all add: kubelet_cg_def GetPodMemEvents_def pod_first_def parseMemoryEvents_path)
qed

text \<open>GetPodMemEvents reports the counters of the memory.events file of the first directory of
  the pod below kubepods.slice, each counter the one of its own key (0 when the kernel does
  not write it), and no error.\<close>

theorem GetPodMemEvents_counters:
  assumes "pod_first sv uid = Some cg"
    and "sv_open sv (path_Join [cg, ''memory.events'']) = Inr (kv_file kvs, None)" and "kv_ok kvs"
  shows "GetPodMemEvents sv uid = (events_of uid cg kvs, None)"
  using assms parseMemoryEvents_file [OF assms(2,3)]
  by (auto simp: GetPodMemEvents_def pod_first_def split: list.splits)

lemma GetPodMemEvents_no_path:
  assumes "uid_ok uid" and "names_ok sv" and "me_CgPath (fst (GetPodMemEvents sv uid)) = []"
  shows "snd (GetPodMemEvents sv uid) = Some (Errorf ''cgroup not found for pod %s'' [uid] None)"
  using assms(3) pod_matches_not_Nil [OF assms(1,2)]
  by (cases "pod_matches sv uid") (simp_all add: GetPodMemEvents_def parseMemoryEvents_path)

text \<open>C13.
  For a UID without pattern characters, GetPodMemEvents fails to find a directory, and says so,
  exactly when no entry of kubepods.slice, or of a directory directly below it, contains "pod"
  followed by the UID as it was given.\<close>

theorem GetPodMemEvents_not_found:
  assumes "uid_ok uid" and "names_ok sv"
  shows "me_CgPath (fst (GetPodMemEvents sv uid)) = []
      \<and> snd (GetPodMemEvents sv uid) = Some (Errorf ''cgroup not found for pod %s'' [uid] None) \<longleftrightarrow>
    (\<forall>d \<in> set (slice_dirs sv). \<forall>n \<in> set (dir_names sv d). \<not> Contains n (''pod'' @ uid))"
  using kubelet_pod.find_none [OF assms] GetPodMemEvents_no_path [OF assms]
  by (auto simp: kubelet_cg_def Let_def split: if_splits)

theorem GetPodMemEvents_counters_witness:
  "GetPodMemEvents demo_slice ''u1'' =
   (\<lparr>me_PodUID = ''u1'', me_CgPath = ''/sys/fs/cgroup/kubepods.slice/burstable/podu1'', me_Low = 0,
     me_High = 7, me_Max = 2, me_OOM = 3, me_OOMKill = 1\<rparr>, None)"
proof -
  have "events_of ''u1'' ''/sys/fs/cgroup/kubepods.slice/burstable/podu1'' demo_events =
    \<lparr>me_PodUID = ''u1'', me_CgPath = ''/sys/fs/cgroup/kubepods.slice/burstable/podu1'', me_Low = 0,
     me_High = 7, me_Max = 2, me_OOM = 3, me_OOMKill = 1\<rparr>" by code_simp
  then show ?thesis
    using GetPodMemEvents_counters [OF demo_slice_pod demo_slice_files(1) demo_kv(1)] by simp
qed

theorem GetPodMemEvents_not_found_witness:
  "me_CgPath (fst (GetPodMemEvents demo_slice ''9d-0'')) = []
   \<and> snd (GetPodMemEvents demo_slice ''9d-0'') = Some (Errorf ''cgroup not found for pod %s'' [''9d-0''] None)"
proof -
  have none: "list_all (\<lambda>d. list_all (\<lambda>n. \<not> Contains n (''pod'' @ ''9d-0'')) (dir_names demo_slice d))
    (slice_dirs demo_slice)" by code_simp
  show ?thesis
    unfolding GetPodMemEvents_not_found [OF demo_uid(2) demo_slice_names]
    using none by (simp only: list_all_iff)
qed

end
