(* ===== verification/Metrics.thy ===== *)
theory Metrics
  imports Pod_Glob Proc
begin

text \<open>
  Package \<open>internal/metrics\<close> of kube-inspect: CPU throttling of a pod's cgroup and scheduler
  latency of its processes. Both are reported as ratios of 64-bit counters; their contract is
  the locale \<open>ratio_metric\<close>.
\<close>

subsection \<open>Data and ratios\<close>

record throttlestats =
  ts_PodUID :: string
  ts_CgPath :: string
  ts_NrPeriods :: uint64
  ts_NrThrottled :: uint64
  ts_ThrottledUS :: uint64
  ts_UsageUS :: uint64

definition ThrottleRatio :: "throttlestats \<Rightarrow> f64" where
  "ThrottleRatio t =
     (if ts_NrPeriods t = 0 then f64_zero
      else f64_div (f64_of_uint64 (ts_NrThrottled t)) (f64_of_uint64 (ts_NrPeriods t)))"

record schedstat =
  sc_PID :: int
  sc_Comm :: string
  sc_RuntimeNS :: uint64
  sc_WaitNS :: uint64
  sc_NrSwitches :: uint64

text \<open>The sum is one of \<open>uint64\<close>, so it wraps around.\<close>

definition WaitRatio :: "schedstat \<Rightarrow> f64" where
  "WaitRatio p =
     (let total = sc_WaitNS p + sc_RuntimeNS p in
      if total = 0 then f64_zero
      else f64_div (f64_of_uint64 (sc_WaitNS p)) (f64_of_uint64 total))"

record podperf =
  pr_PodUID :: string
  pr_Throttle :: throttlestats
  pr_Processes :: "schedstat list"

subsection \<open>Operations\<close>

definition metrics_findPodCgroup :: "sysview \<Rightarrow> string \<Rightarrow> go_err + string" where
  "metrics_findPodCgroup sv podUID =
     (case pod_matches sv podUID of
        [] \<Rightarrow> Inl (Errorf ''cgroup not found for pod %s'' [podUID] None)
      | d # _ \<Rightarrow> Inr d)"

definition throttle_zero :: throttlestats where
  "throttle_zero = \<lparr>ts_PodUID = [], ts_CgPath = [], ts_NrPeriods = 0, ts_NrThrottled = 0,
     ts_ThrottledUS = 0, ts_UsageUS = 0\<rparr>"

definition cpu_set :: "string \<Rightarrow> uint64 \<Rightarrow> throttlestats \<Rightarrow> throttlestats" where
  "cpu_set k v s =
     (if k = ''usage_usec'' then s\<lparr>ts_UsageUS := v\<rparr>
      else if k = ''nr_periods'' then s\<lparr>ts_NrPeriods := v\<rparr>
      else if k = ''nr_throttled'' then s\<lparr>ts_NrThrottled := v\<rparr>
      else if k = ''throttled_usec'' then s\<lparr>ts_ThrottledUS := v\<rparr>
      else s)"

definition parseCPUStat :: "sysview \<Rightarrow> string \<Rightarrow> throttlestats \<times> go_err option" where
  "parseCPUStat sv path =
     (case sv_open sv path of
        Inl e \<Rightarrow> (throttle_zero, Some e)
      | Inr f \<Rightarrow> (scan_fold count_line cpu_set throttle_zero (scan_lines f), snd (scan_file f)))"

text \<open>The membership test of this package reads the whole cgroup file, not only its v2 line.\<close>

definition pod_pid :: "sysview \<Rightarrow> string \<Rightarrow> dirent \<Rightarrow> int option" where
  "pod_pid sv podUID e =
     (case Atoi_ok (de_name e) of
        None \<Rightarrow> None
      | Some pid \<Rightarrow>
          (case os_ReadFile sv (proc_path pid ''cgroup'') of
             Inl _ \<Rightarrow> None
           | Inr s \<Rightarrow>
               if Contains s (''pod'' @ podUID) \<or> Contains s (RemoveAll podUID CHR ''-'')
               then Some pid else None))"

definition podPIDs :: "sysview \<Rightarrow> string \<Rightarrow> int list" where
  "podPIDs sv podUID = List.map_filter (pod_pid sv podUID) (fst (os_ReadDir sv ''/proc''))"

definition parseSchedStat :: "sysview \<Rightarrow> int \<Rightarrow> go_err + schedstat" where
  "parseSchedStat sv pid =
     (case os_ReadFile sv (proc_path pid ''schedstat'') of
        Inl e \<Rightarrow> Inl e
      | Inr data \<Rightarrow>
          (let fields = Fields (TrimSpace data) in
           if length fields < 3 then Inl (Errorf ''unexpected schedstat format'' [] None)
           else Inr \<lparr>sc_PID = pid,
                     sc_Comm = (case os_ReadFile sv (proc_path pid ''comm'') of
                                  Inl _ \<Rightarrow> ''(unknown)'' | Inr cb \<Rightarrow> TrimSpace cb),
                     sc_RuntimeNS = ParseUint_val (fields ! 0) 10,
                     sc_WaitNS = ParseUint_val (fields ! 1) 10,
                     sc_NrSwitches = ParseUint_val (fields ! 2) 10\<rparr>))"

definition GetPodPerfReport :: "sysview \<Rightarrow> string \<Rightarrow> podperf \<times> go_err option" where
  "GetPodPerfReport sv podUID =
     (let report = \<lparr>pr_PodUID = podUID, pr_Throttle = throttle_zero, pr_Processes = []\<rparr> in
      case metrics_findPodCgroup sv podUID of
        Inl e \<Rightarrow> (report, Some e)
      | Inr cgPath \<Rightarrow>
          (case parseCPUStat sv (path_Join [cgPath, ''cpu.stat'']) of
             (_, Some e) \<Rightarrow> (report, Some (Errorf ''cpu.stat: %w'' [] (Some e)))
           | (ts, None) \<Rightarrow>
               (report\<lparr>pr_Throttle := ts\<lparr>ts_PodUID := podUID, ts_CgPath := cgPath\<rparr>,
                  pr_Processes := List.map_filter
                    (\<lambda>pid. case parseSchedStat sv pid of Inl _ \<Rightarrow> None | Inr ps \<Rightarrow> Some ps)
                    (podPIDs sv podUID)\<rparr>, None)))"

subsection \<open>The contract of a ratio\<close>

locale ratio_metric =
  fixes ratio :: "'s \<Rightarrow> f64" and part whole :: "'s \<Rightarrow> uint64"
  assumes ratio_zero: "whole s = 0 \<Longrightarrow> ratio s = f64_zero"
    and ratio_quot: "whole s \<noteq> 0 \<Longrightarrow> ratio s = f64_div (f64_of_uint64 (part s)) (f64_of_uint64 (whole s))"
begin

lemma between:
  assumes "unat (part s) \<le> unat (whole s)"
  shows "\<exists>q. ratio s = FFin False q \<and> 0 \<le> q \<and> q \<le> 1"
  using ratio_unit [OF assms] by (cases "whole s = 0") (auto simp: ratio_zero ratio_quot)

text \<open>As a percentage, what the tools print.\<close>

lemma percent:
  assumes "unat (part s) \<le> unat (whole s)"
  shows "f64_between 0 100 (f64_mul (ratio s) (FFin False 100))"
proof (cases "whole s = 0")
  case True
  then show ?thesis by (simp add: ratio_zero f64_between_def f64_round_def)
next
  case False
  then show ?thesis using ratio_percent [OF assms] by (simp add: ratio_quot)
qed

text \<open>A part equal to its whole is exactly 1, none of it exactly 0.\<close>

lemma full: "part s = whole s \<Longrightarrow> whole s \<noteq> 0 \<Longrightarrow> ratio s = FFin False 1"
proof -
  assume a: "part s = whole s" "whole s \<noteq> 0"
  then have "0 < unat (whole s)" by (simp add: unat_gt_0)
  then have "1 \<le> rnd (of_nat (unat (whole s)))" by (rule rnd_pos_nat)
  then have "rnd (of_nat (unat (whole s))) / rnd (of_nat (unat (whole s))) = 1" by simp
  moreover have "(1 :: rat) < 2 ^ 1024" by (rule one_less_power) auto
  ultimately show ?thesis using a \<open>1 \<le> rnd _\<close>
    by (auto simp: ratio_quot f64_of_uint64_eq f64_round_def Let_def)
qed

end

interpretation throttle: ratio_metric ThrottleRatio ts_NrThrottled ts_NrPeriods
  by unfold_locales (auto simp: ThrottleRatio_def)

interpretation wait: ratio_metric WaitRatio sc_WaitNS "\<lambda>p. sc_WaitNS p + sc_RuntimeNS p"
  by unfold_locales (auto simp: WaitRatio_def Let_def)

text \<open>ThrottleRatio is a fraction: with nr_throttled at most nr_periods, as the kernel counts
  them, it lies between 0 and 1 in spite of the rounding of both counters, and its percentage
  between 0 and 100.\<close>

theorem ThrottleRatio_bounds:
  assumes "unat (ts_NrThrottled t) \<le> unat (ts_NrPeriods t)"
  shows "(\<exists>q. ThrottleRatio t = FFin False q \<and> 0 \<le> q \<and> q \<le> 1) \<and>
    f64_between 0 100 (f64_mul (ThrottleRatio t) (FFin False 100))"
  using throttle.between [OF assms] throttle.percent [OF assms] by blast

theorem ThrottleRatio_bounds_witness:
  "\<exists>q. ThrottleRatio (throttle_zero\<lparr>ts_NrPeriods := 3, ts_NrThrottled := 1\<rparr>) = FFin False q \<and> 0 \<le> q \<and> q \<le> 1"
proof -
  have "unat (ts_NrThrottled (throttle_zero\<lparr>ts_NrPeriods := 3, ts_NrThrottled := 1\<rparr>)) \<le>
    unat (ts_NrPeriods (throttle_zero\<lparr>ts_NrPeriods := 3, ts_NrThrottled := 1\<rparr>))" by code_simp
  from ThrottleRatio_bounds [OF this] show ?thesis by blast
qed

text \<open>C31.
  WaitRatio is a fraction between 0 and 1 as long as the sum of the two counters does not
  wrap around (584 years of nanoseconds).\<close>

theorem WaitRatio_bounds:
  assumes "unat (sc_WaitNS p) + unat (sc_RuntimeNS p) < 2 ^ 64"
  shows "\<exists>q. WaitRatio p = FFin False q \<and> 0 \<le> q \<and> q \<le> 1"
proof -
  have "unat (sc_WaitNS p + sc_RuntimeNS p) = unat (sc_WaitNS p) + unat (sc_RuntimeNS p)"
    using assms by (subst unat_add_lem [THEN iffD1]) simp_all
  then show ?thesis by (intro wait.between) simp
qed

definition demo_sched :: schedstat where
  "demo_sched = \<lparr>sc_PID = 7, sc_Comm = ''nginx'', sc_RuntimeNS = 3000, sc_WaitNS = 1000, sc_NrSwitches = 12\<rparr>"

theorem WaitRatio_bounds_witness:
  "\<exists>q. WaitRatio demo_sched = FFin False q \<and> 0 \<le> q \<and> q \<le> 1"
proof -
  have "unat (sc_WaitNS demo_sched) + unat (sc_RuntimeNS demo_sched) < 2 ^ 64" by code_simp
  then show ?thesis by (rule WaitRatio_bounds)
qed

text \<open>Past the wrap-around the ratio is no fraction.\<close>

lemma WaitRatio_wraps:
  "f64_gt (WaitRatio (demo_sched\<lparr>sc_WaitNS := 18446744073709551615, sc_RuntimeNS := 2\<rparr>)) 1"
  by code_simp

subsection \<open>The processes of the report\<close>

lemma cgroup_lines_sublist: "Contains (cgroup_lines ls) w \<Longrightarrow> w \<noteq> [] \<Longrightarrow> \<exists>l \<in> set ls. Contains l w"
proof (induction ls)
  case (Cons l ls)
  show ?case
  proof (cases "HasPrefix l ''0::''")
    case True
    then have "Contains (TrimPrefix l ''0::'') w" using Cons.prems by (simp only: cgroup_lines.simps if_True)
    then show ?thesis using TrimPrefix_sublist sublist_order.order_trans by (metis list.set_intros(1))
  next
    case False
    then have "Contains (cgroup_lines ls) w" using Cons.prems by (simp only: cgroup_lines.simps if_False)
    with Cons show ?thesis by auto
  qed
qed simp

lemma in_pod_file:
  assumes "in_pod sv uid pid" and "uid \<noteq> []"
  shows "\<exists>data. os_ReadFile sv (proc_path pid ''cgroup'') = Inr data \<and> Contains data uid"
proof -
  obtain data where d: "os_ReadFile sv (proc_path pid ''cgroup'') = Inr data"
    "Contains (cgroup_lines (Split CHR 0x0A data)) uid"
    using assms by (auto simp: in_pod_def readCgroupV2Path_def split: sum.splits)
  from cgroup_lines_sublist [OF d(2) assms(2)] obtain l
    where "l \<in> set (Split CHR 0x0A data)" "Contains l uid" by blast
  then have "Contains data uid" using Split_sublist sublist_order.order_trans by blast
  with d show ?thesis by blast
qed

lemma RemoveAll_none: "c \<notin> set s \<Longrightarrow> RemoveAll s c = s"
  by (auto simp: RemoveAll_def filter_id_conv)

lemma pod_pid_iff:
  "pod_pid sv uid e = Some pid \<longleftrightarrow> Atoi_ok (de_name e) = Some pid \<and>
   (\<exists>s. os_ReadFile sv (proc_path pid ''cgroup'') = Inr s \<and>
     (Contains s (''pod'' @ uid) \<or> Contains s (RemoveAll uid CHR ''-'')))"
proof (cases "Atoi_ok (de_name e)")
  case (Some p)
  then show ?thesis
    by (cases "os_ReadFile sv (proc_path p ''cgroup'')") (auto simp: pod_pid_def)
qed (simp add: pod_pid_def)

lemma podPIDs_member:
  "pid \<in> set (podPIDs sv uid) \<longleftrightarrow>
   (\<exists>e \<in> set (fst (sv_dir sv ''/proc'')). Atoi_ok (de_name e) = Some pid) \<and>
   (\<exists>s. os_ReadFile sv (proc_path pid ''cgroup'') = Inr s \<and>
     (Contains s (''pod'' @ uid) \<or> Contains s (RemoveAll uid CHR ''-'')))"
  unfolding podPIDs_def set_map_filter pod_pid_iff os_ReadDir_set by blast


lemma demo_slice_procs: "\<exists>ps. ListPodProcesses demo_slice ''u1'' = Inr ps \<and> map p_PID ps = [7, 9]"
proof -
  have "case ListPodProcesses demo_slice ''u1'' of Inl _ \<Rightarrow> False | Inr ps \<Rightarrow> map p_PID ps = [7, 9]"
    by code_simp
  then show ?thesis by (auto split: sum.splits)
qed


text \<open>
  For a UID with dashes the second test looks for the UID without them, which no cgroup path
  of the systemd driver contains either: the process is in the pod and not in the report.
\<close>

lemma podPIDs_dashes:
  "podPIDs (table_view [(''/proc/7/cgroup'', ''0::/kubepods/burstable/1f-22/c0'' @ [CHR 0x0A])]
     [(''/proc'', [dir_entry ''7''])] [] [] []) ''1f-22'' = []"
  "in_pod (table_view [(''/proc/7/cgroup'', ''0::/kubepods/burstable/1f-22/c0'' @ [CHR 0x0A])]
     [(''/proc'', [dir_entry ''7''])] [] [] []) ''1f-22'' 7"
  by code_simp+

subsection \<open>The report\<close>

definition cpu_get :: "string \<Rightarrow> throttlestats \<Rightarrow> uint64" where
  "cpu_get k s =
     (if k = ''usage_usec'' then ts_UsageUS s else if k = ''nr_periods'' then ts_NrPeriods s
      else if k = ''nr_throttled'' then ts_NrThrottled s else ts_ThrottledUS s)"

definition cpu_keys :: "string set" where
  "cpu_keys = {''usage_usec'', ''nr_periods'', ''nr_throttled'', ''throttled_usec''}"

interpretation cpu: keyed_scan cpu_set cpu_get "\<lambda>_ v. v" cpu_keys
proof unfold_locales
  fix k v s assume "k \<in> cpu_keys"
  then show "cpu_get k (cpu_set k v s) = v" by (auto simp: cpu_keys_def cpu_get_def cpu_set_def)
next
  fix k k' :: string and v s assume "k \<in> cpu_keys" "k' \<noteq> k"
  then show "cpu_get k (cpu_set k' v s) = cpu_get k s"
    by (auto simp: cpu_keys_def cpu_get_def cpu_set_def)
qed

lemma cpu_scan_frame:
  "ts_PodUID (scan_fold p cpu_set s ls) = ts_PodUID s \<and> ts_CgPath (scan_fold p cpu_set s ls) = ts_CgPath s"
  by (induction ls arbitrary: s) (auto simp: cpu_set_def split: option.splits)

definition throttle_of :: "(string \<times> uint64) list \<Rightarrow> throttlestats" where
  "throttle_of kvs = \<lparr>ts_PodUID = [], ts_CgPath = [], ts_NrPeriods = get0 kvs ''nr_periods'',
     ts_NrThrottled = get0 kvs ''nr_throttled'', ts_ThrottledUS = get0 kvs ''throttled_usec'',
     ts_UsageUS = get0 kvs ''usage_usec''\<rparr>"

lemma parseCPUStat_file:
  assumes "sv_open sv path = Inr (kv_file kvs, e)" and "kv_ok kvs"
  shows "parseCPUStat sv path = (throttle_of kvs, e)"
proof -
  let ?r = "scan_fold count_line cpu_set throttle_zero (map kv_show kvs)"
  have g: "cpu_get k ?r = get0 kvs k" if "k \<in> cpu_keys" for k
    using cpu.look_scan [OF that, of count_line throttle_zero "map kv_show kvs"] that assms(2)
    by (auto simp: last_entry_counts get0_def cpu_get_def throttle_zero_def cpu_keys_def
        split: option.splits)
  have "?r = throttle_of kvs"
    using g [of "''usage_usec''"] g [of "''nr_periods''"] g [of "''nr_throttled''"]
      g [of "''throttled_usec''"] cpu_scan_frame [of count_line throttle_zero "map kv_show kvs"]
    by (simp add: cpu_keys_def cpu_get_def throttle_of_def throttle_zero_def)
  then show ?thesis using assms by (simp add: parseCPUStat_def scan_lines_def kv_file_lines)
qed

interpretation metrics_pod: pod_finder
  "\<lambda>sv uid. case metrics_findPodCgroup sv uid of Inl _ \<Rightarrow> None | Inr d \<Rightarrow> Some d"
  by unfold_locales (auto simp: metrics_findPodCgroup_def pod_first_def split: list.splits)

text \<open>C36.
  The report of a pod whose cpu.stat is as the kernel writes it: the counters are those of
  their own keys, and the processes are those of podPIDs, in order, whose schedstat has three
  fields; a process that vanished meanwhile is left out, not an error.\<close>

theorem GetPodPerfReport_kernel:
  assumes "metrics_findPodCgroup sv uid = Inr cg"
    and "sv_open sv (path_Join [cg, ''cpu.stat'']) = Inr (kv_file kvs, None)" and "kv_ok kvs"
  shows "GetPodPerfReport sv uid =
    (\<lparr>pr_PodUID = uid, pr_Throttle = (throttle_of kvs)\<lparr>ts_PodUID := uid, ts_CgPath := cg\<rparr>,
      pr_Processes = map (\<lambda>pid. projr (parseSchedStat sv pid))
        (filter (\<lambda>pid. \<not> isl (parseSchedStat sv pid)) (podPIDs sv uid))\<rparr>, None)"
proof -
  have "List.map_filter (\<lambda>pid. case parseSchedStat sv pid of Inl _ \<Rightarrow> None | Inr ps \<Rightarrow> Some ps) xs =
    map (\<lambda>pid. projr (parseSchedStat sv pid)) (filter (\<lambda>pid. \<not> isl (parseSchedStat sv pid)) xs)" for xs
    by (induction xs) (auto split: sum.splits)
  with parseCPUStat_file [OF assms(2,3)] assms(1) show ?thesis by (simp add: GetPodPerfReport_def)
qed

lemma demo_metrics_pod:
  "metrics_findPodCgroup demo_slice ''u1'' = Inr ''/sys/fs/cgroup/kubepods.slice/burstable/podu1''"
  by code_simp

theorem GetPodPerfReport_kernel_witness:
  "pr_Processes (fst (GetPodPerfReport demo_slice ''u1'')) = [demo_sched] \<and>
   ts_NrThrottled (pr_Throttle (fst (GetPodPerfReport demo_slice ''u1''))) = 50"
proof -
  have p: "map (\<lambda>pid. projr (parseSchedStat demo_slice pid))
    (filter (\<lambda>pid. \<not> isl (parseSchedStat demo_slice pid)) (podPIDs demo_slice ''u1'')) = [demo_sched]"
    by code_simp
  have t: "ts_NrThrottled (throttle_of demo_cpu) = 50" by code_simp
  show ?thesis
    using GetPodPerfReport_kernel [OF demo_metrics_pod demo_slice_files(2) demo_kv(2)] p t by simp
qed

end
