(* ===== verification/Sched.thy ===== *)
theory Sched
  imports Pod_Glob Proc
begin

text \<open>
  Package \<open>internal/sched\<close> of kube-inspect: cpuset and weight of a pod's cgroup and the CPU
  and NUMA affinity of its processes, one representative per distinct affinity.
\<close>

subsection \<open>Data and operations\<close>

record procaffinity =
  pa_PID :: int
  pa_Comm :: string
  pa_CpusAllowedList :: string
  pa_MemsAllowedList :: string

record podsched =
  si_PodUID :: string
  si_CgroupCPUs :: string
  si_CgroupMems :: string
  si_CPUWeight :: string
  si_CPUMax :: string
  si_ProcessAffinities :: "procaffinity list"

text \<open>The error of the first \<open>Glob\<close> is returned, that of the second is dropped.\<close>

definition cgroupPath :: "sysview \<Rightarrow> string \<Rightarrow> go_err + string" where
  "cgroupPath sv podUID =
     (case path_Glob sv (path_Join [kubepods_slice, ''*'', pod_pattern podUID]) of
        Inl e \<Rightarrow> Inl e
      | Inr ms \<Rightarrow>
          (case ms @ Glob_val sv (path_Join [kubepods_slice, pod_pattern podUID]) of
             [] \<Rightarrow> Inr [] | d # _ \<Rightarrow> Inr d))"

definition readCgroupFile :: "sysview \<Rightarrow> string \<Rightarrow> string" where
  "readCgroupFile sv path =
     (case os_ReadFile sv path of Inl _ \<Rightarrow> [] | Inr data \<Rightarrow> TrimSpace data)"

definition aff_set :: "string \<Rightarrow> string \<Rightarrow> procaffinity \<Rightarrow> procaffinity" where
  "aff_set k v pa =
     (if k = ''Name'' then pa\<lparr>pa_Comm := v\<rparr>
      else if k = ''Cpus_allowed_list'' then pa\<lparr>pa_CpusAllowedList := v\<rparr>
      else if k = ''Mems_allowed_list'' then pa\<lparr>pa_MemsAllowedList := v\<rparr>
      else pa)"

definition parseStatusAffinity :: "sysview \<Rightarrow> int \<Rightarrow> procaffinity" where
  "parseStatusAffinity sv pid =
     (let pa = \<lparr>pa_PID = pid, pa_Comm = [], pa_CpusAllowedList = [], pa_MemsAllowedList = []\<rparr> in
      case sv_open sv (proc_path pid ''status'') of
        Inl _ \<Rightarrow> pa
      | Inr f \<Rightarrow> scan_fold colon_line aff_set pa (scan_lines f))"

definition aff_key :: "procaffinity \<Rightarrow> string" where
  "aff_key pa = pa_CpusAllowedList pa @ CHR ''|'' # pa_MemsAllowedList pa"

text \<open>The loop with the map \<open>seen\<close>, from an empty map.\<close>

definition dedup_affinities :: "procaffinity list \<Rightarrow> procaffinity list" where
  "dedup_affinities pas = fst (first_come seen_mem seen_add aff_key (\<lambda>_. True) (\<lambda>_. False) pas)"

definition GetPodSchedInfo :: "sysview \<Rightarrow> string \<Rightarrow> podsched \<times> go_err option" where
  "GetPodSchedInfo sv podUID =
     (let info = \<lparr>si_PodUID = podUID, si_CgroupCPUs = [], si_CgroupMems = [], si_CPUWeight = [],
                  si_CPUMax = [], si_ProcessAffinities = []\<rparr> in
      case cgroupPath sv podUID of
        Inl e \<Rightarrow> (info, Some (Errorf ''cgroup lookup: %w'' [] (Some e)))
      | Inr cgPath \<Rightarrow>
          (let info = (if cgPath = [] then info else
                 info\<lparr>si_CgroupCPUs := readCgroupFile sv (path_Join [cgPath, ''cpuset.cpus'']),
                      si_CgroupMems := readCgroupFile sv (path_Join [cgPath, ''cpuset.mems'']),
                      si_CPUWeight := readCgroupFile sv (path_Join [cgPath, ''cpu.weight'']),
                      si_CPUMax := readCgroupFile sv (path_Join [cgPath, ''cpu.max''])\<rparr>) in
           case ListPodProcesses sv podUID of
             Inl e \<Rightarrow> (info, Some (Errorf ''listing processes: %w'' [] (Some e)))
           | Inr processes \<Rightarrow>
               (info\<lparr>si_ProcessAffinities :=
                  dedup_affinities (map (\<lambda>p. parseStatusAffinity sv (p_PID p)) processes)\<rparr>, None)))"

subsection \<open>The status file\<close>

definition aff_get :: "string \<Rightarrow> procaffinity \<Rightarrow> string" where
  "aff_get k pa =
     (if k = ''Name'' then pa_Comm pa else if k = ''Cpus_allowed_list'' then pa_CpusAllowedList pa
      else pa_MemsAllowedList pa)"

definition aff_keys :: "string set" where
  "aff_keys = {''Name'', ''Cpus_allowed_list'', ''Mems_allowed_list''}"

interpretation aff: keyed_scan aff_set aff_get "\<lambda>_ v. v" aff_keys
proof unfold_locales
  fix k v s assume "k \<in> aff_keys"
  then show "aff_get k (aff_set k v s) = v" by (auto simp: aff_keys_def aff_get_def aff_set_def)
next
  fix k k' :: string and v s assume "k \<in> aff_keys" "k' \<noteq> k"
  then show "aff_get k (aff_set k' v s) = aff_get k s"
    by (auto simp: aff_keys_def aff_get_def aff_set_def)
qed

lemma aff_scan_PID: "pa_PID (scan_fold p aff_set s ls) = pa_PID s"
  by (induction ls arbitrary: s) (auto simp: aff_set_def split: option.splits)

lemma parse_PID: "pa_PID (parseStatusAffinity sv pid) = pid"
  by (simp add: parseStatusAffinity_def Let_def aff_scan_PID split: sum.splits)

definition str0 :: "(string \<times> string) list \<Rightarrow> string \<Rightarrow> string" where
  "str0 kvs k = (case map_of kvs k of None \<Rightarrow> [] | Some v \<Rightarrow> v)"

text \<open>Round trip of the status file: on a file of lines "Key:<tab>value" with distinct keys,
  parseStatusAffinity delivers the values of Name, Cpus_allowed_list and Mems_allowed_list, and
  ignores every other line.\<close>

theorem parseStatusAffinity_file:
  assumes "sv_open sv (proc_path pid ''status'') = Inr (colon_file kvs, e)" and "colon_ok kvs"
  shows "parseStatusAffinity sv pid =
    \<lparr>pa_PID = pid, pa_Comm = str0 kvs ''Name'', pa_CpusAllowedList = str0 kvs ''Cpus_allowed_list'',
     pa_MemsAllowedList = str0 kvs ''Mems_allowed_list''\<rparr>"
proof -
  let ?pa = "\<lparr>pa_PID = pid, pa_Comm = [], pa_CpusAllowedList = [], pa_MemsAllowedList = []\<rparr>"
  let ?r = "scan_fold colon_line aff_set ?pa (map colon_show kvs)"
  have g: "aff_get k ?r = str0 kvs k" if "k \<in> aff_keys" for k
    using aff.look_scan [OF that, of colon_line ?pa "map colon_show kvs"] that assms(2)
    by (auto simp: last_entry_colon str0_def aff_get_def aff_keys_def split: option.splits)
  have "?r = \<lparr>pa_PID = pid, pa_Comm = str0 kvs ''Name'', pa_CpusAllowedList = str0 kvs ''Cpus_allowed_list'',
     pa_MemsAllowedList = str0 kvs ''Mems_allowed_list''\<rparr>"
    using g [of "''Name''"] g [of "''Cpus_allowed_list''"] g [of "''Mems_allowed_list''"]
      aff_scan_PID [of colon_line ?pa "map colon_show kvs"]
    by (simp add: aff_keys_def aff_get_def)
  then show ?thesis
    using assms by (simp add: parseStatusAffinity_def scan_lines_def colon_file_lines)
qed

definition demo_status :: "(string \<times> string) list" where
  "demo_status = [(''Name'', ''nginx: worker''), (''PPid'', ''1''), (''Cpus_allowed_list'', ''0-3''),
     (''Mems_allowed_list'', ''0'')]"

definition demo_sched_node :: sysview where
  "demo_sched_node = table_view
     [(''/proc/7/status'', colon_file demo_status), (''/proc/8/status'', colon_file (tl demo_status)),
      (''/proc/9/status'', ''Cpus_allowed_list: 2'' @ [CHR 0x0A]),
      (''/proc/7/cgroup'', ''0::/pod-u1''), (''/proc/8/cgroup'', ''0::/pod-u1''),
      (''/proc/9/cgroup'', ''0::/pod-u1'')]
     [(''/proc'', [dir_entry ''7'', dir_entry ''8'', dir_entry ''9''])] [] [] []"

lemma demo_status_open: "sv_open demo_sched_node (proc_path 7 ''status'') = Inr (colon_file demo_status, None)"
  by code_simp

theorem parseStatusAffinity_file_witness:
  "parseStatusAffinity demo_sched_node 7 = \<lparr>pa_PID = 7, pa_Comm = ''nginx: worker'',
     pa_CpusAllowedList = ''0-3'', pa_MemsAllowedList = ''0''\<rparr>"
proof -
  have "colon_ok demo_status" by code_simp
  moreover have "str0 demo_status ''Name'' = ''nginx: worker''"
    "str0 demo_status ''Cpus_allowed_list'' = ''0-3''" "str0 demo_status ''Mems_allowed_list'' = ''0''"
    by code_simp+
  ultimately show ?thesis using parseStatusAffinity_file [OF demo_status_open] by simp
qed

subsection \<open>One process per affinity\<close>

lemma aff_key_inj:
  "CHR ''|'' \<notin> set (pa_CpusAllowedList a) \<Longrightarrow> CHR ''|'' \<notin> set (pa_CpusAllowedList b) \<Longrightarrow>
   aff_key a = aff_key b \<Longrightarrow>
   pa_CpusAllowedList a = pa_CpusAllowedList b \<and> pa_MemsAllowedList a = pa_MemsAllowedList b"
  unfolding aff_key_def by (metis SplitN2_append list.inject)

definition affinity :: "procaffinity \<Rightarrow> string \<times> string" where
  "affinity pa = (pa_CpusAllowedList pa, pa_MemsAllowedList pa)"

lemma dedup_spec:
  assumes "\<forall>pa \<in> set pas. CHR ''|'' \<notin> set (pa_CpusAllowedList pa)"
  shows "distinct (map affinity (dedup_affinities pas)) \<and>
    affinity ` set (dedup_affinities pas) = affinity ` set pas \<and> subseq (dedup_affinities pas) pas"
proof -
  let ?r = "dedup_affinities pas"
  have sub: "subseq ?r pas" unfolding dedup_affinities_def by (rule seen.first_come_subseq)
  have set: "set ?r \<subseteq> set pas" unfolding dedup_affinities_def by (rule seen.first_come_subset)
  have keys: "distinct (map aff_key ?r)"
    using seen.first_come_distinct [of aff_key "\<lambda>_. True" "\<lambda>_. False" pas]
    by (simp add: dedup_affinities_def)
  have inj: "affinity a = affinity b" if "a \<in> set pas" "b \<in> set pas" "aff_key a = aff_key b" for a b
    unfolding affinity_def prod.inject
    by (rule aff_key_inj) (use assms that in blast)+
  have key: "aff_key a = aff_key b" if "affinity a = affinity b" for a b
    using that by (simp add: affinity_def aff_key_def)
  have "inj_on affinity (set ?r)"
  proof (rule inj_onI)
    fix a b assume "a \<in> set ?r" "b \<in> set ?r" "affinity a = affinity b"
    with keys key show "a = b" unfolding distinct_map by (meson inj_onD)
  qed
  then have "distinct (map affinity ?r)" using keys unfolding distinct_map by blast
  moreover have "affinity ` set pas \<subseteq> affinity ` set ?r"
  proof
    fix x assume "x \<in> affinity ` set pas"
    then obtain a where a: "a \<in> set pas" "x = affinity a" by blast
    then have "a \<in> set ?r \<or> aff_key a \<in> aff_key ` set ?r"
      using seen.first_come_covers [of a pas aff_key "\<lambda>_. True" "\<lambda>_. False"]
      by (auto simp: dedup_affinities_def seen_mem_def)
    then show "x \<in> affinity ` set ?r"
    proof
      assume "aff_key a \<in> aff_key ` set ?r"
      then obtain b where b: "b \<in> set ?r" "aff_key a = aff_key b" by blast
      then have "b \<in> set pas" using set by blast
      then have "affinity a = affinity b" using inj a(1) b(2) by blast
      with a(2) b(1) show ?thesis by simp
    qed (use a in simp)
  qed
  moreover have "affinity ` set ?r \<subseteq> affinity ` set pas" using set by (rule image_mono)
  ultimately show ?thesis using sub by blast
qed


interpretation sched_pod: pod_finder
  "\<lambda>sv uid. case cgroupPath sv uid of Inl _ \<Rightarrow> None | Inr d \<Rightarrow> if d = [] then None else Some d"
proof unfold_locales
  fix uid sv assume a: "uid_ok uid" "names_ok sv"
  have "cgroupPath sv uid = (case pod_matches sv uid of [] \<Rightarrow> Inr [] | d # _ \<Rightarrow> Inr d)"
    by (simp only: cgroupPath_def join_nested [OF a(1)] join_direct [OF a(1)] Glob_nested [OF a]
        Glob_val_def Glob_direct [OF a] pod_matches_eq [OF a] sum.case)
  then show "(case cgroupPath sv uid of Inl _ \<Rightarrow> None | Inr d \<Rightarrow> if d = [] then None else Some d) = pod_first sv uid"
    using pod_matches_not_Nil [OF a]
    by (cases "pod_matches sv uid") (simp_all add: pod_first_def)
qed

lemma demo_affinities: "map_prod (\<lambda>i. map pa_PID (si_ProcessAffinities i)) id (GetPodSchedInfo demo_sched_node ''u1'')
  = ([7, 9], None)"
  by code_simp


end
