(* ===== verification/Netns.thy ===== *)
theory Netns
  imports Formats Proc
begin

text \<open>
  Package \<open>internal/netns\<close> of kube-inspect: the interface counters of a pod, read from
  \<open>/proc/<pid>/net/dev\<close> of its first process.
\<close>

record netinterface =
  nif_Name :: string
  nif_RxBytes :: uint64
  nif_RxPackets :: uint64
  nif_RxErrors :: uint64
  nif_RxDropped :: uint64
  nif_TxBytes :: uint64
  nif_TxPackets :: uint64
  nif_TxErrors :: uint64
  nif_TxDropped :: uint64

text \<open>One line behind the two header lines; \<open>None\<close> is \<open>continue\<close>.\<close>

definition netdev_line :: "string \<Rightarrow> netinterface option" where
  "netdev_line line =
     (case Index line '':'' of
        None \<Rightarrow> None
      | Some colonIdx \<Rightarrow>
          (let name = TrimSpace (take colonIdx line);
               rest = TrimSpace (drop (colonIdx + 1) line);
               fields = Fields rest;
               parse = (\<lambda>s. ParseUint_val s 10)
           in if length fields < 16 then None
              else Some \<lparr>nif_Name = name,
                nif_RxBytes = parse (fields ! 0), nif_RxPackets = parse (fields ! 1),
                nif_RxErrors = parse (fields ! 2), nif_RxDropped = parse (fields ! 3),
                nif_TxBytes = parse (fields ! 8), nif_TxPackets = parse (fields ! 9),
                nif_TxErrors = parse (fields ! 10), nif_TxDropped = parse (fields ! 11)\<rparr>))"

definition readNetDev :: "sysview \<Rightarrow> int \<Rightarrow> go_err + netinterface list" where
  "readNetDev sv pid =
     (let path = proc_path pid ''net/dev'' in
      case sv_open sv path of
        Inl e \<Rightarrow> Inl (Errorf ''opening %s: %w'' [path] (Some e))
      | Inr f \<Rightarrow>
          (case scan_file f of
             (ls, Some e) \<Rightarrow> Inl (Errorf ''scanning %s: %w'' [path] (Some e))
           | (ls, None) \<Rightarrow> Inr (List.map_filter netdev_line (drop 2 ls))))"

text \<open>
  One error value for both failures: a failed listing is wrapped, and without processes the
  wrapped error is nil.
\<close>

definition ListPodInterfaces :: "sysview \<Rightarrow> string \<Rightarrow> go_err + netinterface list" where
  "ListPodInterfaces sv podUID =
     (case ListPodProcesses sv podUID of
        Inl e \<Rightarrow> Inl (Errorf ''no processes for pod %s: %w'' [podUID] (Some e))
      | Inr [] \<Rightarrow> Inl (Errorf ''no processes for pod %s: %w'' [podUID] None)
      | Inr (p # _) \<Rightarrow> readNetDev sv (p_PID p))"

subsection \<open>The file as the kernel writes it\<close>

text \<open>
  A row: blanks before the name, the name, and the sixteen counters with the blanks before
  each (the kernel pads to columns, so their number varies).
\<close>

record netrow =
  nr_pad :: nat
  nr_name :: string
  nr_cols :: "(nat \<times> uint64) list"

definition show_netrow :: "netrow \<Rightarrow> string" where
  "show_netrow r = replicate (nr_pad r) CHR '' '' @ nr_name r @ CHR '':''
     # padded (map (\<lambda>(p, v). (p, utoa (unat v))) (nr_cols r))"

definition netrow_ok :: "netrow \<Rightarrow> bool" where
  "netrow_ok r \<longleftrightarrow> token (nr_name r) \<and> CHR '':'' \<notin> set (nr_name r) \<and> length (nr_cols r) = 16
     \<and> line_ok (show_netrow r)"

definition iface_of :: "netrow \<Rightarrow> netinterface" where
  "iface_of r =
     (let c = (\<lambda>i. snd (nr_cols r ! i)) in
      \<lparr>nif_Name = nr_name r, nif_RxBytes = c 0, nif_RxPackets = c 1, nif_RxErrors = c 2,
       nif_RxDropped = c 3, nif_TxBytes = c 8, nif_TxPackets = c 9, nif_TxErrors = c 10,
       nif_TxDropped = c 11\<rparr>)"

definition netdev_file :: "string \<Rightarrow> string \<Rightarrow> netrow list \<Rightarrow> string" where
  "netdev_file h1 h2 rows = unlines (h1 # h2 # map show_netrow rows)"

lemma Index_colon: "c \<notin> set a \<Longrightarrow> Index (a @ c # b) [c] = Some (length a)"
  by (induction a) auto

lemma netdev_line_show:
  assumes "netrow_ok r"
  shows "netdev_line (show_netrow r) = Some (iface_of r)"
proof -
  let ?n = "replicate (nr_pad r) CHR '' '' @ nr_name r"
  let ?cols = "map (\<lambda>(p, v). (p, utoa (unat v))) (nr_cols r)"
  have name: "token (nr_name r)" "CHR '':'' \<notin> set (nr_name r)" "length (nr_cols r) = 16"
    using assms by (simp_all add: netrow_ok_def)
  have row: "show_netrow r = ?n @ CHR '':'' # padded ?cols" by (simp add: show_netrow_def)
  have idx: "Index (show_netrow r) '':'' = Some (length ?n)"
    unfolding row using name(2) by (intro Index_colon) auto
  have "take (length ?n) (show_netrow r) = ?n" "drop (length ?n + 1) (show_netrow r) = padded ?cols"
    unfolding row by simp_all
  moreover have "TrimSpace ?n = nr_name r"
    using name(1) by (simp add: TrimSpace_blanks TrimSpace_no_space token_def)
  moreover have "Fields (TrimSpace (padded ?cols)) = map snd ?cols"
    by (rule Fields_TrimSpace_padded) auto
  moreover have "map snd ?cols = map (\<lambda>(p, v). utoa (unat v)) (nr_cols r)"
    by (simp add: comp_def split_beta)
  ultimately show ?thesis
    using name(3) by (simp add: netdev_line_def idx iface_of_def split_beta)
qed

text \<open>Round trip of /proc/pid/net/dev: two header lines, then one row per interface in the
  kernel's columns. readNetDev returns one entry per row, in order, with the interface's name
  and its counters in the right fields (transmit columns start at the ninth).\<close>

theorem readNetDev_roundtrip:
  assumes "sv_open sv (proc_path pid ''net/dev'') = Inr (netdev_file h1 h2 rows, None)"
    and "line_ok h1" and "line_ok h2" and "list_all netrow_ok rows"
  shows "readNetDev sv pid = Inr (map iface_of rows)"
proof -
  have "scan_file (netdev_file h1 h2 rows, None) = (h1 # h2 # map show_netrow rows, None)"
    unfolding netdev_file_def
    by (rule scan_unlines) (use assms in \<open>auto simp: list_all_iff netrow_ok_def\<close>)
  moreover have "List.map_filter netdev_line (map show_netrow rows) = map iface_of rows"
    using assms(4) by (induction rows) (auto simp: netdev_line_show)
  ultimately show ?thesis using assms(1) by (simp add: readNetDev_def)
qed

definition demo_row :: netrow where
  "demo_row = \<lparr>nr_pad = 2, nr_name = ''eth0'', nr_cols = zip [3, 0, 2, 2, 1, 0, 0, 0, 5, 1, 0, 0, 0, 0, 0, 0]
     [1024, 12, 1, 2, 0, 0, 0, 0, 2048, 20, 3, 4, 0, 0, 0, 0]\<rparr>"

definition demo_netdev :: sysview where
  "demo_netdev = table_view [(''/proc/7/net/dev'', netdev_file ''Inter-|   Receive'' '' face |bytes'' [demo_row])]
     [] [] [] []"

lemma demo_netdev_open: "sv_open demo_netdev (proc_path 7 ''net/dev'') =
  Inr (netdev_file ''Inter-|   Receive'' '' face |bytes'' [demo_row], None)"
  by code_simp

theorem readNetDev_roundtrip_witness:
  "readNetDev demo_netdev 7 = Inr [\<lparr>nif_Name = ''eth0'', nif_RxBytes = 1024, nif_RxPackets = 12,
     nif_RxErrors = 1, nif_RxDropped = 2, nif_TxBytes = 2048, nif_TxPackets = 20, nif_TxErrors = 3,
     nif_TxDropped = 4\<rparr>]"
proof -
  have ok: "line_ok ''Inter-|   Receive''" "line_ok '' face |bytes''" "list_all netrow_ok [demo_row]"
    by code_simp+
  have "map iface_of [demo_row] = [\<lparr>nif_Name = ''eth0'', nif_RxBytes = 1024, nif_RxPackets = 12,
     nif_RxErrors = 1, nif_RxDropped = 2, nif_TxBytes = 2048, nif_TxPackets = 20, nif_TxErrors = 3,
     nif_TxDropped = 4\<rparr>]" by code_simp
  with readNetDev_roundtrip [OF demo_netdev_open ok] show ?thesis by (simp only:)
qed

text \<open>ListPodInterfaces reads the net/dev of a process of the pod whenever there is one; with no
  process its error wraps a nil error.\<close>

theorem ListPodInterfaces_cases:
  "(\<exists>pid. in_pod sv uid pid \<and> pid \<in> proc_pids sv \<and> ListPodInterfaces sv uid = readNetDev sv pid) \<or>
   ListPodInterfaces sv uid = Inl (Errorf ''no processes for pod %s: %w'' [uid] None)
     \<and> {pid \<in> proc_pids sv. in_pod sv uid pid} = {} \<or>
   (\<exists>e. ListPodProcesses sv uid = Inl e
     \<and> ListPodInterfaces sv uid = Inl (Errorf ''no processes for pod %s: %w'' [uid] (Some e)))"
proof (cases "ListPodProcesses sv uid")
  case (Inl e)
  then show ?thesis by (simp add: ListPodInterfaces_def)
next
  case (Inr ps)
  show ?thesis
  proof (cases ps)
    case Nil
    then show ?thesis using lp.list_empty [OF Inr] Inr by (auto simp: ListPodInterfaces_def)
  next
    case (Cons p qs)
    with Inr have "ListPodProcesses sv uid = Inr (p # qs)" by simp
    from lp.list_first [OF this] this show ?thesis by (auto simp: ListPodInterfaces_def)
  qed
qed

end
