(* ===== verification/Ebpf.thy ===== *)
theory Ebpf
  imports Formats Proc
begin

text \<open>
  Package \<open>internal/ebpf\<close> of kube-inspect: the BPF programs and maps that the processes of a
  pod hold open, found through \<open>/proc/<pid>/fdinfo\<close> and reported once per kernel object. Two
  \<open>seen\<close> maps run through the whole enumeration; an object with ID 0 (no ID in its fdinfo) is
  never taken for a duplicate.
\<close>

subsection \<open>Data\<close>

record bpfprog =
  bp_PID :: int
  bp_FD :: int
  bp_ProgType :: int
  bp_ProgID :: int
  bp_Tag :: string
  bp_Jited :: bool

record bpfmap =
  bm_PID :: int
  bm_FD :: int
  bm_MapType :: int
  bm_MapID :: int
  bm_KeySize :: int
  bm_ValueSize :: int
  bm_MaxEntries :: int

record bpfobjects =
  bo_Progs :: "bpfprog list"
  bo_Maps :: "bpfmap list"

definition progTypeName :: "(int \<times> string) list" where
  "progTypeName = [
     (0, ''UNSPEC''), (1, ''SOCKET_FILTER''), (2, ''KPROBE''), (3, ''SCHED_CLS''), (4, ''SCHED_ACT''),
     (5, ''TRACEPOINT''), (6, ''XDP''), (7, ''PERF_EVENT''), (8, ''CGROUP_SKB''), (9, ''CGROUP_SOCK''),
     (10, ''LWT_IN''), (11, ''LWT_OUT''), (12, ''LWT_XMIT''), (13, ''SOCK_OPS''), (14, ''SK_SKB''),
     (15, ''CGROUP_DEVICE''), (16, ''SK_MSG''), (17, ''RAW_TRACEPOINT''), (18, ''CGROUP_SOCK_ADDR''),
     (19, ''LWT_SEG6LOCAL''), (20, ''LIRC_MODE2''), (21, ''SK_REUSEPORT''), (22, ''FLOW_DISSECTOR''),
     (23, ''CGROUP_SYSCTL''), (24, ''RAW_TRACEPOINT_WRITABLE''), (25, ''CGROUP_SOCKOPT''),
     (26, ''TRACING''), (27, ''STRUCT_OPS''), (28, ''EXT''), (29, ''LSM''), (30, ''SK_LOOKUP''),
     (31, ''SYSCALL'')]"

definition mapTypeName :: "(int \<times> string) list" where
  "mapTypeName = [
     (0, ''UNSPEC''), (1, ''HASH''), (2, ''ARRAY''), (3, ''PROG_ARRAY''), (4, ''PERF_EVENT_ARRAY''),
     (5, ''PERCPU_HASH''), (6, ''PERCPU_ARRAY''), (7, ''STACK_TRACE''), (8, ''CGROUP_ARRAY''),
     (9, ''LRU_HASH''), (10, ''LRU_PERCPU_HASH''), (11, ''LPM_TRIE''), (12, ''ARRAY_OF_MAPS''),
     (13, ''HASH_OF_MAPS''), (14, ''DEVMAP''), (15, ''SOCKMAP''), (16, ''CPUMAP''), (17, ''XSKMAP''),
     (18, ''SOCKHASH''), (19, ''CGROUP_STORAGE''), (20, ''REUSEPORT_SOCKARRAY''),
     (21, ''PERCPU_CGROUP_STORAGE''), (22, ''QUEUE''), (23, ''STACK''), (24, ''SK_STORAGE''),
     (25, ''DEVMAP_HASH''), (26, ''STRUCT_OPS''), (27, ''RINGBUF''), (28, ''INODE_STORAGE''),
     (29, ''TASK_STORAGE''), (30, ''BLOOM_FILTER''), (31, ''USER_RINGBUF''),
     (32, ''CGROUP_STORAGE_PERCPU'')]"

definition ProgTypeName :: "int \<Rightarrow> string" where
  "ProgTypeName t = (case map_of progTypeName t of Some name \<Rightarrow> name | None \<Rightarrow> ''UNKNOWN'')"

definition MapTypeName :: "int \<Rightarrow> string" where
  "MapTypeName t = (case map_of mapTypeName t of Some name \<Rightarrow> name | None \<Rightarrow> ''UNKNOWN'')"

subsection \<open>One descriptor\<close>

definition str_set :: "string \<Rightarrow> string \<Rightarrow> (string \<rightharpoonup> string) \<Rightarrow> (string \<rightharpoonup> string)" where
  "str_set k v m = m(k \<mapsto> v)"

definition parseFDInfo :: "sysview \<Rightarrow> string \<Rightarrow> (string \<rightharpoonup> string) \<times> go_err option" where
  "parseFDInfo sv path =
     (case sv_open sv path of
        Inl e \<Rightarrow> (Map.empty, Some e)
      | Inr f \<Rightarrow> (scan_fold colon_line str_set Map.empty (scan_lines f), snd (scan_file f)))"

definition parseInt :: "(string \<rightharpoonup> string) \<Rightarrow> string \<Rightarrow> int" where
  "parseInt flds key =
     (case flds key of
        None \<Rightarrow> 0
      | Some s \<Rightarrow> (case Atoi s of (v, None) \<Rightarrow> v | (v, Some _) \<Rightarrow> 0))"

text \<open>What a descriptor is: a program, a map, or neither.\<close>

datatype bpfobj = Prog bpfprog | Map bpfmap

definition fd_object :: "sysview \<Rightarrow> int \<Rightarrow> string \<Rightarrow> bpfobj option" where
  "fd_object sv pid fdStr =
     (case Atoi fdStr of
        (_, Some _) \<Rightarrow> None
      | (fd, None) \<Rightarrow>
          (case parseFDInfo sv (path_Join [proc_path pid ''fdinfo'', fdStr]) of
             (_, Some _) \<Rightarrow> None
           | (flds, None) \<Rightarrow>
               if flds ''prog_type'' \<noteq> None then
                 Some (Prog \<lparr>bp_PID = pid, bp_FD = fd, bp_ProgType = parseInt flds ''prog_type'',
                   bp_ProgID = parseInt flds ''prog_id'',
                   bp_Tag = (case flds ''prog_tag'' of None \<Rightarrow> [] | Some t \<Rightarrow> t),
                   bp_Jited = (parseInt flds ''prog_jited'' \<noteq> 0)\<rparr>)
               else if flds ''map_type'' \<noteq> None then
                 Some (Map \<lparr>bm_PID = pid, bm_FD = fd, bm_MapType = parseInt flds ''map_type'',
                   bm_MapID = parseInt flds ''map_id'', bm_KeySize = parseInt flds ''key_size'',
                   bm_ValueSize = parseInt flds ''value_size'',
                   bm_MaxEntries = parseInt flds ''max_entries''\<rparr>)
               else None))"

definition the_prog :: "bpfobj \<Rightarrow> bpfprog option" where
  "the_prog x = (case x of Prog p \<Rightarrow> Some p | Map _ \<Rightarrow> None)"

definition the_map :: "bpfobj \<Rightarrow> bpfmap option" where
  "the_map x = (case x of Prog _ \<Rightarrow> None | Map m \<Rightarrow> Some m)"

text \<open>An unreadable \<open>fd\<close> directory is an exited process: no objects, and a nil error.\<close>

definition scanPIDFDs :: "sysview \<Rightarrow> int \<Rightarrow> bpfprog list \<times> bpfmap list" where
  "scanPIDFDs sv pid =
     (case os_ReadDir sv (proc_path pid ''fd'') of
        (_, Some _) \<Rightarrow> ([], [])
      | (entries, None) \<Rightarrow>
          (let objs = List.map_filter (\<lambda>e. fd_object sv pid (de_name e)) entries
           in (List.map_filter the_prog objs, List.map_filter the_map objs)))"

subsection \<open>All processes\<close>

definition nonzero :: "int \<Rightarrow> bool" where
  "nonzero k \<longleftrightarrow> k \<noteq> 0"

text \<open>The two inner loops of one process, on the \<open>seen\<close> maps and the result.\<close>

definition add_objects ::
  "bpfprog list \<times> bpfmap list \<Rightarrow> (int \<Rightarrow> bool) \<times> (int \<Rightarrow> bool) \<times> bpfobjects \<Rightarrow>
   (int \<Rightarrow> bool) \<times> (int \<Rightarrow> bool) \<times> bpfobjects" where
  "add_objects pm st =
     (let (progs, maps) = pm; (seenProgs, seenMaps, result) = st;
          (newp, seenProgs') = first_come seen_mem seen_add bp_ProgID nonzero seenProgs progs;
          (newm, seenMaps') = first_come seen_mem seen_add bm_MapID nonzero seenMaps maps
      in (seenProgs', seenMaps',
          result\<lparr>bo_Progs := bo_Progs result @ newp, bo_Maps := bo_Maps result @ newm\<rparr>))"

definition ListPodBPFObjects :: "sysview \<Rightarrow> string \<Rightarrow> go_err + bpfobjects" where
  "ListPodBPFObjects sv podUID =
     (case ListPodProcesses sv podUID of
        Inl e \<Rightarrow> Inl (Errorf ''listing pod processes: %w'' [] (Some e))
      | Inr processes \<Rightarrow>
          if processes = [] then Inl (Errorf ''no processes found for pod %s'' [podUID] None)
          else Inr (snd (snd (fold (\<lambda>p. add_objects (scanPIDFDs sv (p_PID p))) processes
                 (\<lambda>_. False, \<lambda>_. False, \<lparr>bo_Progs = [], bo_Maps = []\<rparr>)))))"

subsection \<open>The type names\<close>

lemma map_of_table:
  assumes "map fst xs = [0..n]" and "distinct (map snd xs)" and "d \<notin> snd ` set xs"
  shows "(case map_of xs t of Some name \<Rightarrow> name | None \<Rightarrow> d) = d \<longleftrightarrow> t \<notin> {0..n}"
    and "t \<in> {0..n} \<Longrightarrow> u \<in> {0..n} \<Longrightarrow> map_of xs t = map_of xs u \<Longrightarrow> t = (u :: int)"
proof -
  have dom: "fst ` set xs = {0..n}" using assms(1) by (metis image_set set_upto)
  have none: "map_of xs t = None \<longleftrightarrow> t \<notin> {0..n}" for t
    using dom by (simp add: map_of_eq_None_iff)
  have in_set: "map_of xs t = Some v \<Longrightarrow> (t, v) \<in> set xs" for t v by (rule map_of_SomeD)
  show "(case map_of xs t of Some name \<Rightarrow> name | None \<Rightarrow> d) = d \<longleftrightarrow> t \<notin> {0..n}"
  proof (cases "map_of xs t")
    case (Some v)
    then have "v \<in> snd ` set xs" using in_set by force
    with Some none [of t] assms(3) show ?thesis by auto
  next
    case None
    with none [of t] show ?thesis by simp
  qed
  show "t = u" if tu: "t \<in> {0..n}" "u \<in> {0..n}" and eq: "map_of xs t = map_of xs u"
  proof -
    obtain v where "map_of xs t = Some v" "map_of xs u = Some v"
      using none [of t] tu eq by (cases "map_of xs t") auto
    then have "(t, v) \<in> set xs" "(u, v) \<in> set xs" using in_set by auto
    moreover have "inj_on snd (set xs)" using assms(2) by (simp add: distinct_map)
    ultimately have "(t, v) = (u, v)" by (intro inj_onD [of snd "set xs"]) simp_all
    then show ?thesis by simp
  qed
qed

text \<open>The name tables cover exactly the type numbers 0 to 31 for programs and 0 to 32 for maps;
  every other number is UNKNOWN, and no two numbers share a name.\<close>

theorem type_names:
  "(ProgTypeName t = ''UNKNOWN'' \<longleftrightarrow> t \<notin> {0..31}) \<and> (MapTypeName t = ''UNKNOWN'' \<longleftrightarrow> t \<notin> {0..32})
   \<and> inj_on ProgTypeName {0..31} \<and> inj_on MapTypeName {0..32}"
proof -
  have p: "map fst progTypeName = [0..31]" "distinct (map snd progTypeName)"
    "list_all (\<lambda>x. snd x \<noteq> ''UNKNOWN'') progTypeName" by code_simp+
  have m: "map fst mapTypeName = [0..32]" "distinct (map snd mapTypeName)"
    "list_all (\<lambda>x. snd x \<noteq> ''UNKNOWN'') mapTypeName" by code_simp+
  have pu: "''UNKNOWN'' \<notin> snd ` set progTypeName" and mu: "''UNKNOWN'' \<notin> snd ` set mapTypeName"
    using p(3) m(3) by (auto simp: list_all_iff)
  have some: "(case a of Some name \<Rightarrow> name | None \<Rightarrow> d) = (case b of Some name \<Rightarrow> name | None \<Rightarrow> d)
    \<Longrightarrow> (case a of Some name \<Rightarrow> name | None \<Rightarrow> d) \<noteq> d \<Longrightarrow> a = b" for a b and d :: string
    by (auto split: option.splits)
  have "inj_on ProgTypeName {0..31}"
  proof (rule inj_onI)
    fix t u assume tu: "t \<in> {0..31}" "u \<in> {0..31}" "ProgTypeName t = ProgTypeName u"
    then have "map_of progTypeName t = map_of progTypeName u"
      using some map_of_table(1) [OF p(1,2) pu] by (metis ProgTypeName_def)
    with map_of_table(2) [OF p(1,2) pu tu(1,2)] show "t = u" by blast
  qed
  moreover have "inj_on MapTypeName {0..32}"
  proof (rule inj_onI)
    fix t u assume tu: "t \<in> {0..32}" "u \<in> {0..32}" "MapTypeName t = MapTypeName u"
    then have "map_of mapTypeName t = map_of mapTypeName u"
      using some map_of_table(1) [OF m(1,2) mu] by (metis MapTypeName_def)
    with map_of_table(2) [OF m(1,2) mu tu(1,2)] show "t = u" by blast
  qed
  ultimately show ?thesis
    using map_of_table(1) [OF p(1,2) pu] map_of_table(1) [OF m(1,2) mu]
    unfolding ProgTypeName_def MapTypeName_def by blast
qed

subsection \<open>Descriptor files\<close>

interpretation fdinfo: keyed_scan_ext str_set "\<lambda>k m. m k" "\<lambda>_. Some" UNIV
  by unfold_locales (auto simp: str_set_def)

lemma parseFDInfo_file:
  assumes "sv_open sv path = Inr (colon_file kvs, e)" and "colon_ok kvs"
  shows "parseFDInfo sv path = (map_of kvs, e)"
proof -
  have "scan_fold colon_line str_set Map.empty (map colon_show kvs) k = map_of kvs k" for k
    using fdinfo.look_scan [of k colon_line Map.empty "map colon_show kvs"]
    by (simp add: last_entry_colon [OF assms(2)] split: option.splits)
  then show ?thesis using assms by (auto simp: parseFDInfo_def scan_lines_def colon_file_lines)
qed

text \<open>The fdinfo of a program as \<open>bpf_prog_show_fdinfo\<close> writes it, after the common lines.\<close>

definition prog_fdinfo :: "(string \<times> string) list \<Rightarrow> bpfprog \<Rightarrow> (string \<times> string) list" where
  "prog_fdinfo common p = common @
     [(''prog_type'', itoa (bp_ProgType p)), (''prog_jited'', if bp_Jited p then ''1'' else ''0''),
      (''prog_tag'', bp_Tag p), (''prog_id'', itoa (bp_ProgID p))]"

lemma Atoi_digit: "Atoi ''1'' = (1, None)" "Atoi ''0'' = (0, None)"
  by code_simp+

text \<open>A descriptor whose fdinfo is that of a BPF program is reported as this program: type, ID,
  tag and JIT flag are read back, whatever other lines the file has.\<close>

theorem fd_object_prog:
  assumes "Atoi fdStr = (bp_FD p, None)"
    and "sv_open sv (path_Join [proc_path (bp_PID p) ''fdinfo'', fdStr]) =
      Inr (colon_file (prog_fdinfo common p), None)"
    and "colon_ok (prog_fdinfo common p)"
    and "int64_range (bp_ProgType p)" and "int64_range (bp_ProgID p)"
  shows "fd_object sv (bp_PID p) fdStr = Some (Prog p)"
proof -
  let ?m = "map_of (prog_fdinfo common p)"
  have d: "distinct (map fst (prog_fdinfo common p))" using assms(3) by (simp add: colon_ok_def)
  then have v: "?m ''prog_type'' = Some (itoa (bp_ProgType p))"
    "?m ''prog_jited'' = Some (if bp_Jited p then ''1'' else ''0'')"
    "?m ''prog_tag'' = Some (bp_Tag p)" "?m ''prog_id'' = Some (itoa (bp_ProgID p))"
    by (simp_all only: map_of_eq_Some_iff [OF d]) (simp_all add: prog_fdinfo_def)
  then have "parseInt ?m ''prog_type'' = bp_ProgType p" "parseInt ?m ''prog_id'' = bp_ProgID p"
    "(parseInt ?m ''prog_jited'' \<noteq> 0) = bp_Jited p"
    using assms(4,5) by (simp_all add: parseInt_def Atoi_itoa Atoi_digit)
  with v assms(1) parseFDInfo_file [OF assms(2,3)] show ?thesis by (simp add: fd_object_def)
qed

definition demo_prog :: bpfprog where
  "demo_prog = \<lparr>bp_PID = 7, bp_FD = 4, bp_ProgType = 6, bp_ProgID = 33, bp_Tag = ''a1b2'', bp_Jited = True\<rparr>"

definition demo_bpf :: sysview where
  "demo_bpf = table_view
     [(''/proc/7/fdinfo/4'', colon_file (prog_fdinfo [(''pos'', ''0'')] demo_prog)),
      (''/proc/7/fdinfo/5'', ''map_type: 1'' @ [CHR 0x0A] @ ''map_id: 9'' @ [CHR 0x0A]),
      (''/proc/8/fdinfo/4'', colon_file (prog_fdinfo [] demo_prog)),
      (''/proc/7/cgroup'', ''0::/pod-u1''), (''/proc/8/cgroup'', ''0::/pod-u1'')]
     [(''/proc'', [dir_entry ''7'', dir_entry ''8'']),
      (''/proc/7/fd'', [dir_entry ''4'', dir_entry ''5'', dir_entry ''x'']), (''/proc/8/fd'', [dir_entry ''4''])]
     [] [] []"

theorem fd_object_prog_witness: "fd_object demo_bpf 7 ''4'' = Some (Prog demo_prog)"
proof -
  have a: "Atoi ''4'' = (bp_FD demo_prog, None)" "colon_ok (prog_fdinfo [(''pos'', ''0'')] demo_prog)"
    "int64_range (bp_ProgType demo_prog)" "int64_range (bp_ProgID demo_prog)"
    "sv_open demo_bpf (path_Join [proc_path (bp_PID demo_prog) ''fdinfo'', ''4'']) =
      Inr (colon_file (prog_fdinfo [(''pos'', ''0'')] demo_prog), None)" "bp_PID demo_prog = 7"
    by code_simp+
  from fd_object_prog [OF a(1,5,2,3,4)] a(6) show ?thesis by (simp only:)
qed

subsection \<open>One report per kernel object\<close>

lemma fold_add_objects:
  "fold (\<lambda>p. add_objects (scan p)) ps (sp, sm, r) =
   (let fp = first_come seen_mem seen_add bp_ProgID nonzero sp (concat (map (\<lambda>p. fst (scan p)) ps));
        fm = first_come seen_mem seen_add bm_MapID nonzero sm (concat (map (\<lambda>p. snd (scan p)) ps))
    in (snd fp, snd fm, r\<lparr>bo_Progs := bo_Progs r @ fst fp, bo_Maps := bo_Maps r @ fst fm\<rparr>))"
proof (induction ps arbitrary: sp sm r)
  case (Cons p ps)
  then show ?case
    by (simp add: add_objects_def Let_def seen.first_come_append split: prod.splits)
qed simp

lemma first_come_ids:
  assumes "ys = fst (first_come seen_mem seen_add key nonzero (\<lambda>_. False) xs)"
  shows "distinct (filter nonzero (map key ys)) \<and> set ys \<subseteq> set xs \<and> key ` set ys = key ` set xs
    \<and> {x \<in> set xs. key x = 0} \<subseteq> set ys"
proof -
  have "filter nonzero (map key ys) = map key (filter (\<lambda>x. nonzero (key x)) ys)"
    by (simp add: filter_map comp_def)
  then have d: "distinct (filter nonzero (map key ys))"
    using seen.first_come_distinct [of key nonzero "\<lambda>_. False" xs] assms by simp
  have sub: "set ys \<subseteq> set xs" using seen.first_come_subset assms by simp
  have cov: "x \<in> set xs \<Longrightarrow> x \<in> set ys \<or> key x \<noteq> 0 \<and> key x \<in> key ` set ys" for x
    using seen.first_come_covers [of x xs key nonzero "\<lambda>_. False"] assms
    by (auto simp: seen_mem_def nonzero_def)
  then have "key ` set xs \<subseteq> key ` set ys" by blast
  moreover have "{x \<in> set xs. key x = 0} \<subseteq> set ys" using cov by blast
  ultimately show ?thesis using d sub by blast
qed

definition pod_progs :: "sysview \<Rightarrow> string \<Rightarrow> bpfprog set" where
  "pod_progs sv uid = (\<Union>pid \<in> {pid \<in> proc_pids sv. in_pod sv uid pid}. set (fst (scanPIDFDs sv pid)))"

definition pod_maps :: "sysview \<Rightarrow> string \<Rightarrow> bpfmap set" where
  "pod_maps sv uid = (\<Union>pid \<in> {pid \<in> proc_pids sv. in_pod sv uid pid}. set (snd (scanPIDFDs sv pid)))"

text \<open>C7.
  ListPodBPFObjects reports the BPF programs and maps of all processes of the pod, each kernel
  object once: no nonzero ID occurs twice, every ID that some process holds is reported, and
  objects without an ID are all kept.\<close>

theorem ListPodBPFObjects_once:
  assumes "ListPodBPFObjects sv uid = Inr r"
  shows "distinct (filter nonzero (map bp_ProgID (bo_Progs r))) \<and>
    distinct (filter nonzero (map bm_MapID (bo_Maps r))) \<and>
    set (bo_Progs r) \<subseteq> pod_progs sv uid \<and> set (bo_Maps r) \<subseteq> pod_maps sv uid \<and>
    bp_ProgID ` set (bo_Progs r) = bp_ProgID ` pod_progs sv uid \<and>
    bm_MapID ` set (bo_Maps r) = bm_MapID ` pod_maps sv uid \<and>
    {p \<in> pod_progs sv uid. bp_ProgID p = 0} \<subseteq> set (bo_Progs r) \<and>
    {m \<in> pod_maps sv uid. bm_MapID m = 0} \<subseteq> set (bo_Maps r)"
proof -
  obtain ps where ps: "ListPodProcesses sv uid = Inr ps"
    and r: "r = snd (snd (fold (\<lambda>p. add_objects (scanPIDFDs sv (p_PID p))) ps
                 (\<lambda>_. False, \<lambda>_. False, \<lparr>bo_Progs = [], bo_Maps = []\<rparr>)))"
    using assms by (auto simp: ListPodBPFObjects_def split: sum.splits if_splits)
  let ?P = "concat (map (\<lambda>p. fst (scanPIDFDs sv (p_PID p))) ps)"
  let ?M = "concat (map (\<lambda>p. snd (scanPIDFDs sv (p_PID p))) ps)"
  have "bo_Progs r = fst (first_come seen_mem seen_add bp_ProgID nonzero (\<lambda>_. False) ?P)"
    "bo_Maps r = fst (first_come seen_mem seen_add bm_MapID nonzero (\<lambda>_. False) ?M)"
    unfolding r fold_add_objects by (simp_all add: Let_def)
  note ids = first_come_ids [OF this(1)] first_come_ids [OF this(2)]
  have "set ?P = pod_progs sv uid"
    unfolding pod_progs_def by (rule lp.list_collect [OF ps, of "\<lambda>pid. fst (scanPIDFDs sv pid)"])
  moreover have "set ?M = pod_maps sv uid"
    unfolding pod_maps_def by (rule lp.list_collect [OF ps, of "\<lambda>pid. snd (scanPIDFDs sv pid)"])
  ultimately show ?thesis using ids by (intro conjI) (simp_all only: simp_thms)
qed

theorem ListPodBPFObjects_once_witness:
  "\<exists>r. ListPodBPFObjects demo_bpf ''u1'' = Inr r \<and> map bp_ProgID (bo_Progs r) = [33] \<and>
    map bm_MapID (bo_Maps r) = [9] \<and> bp_ProgID ` pod_progs demo_bpf ''u1'' = {33}"
proof -
  have "case ListPodBPFObjects demo_bpf ''u1'' of Inl _ \<Rightarrow> False
    | Inr r \<Rightarrow> map bp_ProgID (bo_Progs r) = [33] \<and> map bm_MapID (bo_Maps r) = [9]" by code_simp
  then obtain r where r: "ListPodBPFObjects demo_bpf ''u1'' = Inr r" "map bp_ProgID (bo_Progs r) = [33]"
    "map bm_MapID (bo_Maps r) = [9]" by (auto split: sum.splits)
  have "bp_ProgID ` set (bo_Progs r) = bp_ProgID ` pod_progs demo_bpf ''u1''"
    using ListPodBPFObjects_once [OF r(1)] by (elim conjE)
  moreover have "bp_ProgID ` set (bo_Progs r) = set (map bp_ProgID (bo_Progs r))"
    by (simp only: list.set_map)
  ultimately have "bp_ProgID ` pod_progs demo_bpf ''u1'' = {33}"
    by (simp only: r(2) list.set)
  with r show ?thesis by (intro exI [of _ r] conjI)
qed

end
