(* ===== verification/Health.thy ===== *)
theory Health
  imports Go_IO
begin

text \<open>
  Package \<open>internal/health\<close> of kube-inspect: kernel release, taint flags, panic and watchdog
  settings and kdump state. A file that cannot be read counts as empty, an empty or
  malformed number as 0.
\<close>

unbundle bit_operations_syntax

subsection \<open>Data\<close>

record taintbit =
  tb_Bit :: nat
  tb_Code :: string
  tb_Meaning :: string

definition mk_taint :: "nat \<Rightarrow> string \<Rightarrow> string \<Rightarrow> taintbit" where
  "mk_taint b c m = \<lparr>tb_Bit = b, tb_Code = c, tb_Meaning = m\<rparr>"

definition taintTable :: "taintbit list" where
  "taintTable = [
     mk_taint 0 ''P'' ''proprietary module'',
     mk_taint 1 ''F'' ''forced module load'',
     mk_taint 2 ''S'' ''CPU out of spec (overclocking, thermals, hw errata)'',
     mk_taint 3 ''R'' ''forced module rmmod'',
     mk_taint 4 ''M'' ''machine check error'',
     mk_taint 5 ''B'' ''bad page'',
     mk_taint 6 ''U'' ''userspace taint'',
     mk_taint 7 ''D'' ''kernel oops/BUG'',
     mk_taint 8 ''A'' ''ACPI table overridden'',
     mk_taint 9 ''W'' ''WARN_ON fired'',
     mk_taint 10 ''C'' ''staging driver'',
     mk_taint 11 ''I'' ''firmware workaround'',
     mk_taint 12 ''O'' ''out-of-tree module'',
     mk_taint 13 ''E'' ''unsigned module'',
     mk_taint 14 ''L'' ''soft lockup'',
     mk_taint 15 ''K'' ''livepatch'',
     mk_taint 16 ''X'' ''auxiliary taint'',
     mk_taint 17 ''T'' ''randstruct'',
     mk_taint 18 ''N'' ''test module'']"

record nodehealth =
  nh_Release :: string
  nh_TaintRaw :: int
  nh_ActiveTaints :: "taintbit list"
  nh_PanicTimeout :: int
  nh_PanicOnOops :: int
  nh_NMIWatchdog :: int
  nh_WatchdogThresh :: int
  nh_SoftlockupPanic :: int
  nh_KexecLoaded :: int
  nh_CrashKernel :: string

subsection \<open>Operations\<close>

definition readSysctl :: "sysview \<Rightarrow> string \<Rightarrow> string" where
  "readSysctl sv path =
     (case os_ReadFile sv path of Inl _ \<Rightarrow> [] | Inr data \<Rightarrow> TrimSpace data)"

definition readSysctlInt :: "sysview \<Rightarrow> string \<Rightarrow> int" where
  "readSysctlInt sv path = Atoi_val (readSysctl sv path)"

definition cmdlineParam :: "sysview \<Rightarrow> string \<Rightarrow> string" where
  "cmdlineParam sv param =
     (case os_ReadFile sv ''/proc/cmdline'' of
        Inl _ \<Rightarrow> []
      | Inr data \<Rightarrow>
          (case List.find (\<lambda>f. HasPrefix f (param @ ''='')) (Fields data) of
             None \<Rightarrow> []
           | Some f \<Rightarrow> TrimPrefix f (param @ ''='')))"

text \<open>\<open>taintRaw & (1 << t.Bit) != 0\<close>, on the two's complement of an \<open>int64\<close>.\<close>

definition active_taints :: "int \<Rightarrow> taintbit list" where
  "active_taints taintRaw = filter (\<lambda>t. taintRaw AND push_bit (tb_Bit t) 1 \<noteq> 0) taintTable"

definition GetNodeHealth :: "sysview \<Rightarrow> nodehealth" where
  "GetNodeHealth sv =
     (let taintRaw = readSysctlInt sv ''/proc/sys/kernel/tainted'' in
      \<lparr>nh_Release = readSysctl sv ''/proc/sys/kernel/osrelease'',
       nh_TaintRaw = taintRaw,
       nh_ActiveTaints = active_taints taintRaw,
       nh_PanicTimeout = readSysctlInt sv ''/proc/sys/kernel/panic'',
       nh_PanicOnOops = readSysctlInt sv ''/proc/sys/kernel/panic_on_oops'',
       nh_NMIWatchdog = readSysctlInt sv ''/proc/sys/kernel/nmi_watchdog'',
       nh_WatchdogThresh = readSysctlInt sv ''/proc/sys/kernel/watchdog_thresh'',
       nh_SoftlockupPanic = readSysctlInt sv ''/proc/sys/kernel/softlockup_panic'',
       nh_KexecLoaded = readSysctlInt sv ''/sys/kernel/kexec_crash_loaded'',
       nh_CrashKernel = cmdlineParam sv ''crashkernel''\<rparr>)"

subsection \<open>Taint flags\<close>

lemma and_bit: "(r AND push_bit n 1 \<noteq> 0) \<longleftrightarrow> bit r n" for r :: int
  by (simp add: and_exp_eq_0_iff_not_bit)

lemma taint_bits: "map tb_Bit taintTable = [0..<19]"
  by code_simp

lemma active_bits: "map tb_Bit (active_taints r) = filter (bit r) [0..<19]"
proof -
  have "map tb_Bit (filter (\<lambda>t. bit r (tb_Bit t)) ts) = filter (bit r) (map tb_Bit ts)" for ts
    by (induction ts) auto
  then show ?thesis unfolding active_taints_def and_bit taint_bits [symmetric] .
qed

lemma sum_bits: "0 \<le> r \<Longrightarrow> r < 2 ^ n \<Longrightarrow> sum_list (map (\<lambda>i. 2 ^ i) (filter (bit r) [0..<n])) = (r :: int)"
proof (induction n arbitrary: r)
  case (Suc n)
  let ?q = "r - (if bit r n then 2 ^ n else 0)"
  have t: "take_bit n r = r mod 2 ^ n" by (simp add: take_bit_eq_mod)
  have "r = 2 ^ n * of_bool (bit r n) + take_bit n r"
    using Suc.prems take_bit_Suc_from_most [of n r] by (simp add: take_bit_int_eq_self)
  then have q: "take_bit n r = ?q" by (cases "bit r n") simp_all
  have "sum_list (map (\<lambda>i. 2 ^ i) (filter (bit (take_bit n r)) [0..<n])) = take_bit n r"
    by (intro Suc.IH) (auto simp: take_bit_nonnegative take_bit_int_less_exp)
  moreover have "filter (bit (take_bit n r)) [0..<n] = filter (bit r) [0..<n]"
    by (intro filter_cong) (auto simp: bit_take_bit_iff)
  ultimately show ?case using q by simp
qed simp

text \<open>C32.
  The active taints are the table entries of exactly the bits that are set in the kernel's
  taint mask, in ascending order; a mask below 2^19 is the sum of the bits it lists, so no
  flag is lost or invented.\<close>

theorem GetNodeHealth_taints:
  assumes "0 \<le> nh_TaintRaw (GetNodeHealth sv)" and "nh_TaintRaw (GetNodeHealth sv) < 2 ^ 19"
  shows "map tb_Bit (nh_ActiveTaints (GetNodeHealth sv)) =
      filter (bit (nh_TaintRaw (GetNodeHealth sv))) [0..<19] \<and>
    sum_list (map (\<lambda>t. 2 ^ tb_Bit t) (nh_ActiveTaints (GetNodeHealth sv))) = nh_TaintRaw (GetNodeHealth sv)"
proof -
  let ?r = "nh_TaintRaw (GetNodeHealth sv)"
  have a: "nh_ActiveTaints (GetNodeHealth sv) = active_taints ?r"
    by (simp add: GetNodeHealth_def Let_def)
  have "map (\<lambda>t. 2 ^ tb_Bit t :: int) (active_taints ?r) = map (\<lambda>i. 2 ^ i) (map tb_Bit (active_taints ?r))"
    by simp
  then show ?thesis using sum_bits [OF assms] by (simp only: a active_bits)
qed

definition demo_health :: sysview where
  "demo_health = table_view
     [(''/proc/sys/kernel/tainted'', ''4609'' @ [CHR 0x0A]),
      (''/proc/sys/kernel/osrelease'', ''6.9.1'' @ [CHR 0x0A]),
      (''/proc/sys/kernel/panic'', ''-1'' @ [CHR 0x0A]),
      (''/proc/cmdline'', ''quiet crashkernel=256M ro crashkernel=512M'' @ [CHR 0x0A])] [] [] [] []"

theorem GetNodeHealth_taints_witness:
  "map tb_Code (nh_ActiveTaints (GetNodeHealth demo_health)) = [''P'', ''W'', ''O''] \<and>
   sum_list (map (\<lambda>t. 2 ^ tb_Bit t) (nh_ActiveTaints (GetNodeHealth demo_health))) = (4609 :: int)"
proof -
  have r: "nh_TaintRaw (GetNodeHealth demo_health) = 4609" by code_simp
  then have b: "0 \<le> nh_TaintRaw (GetNodeHealth demo_health)"
    "nh_TaintRaw (GetNodeHealth demo_health) < 2 ^ 19" by simp_all
  have "map tb_Code (nh_ActiveTaints (GetNodeHealth demo_health)) = [''P'', ''W'', ''O'']" by code_simp
  with GetNodeHealth_taints [OF b] r show ?thesis by simp
qed

text \<open>
  A taint file that cannot be read, or a mask with only bits of 19 and above, gives no active
  taint; in the first case the raw value is 0, which the tool prints as clean.
\<close>

lemma taints_unreadable:
  "os_ReadFile sv ''/proc/sys/kernel/tainted'' = Inl e \<Longrightarrow>
   nh_TaintRaw (GetNodeHealth sv) = 0 \<and> nh_ActiveTaints (GetNodeHealth sv) = []"
proof -
  assume "os_ReadFile sv ''/proc/sys/kernel/tainted'' = Inl e"
  then have "nh_TaintRaw (GetNodeHealth sv) = Atoi_val []"
    by (simp add: GetNodeHealth_def readSysctlInt_def readSysctl_def Let_def)
  moreover have "Atoi_val [] = 0" "active_taints 0 = []" by code_simp+
  moreover have "nh_ActiveTaints (GetNodeHealth sv) = active_taints (nh_TaintRaw (GetNodeHealth sv))"
    by (simp add: GetNodeHealth_def Let_def)
  ultimately show ?thesis by simp
qed

lemma taints_high_bits: "active_taints (2 ^ 19) = []"
  by code_simp

subsection \<open>Settings\<close>

lemma readSysctlInt_file:
  "os_ReadFile sv path = Inr (itoa i @ [CHR 0x0A]) \<Longrightarrow> int64_range i \<Longrightarrow> readSysctlInt sv path = i"
proof -
  assume a: "os_ReadFile sv path = Inr (itoa i @ [CHR 0x0A])" "int64_range i"
  have "token (itoa i)" by simp
  then have "TrimSpace (itoa i @ [CHR 0x0A]) = itoa i"
    by (intro TrimSpace_token_nl) (auto simp: token_def)
  with a show ?thesis by (simp add: readSysctlInt_def readSysctl_def Atoi_itoa)
qed

text \<open>cmdlineParam returns the value of the first "param=value" word of the kernel command line:
  whatever words come before it without that prefix, and whatever follows.\<close>

theorem cmdlineParam_first:
  assumes "os_ReadFile sv ''/proc/cmdline'' = Inr (unwords (pre @ (param @ ''='' @ v) # post))"
    and "\<forall>w \<in> set (pre @ (param @ ''='' @ v) # post). token w"
    and "\<forall>w \<in> set pre. \<not> HasPrefix w (param @ ''='')"
  shows "cmdlineParam sv param = v"
proof -
  have f: "Fields (unwords (pre @ (param @ ''='' @ v) # post)) = pre @ (param @ ''='' @ v) # post"
    using assms(2) by (rule Fields_unwords)
  have "List.find (\<lambda>f. HasPrefix f (param @ ''='')) (pre @ (param @ ''='' @ v) # post) = Some (param @ ''='' @ v)"
    using assms(3) by (induction pre) auto
  with f assms(1) TrimPrefix_append [of "param @ ''=''" v] show ?thesis by (simp add: cmdlineParam_def)
qed

theorem cmdlineParam_first_witness:
  "cmdlineParam (table_view [(''/proc/cmdline'', ''quiet crashkernel=256M ro'')] [] [] [] []) ''crashkernel'' = ''256M''"
proof (rule cmdlineParam_first [of _ "[''quiet'']" _ _ "[''ro'']"])
  show "os_ReadFile (table_view [(''/proc/cmdline'', ''quiet crashkernel=256M ro'')] [] [] [] []) ''/proc/cmdline'' =
    Inr (unwords ([''quiet''] @ (''crashkernel'' @ ''='' @ ''256M'') # [''ro'']))" by code_simp
  have "list_all token ([''quiet''] @ (''crashkernel'' @ ''='' @ ''256M'') # [''ro''])" by code_simp
  then show "\<forall>w \<in> set ([''quiet''] @ (''crashkernel'' @ ''='' @ ''256M'') # [''ro'']). token w"
    by (simp only: list_all_iff)
  show "\<forall>w \<in> set [''quiet'']. \<not> HasPrefix w (''crashkernel'' @ ''='')" by simp
qed

end
