(* ===== verification/Virt.thy ===== *)
theory Virt
  imports Formats Go_Fmt
begin

text \<open>
  Package \<open>internal/virt\<close> of kube-inspect: hypervisor detection, CPU steal time from two
  samples of \<open>/proc/stat\<close> one second apart, balloon and memory figures, virtio devices. The
  sleep between the samples is the step from one view of the system to the next; everything
  read after it is read from the second view.
\<close>

subsection \<open>Data\<close>

record virtiodevice =
  vd_Name :: string
  vd_Driver :: string
  vd_ID :: string

record virtreport =
  vr_Hypervisor :: string
  vr_IsVM :: bool
  vr_VCPUs :: nat
  vr_StealPct :: f64
  vr_StealAvg1min :: f64
  vr_BalloonPages :: uint64
  vr_BalloonBytes :: uint64
  vr_BalloonPct :: f64
  vr_MemAvailBytes :: uint64
  vr_MemTotalBytes :: uint64
  vr_VirtioDevices :: "virtiodevice list"
  vr_EPTEnabled :: bool
  vr_IOMMUActive :: bool
  vr_SRIOVVFs :: int

record cpustat =
  st_user :: uint64
  st_nice :: uint64
  st_system :: uint64
  st_idle :: uint64
  st_iowait :: uint64
  st_irq :: uint64
  st_softirq :: uint64
  st_steal :: uint64

subsection \<open>Hypervisor and CPUs\<close>

definition vendor_hypervisor :: "string \<Rightarrow> string option" where
  "vendor_hypervisor vendor =
     (if Contains vendor ''QEMU'' then Some (''KVM/QEMU ('' @ vendor @ '')'')
      else if Contains vendor ''VMware'' then Some (''VMware ('' @ vendor @ '')'')
      else if Contains vendor ''Xen'' then Some (''Xen ('' @ vendor @ '')'')
      else if Contains vendor ''Microsoft'' then Some (''Hyper-V ('' @ vendor @ '')'')
      else None)"

definition detectHypervisor :: "sysview \<Rightarrow> string \<times> bool" where
  "detectHypervisor sv =
     (case (case os_ReadFile sv ''/sys/class/dmi/id/sys_vendor'' of
              Inl _ \<Rightarrow> None | Inr data \<Rightarrow> vendor_hypervisor (TrimSpace data)) of
        Some h \<Rightarrow> (h, True)
      | None \<Rightarrow>
          if stat_ok sv ''/sys/bus/virtio'' then (''KVM (virtio bus detected)'', True)
          else (case sv_open sv ''/proc/cpuinfo'' of
            Inl _ \<Rightarrow> (''none (bare metal)'', False)
          | Inr f \<Rightarrow>
              if list_ex (\<lambda>l. Contains l ''hypervisor'') (scan_lines f)
              then (''KVM (CPUID hypervisor flag)'', True)
              else (''none (bare metal)'', False)))"

definition virt_countCPUs :: "sysview \<Rightarrow> nat" where
  "virt_countCPUs sv =
     length (filter (stat_isdir sv) (Glob_val sv ''/sys/devices/system/cpu/cpu[0-9]*''))"

subsection \<open>Steal time\<close>

definition cpustat_zero :: cpustat where
  "cpustat_zero = \<lparr>st_user = 0, st_nice = 0, st_system = 0, st_idle = 0, st_iowait = 0, st_irq = 0,
     st_softirq = 0, st_steal = 0\<rparr>"

definition cpu_line :: "string \<Rightarrow> cpustat option" where
  "cpu_line line =
     (if \<not> HasPrefix line ''cpu '' then None
      else let fs = Fields line; p = (\<lambda>i. ParseUint_val (fs ! i) 10) in
        if length fs < 9 then None
        else Some \<lparr>st_user = p 1, st_nice = p 2, st_system = p 3, st_idle = p 4, st_iowait = p 5,
                  st_irq = p 6, st_softirq = p 7, st_steal = p 8\<rparr>)"

definition readCPUStat :: "sysview \<Rightarrow> cpustat" where
  "readCPUStat sv =
     (case sv_open sv ''/proc/stat'' of
        Inl _ \<Rightarrow> cpustat_zero
      | Inr f \<Rightarrow> (case first_some cpu_line (scan_lines f) of None \<Rightarrow> cpustat_zero | Some s \<Rightarrow> s))"

definition cpu_total :: "cpustat \<Rightarrow> uint64" where
  "cpu_total s = st_user s + st_nice s + st_system s + st_idle s + st_iowait s + st_irq s
     + st_softirq s + st_steal s"

definition calcStealPct :: "cpustat \<Rightarrow> cpustat \<Rightarrow> f64" where
  "calcStealPct s1 s2 =
     (let stealDelta = st_steal s2 - st_steal s1;
          t1 = cpu_total s1; t2 = cpu_total s2; totalDelta = t2 - t1
      in if totalDelta = 0 then f64_zero
         else f64_mul (f64_div (f64_of_uint64 stealDelta) (f64_of_uint64 totalDelta)) (FFin False 100))"

subsection \<open>Memory\<close>

text \<open>The number of the first line with the prefix that has a second field.\<close>

definition kb_line :: "string \<Rightarrow> string \<Rightarrow> uint64 option" where
  "kb_line pre line =
     (if \<not> HasPrefix line pre then None
      else let fs = Fields line in
        if 2 \<le> length fs then Some (ParseUint_val (fs ! 1) 10) else None)"

definition readBalloon :: "sysview \<Rightarrow> uint64 \<times> uint64" where
  "readBalloon sv =
     (case sv_open sv ''/proc/meminfo'' of
        Inl _ \<Rightarrow> (0, 0)
      | Inr f \<Rightarrow>
          (case first_some (kb_line ''Balloon:'') (scan_lines f) of
             None \<Rightarrow> (0, 0)
           | Some kb \<Rightarrow> (let bytes = kb * 1024; pages = bytes div 4096 in (pages, bytes))))"

definition readMemField :: "sysview \<Rightarrow> string \<Rightarrow> uint64" where
  "readMemField sv pre =
     (case sv_open sv ''/proc/meminfo'' of
        Inl _ \<Rightarrow> 0
      | Inr f \<Rightarrow>
          (case first_some (kb_line pre) (scan_lines f) of None \<Rightarrow> 0 | Some kb \<Rightarrow> kb * 1024))"

subsection \<open>Virtio devices\<close>

definition virtio_device :: "sysview \<Rightarrow> string \<Rightarrow> dirent \<Rightarrow> virtiodevice option" where
  "virtio_device sv base e =
     (if \<not> IsDir e then None
      else let devPath = path_Join [base, de_name e] in
        Some \<lparr>vd_Name = de_name e,
          vd_Driver = (case sv_readlink sv (path_Join [devPath, ''driver'']) of
                         Inl _ \<Rightarrow> [] | Inr target \<Rightarrow> path_Base target),
          vd_ID = (case os_ReadFile sv (path_Join [devPath, ''device'']) of
                     Inl _ \<Rightarrow> [] | Inr data \<Rightarrow> TrimSpace data)\<rparr>)"

definition listVirtioDevices :: "sysview \<Rightarrow> virtiodevice list" where
  "listVirtioDevices sv =
     (let base = ''/sys/bus/virtio/devices'' in
      case os_ReadDir sv base of
        (_, Some _) \<Rightarrow> []
      | (entries, None) \<Rightarrow> List.map_filter (virtio_device sv base) entries)"

subsection \<open>The report\<close>

definition virt_Gather :: "sysview \<Rightarrow> sysview \<Rightarrow> virtreport" where
  "virt_Gather sv1 sv2 =
     (let (hyp, isVM) = detectHypervisor sv1;
          s1 = readCPUStat sv1; s2 = readCPUStat sv2;
          (pages, bytes) = readBalloon sv2;
          total = readMemField sv2 ''MemTotal:'';
          avail = readMemField sv2 ''MemAvailable:''
      in \<lparr>vr_Hypervisor = hyp, vr_IsVM = isVM, vr_VCPUs = virt_countCPUs sv1,
          vr_StealPct = calcStealPct s1 s2, vr_StealAvg1min = f64_zero,
          vr_BalloonPages = pages, vr_BalloonBytes = bytes,
          vr_BalloonPct =
            (if 0 < total \<and> 0 < bytes
             then f64_mul (f64_div (f64_of_uint64 bytes) (f64_of_uint64 total)) (FFin False 100)
             else f64_zero),
          vr_MemAvailBytes = avail, vr_MemTotalBytes = total,
          vr_VirtioDevices = listVirtioDevices sv2,
          vr_EPTEnabled =
            (case os_ReadFile sv2 ''/sys/module/kvm_intel/parameters/ept'' of
               Inl _ \<Rightarrow> False | Inr data \<Rightarrow> TrimSpace data = ''Y''),
          vr_IOMMUActive =
            (case os_ReadDir sv2 ''/sys/class/iommu'' of
               (_, Some _) \<Rightarrow> False | (entries, None) \<Rightarrow> 0 < length entries),
          vr_SRIOVVFs = 0\<rparr>)"

definition steal_indicator :: "f64 \<Rightarrow> string" where
  "steal_indicator p =
     (if f64_ge p 10 then u_red @ '' CRITICAL''
      else if f64_ge p 5 then u_warn @ ''  WARNING''
      else u_check @ ''  OK'')"

definition virt_Print :: "virtreport \<Rightarrow> string list" where
  "virt_Print r =
     [''KVM Virtualization Status'', rule_line] @
     (if \<not> vr_IsVM r then
        [''Hypervisor         : '' @ vr_Hypervisor r,
         ''Note               : Not running inside a VM.'',
         ''                     Steal time and balloon metrics are not applicable.'',
         rule_line]
      else
        [''Hypervisor         : '' @ vr_Hypervisor r,
         ''vCPUs              : '' @ utoa (vr_VCPUs r),
         ''CPU Steal Time     : '' @ fmt_f 2 (vr_StealPct r) @ ''%  '' @ steal_indicator (vr_StealPct r),
         (if 0 < vr_BalloonBytes r then
            ''Balloon Pages Held : '' @ fmt_u (vr_BalloonPages r) @ '' pages (''
              @ fmt_u (vr_BalloonBytes r div 1024 div 1024) @ '' MB)  ''
              @ (if f64_gt (vr_BalloonPct r) 25 then u_red @ '' CRITICAL'' else u_warn @ ''  WARNING'')
              @ '' '' @ fmt_f 1 (vr_BalloonPct r) @ ''% of RAM''
          else ''Balloon Pages Held : 0 (balloon not inflated)''),
         ''MemAvailable       : '' @ fmt_u (vr_MemAvailBytes r div 1024 div 1024) @ '' MB''] @
        (if 0 < length (vr_VirtioDevices r) then
           (''Virtio Devices     : '' @ utoa (length (vr_VirtioDevices r))) #
           map (\<lambda>d. ''  '' @ ljust 20 (vd_Name d) @ '' driver='' @ ljust 22 (vd_Driver d)
                     @ '' id='' @ vd_ID d) (vr_VirtioDevices r)
         else []) @
        (if vr_EPTEnabled r then [''EPT                : enabled''] else []) @
        (if vr_IOMMUActive r then [''IOMMU              : active''] else []) @
        (if f64_ge (vr_StealPct r) 5 \<or> f64_gt (vr_BalloonPct r) 10 then
           ['''', ''Recommendations:''] @
           (if f64_ge (vr_StealPct r) 5 then
              [''  '' @ u_bullet @ '' CPU steal '' @ fmt_f 1 (vr_StealPct r) @ ''%: host is overcommitting vCPUs.'',
               ''    Check steal vs throttle: if cpu.stat nr_throttled=0, this is steal (not CFS).'']
            else []) @
           (if f64_gt (vr_BalloonPct r) 10 then
              [''  '' @ u_bullet @ '' Balloon '' @ fmt_f 1 (vr_BalloonPct r) @ ''%: host is reclaiming guest memory.'',
               ''    Risk: kubelet eviction trigger (MemAvailable < eviction threshold).'']
            else [])
         else []) @
        [rule_line])"

subsection \<open>Steal time is a percentage\<close>

definition cpu_sum :: "cpustat \<Rightarrow> nat" where
  "cpu_sum s = unat (st_user s) + unat (st_nice s) + unat (st_system s) + unat (st_idle s)
     + unat (st_iowait s) + unat (st_irq s) + unat (st_softirq s) + unat (st_steal s)"

definition cpu_le :: "cpustat \<Rightarrow> cpustat \<Rightarrow> bool" where
  "cpu_le a b \<longleftrightarrow> st_user a \<le> st_user b \<and> st_nice a \<le> st_nice b \<and> st_system a \<le> st_system b
     \<and> st_idle a \<le> st_idle b \<and> st_iowait a \<le> st_iowait b \<and> st_irq a \<le> st_irq b
     \<and> st_softirq a \<le> st_softirq b \<and> st_steal a \<le> st_steal b"

lemma unat_cpu_total: "unat (cpu_total s) = cpu_sum s mod 2 ^ 64"
  by (simp add: cpu_total_def cpu_sum_def unat_word_ariths mod_simps)

lemma unat_delta: "unat a \<le> unat b \<Longrightarrow> unat (b - a) = unat b - unat (a :: uint64)"
  by (simp add: unat_sub word_le_nat_alt)

lemma steal_part:
  assumes "cpu_le s1 s2" and "cpu_sum s2 < 2 ^ 64"
  shows "unat (st_steal s2 - st_steal s1) \<le> unat (cpu_total s2 - cpu_total s1)"
proof -
  have le: "cpu_sum s1 \<le> cpu_sum s2" "unat (st_steal s1) \<le> unat (st_steal s2)"
    using assms(1) by (simp_all add: cpu_le_def cpu_sum_def word_le_nat_alt)
  have "unat (st_steal s2) + cpu_sum s1 \<le> cpu_sum s2 + unat (st_steal s1)"
    using assms(1) by (simp add: cpu_le_def cpu_sum_def word_le_nat_alt)
  then have d: "unat (st_steal s2) - unat (st_steal s1) \<le> cpu_sum s2 - cpu_sum s1"
    using le by linarith
  then have "unat (cpu_total s1) = cpu_sum s1" "unat (cpu_total s2) = cpu_sum s2"
    using assms(2) le(1) by (simp_all add: unat_cpu_total)
  with le d show ?thesis by (simp add: unat_delta)
qed

text \<open>C30.
  The steal time is a percentage between 0 and 100 when every counter of /proc/stat grew or
  stayed between the two samples and their sum fits 64 bits; with no tick in between it is 0.\<close>

theorem calcStealPct_bounds:
  assumes "cpu_le s1 s2" and "cpu_sum s2 < 2 ^ 64"
  shows "f64_between 0 100 (calcStealPct s1 s2)"
proof (cases "cpu_total s2 - cpu_total s1 = 0")
  case True
  then show ?thesis by (simp add: calcStealPct_def f64_between_def)
next
  case False
  with ratio_percent [OF steal_part [OF assms]] show ?thesis by (simp add: calcStealPct_def Let_def)
qed

definition demo_stat :: cpustat where
  "demo_stat = \<lparr>st_user = 100, st_nice = 0, st_system = 50, st_idle = 800, st_iowait = 3, st_irq = 0,
     st_softirq = 1, st_steal = 46\<rparr>"

theorem calcStealPct_bounds_witness:
  "f64_between 0 100 (calcStealPct demo_stat (demo_stat\<lparr>st_idle := 870, st_steal := 56\<rparr>))"
proof -
  have "cpu_le demo_stat (demo_stat\<lparr>st_idle := 870, st_steal := 56\<rparr>)"
    "cpu_sum (demo_stat\<lparr>st_idle := 870, st_steal := 56\<rparr>) < 2 ^ 64" by code_simp+
  then show ?thesis by (rule calcStealPct_bounds)
qed

lemma demo_steal: "calcStealPct demo_stat (demo_stat\<lparr>st_idle := 870, st_steal := 56\<rparr>) = FFin False (25 / 2)"
  by code_simp

text \<open>
  The subtraction wraps: when the second sample cannot be read, all its counters are 0, and
  the steal time of an idle machine is reported as 100 percent, which is printed as critical.
\<close>

lemma steal_after_failed_sample:
  "calcStealPct demo_stat cpustat_zero = FFin False 100"
  "steal_indicator (calcStealPct demo_stat cpustat_zero) = u_red @ '' CRITICAL''"
  by code_simp+

subsection \<open>/proc/stat and /proc/meminfo\<close>

text \<open>The aggregate line: \<open>cpu\<close> and its columns.\<close>

definition show_cpu :: "(nat \<times> uint64) list \<Rightarrow> string" where
  "show_cpu cols = ''cpu'' @ padded (map (\<lambda>(p, v). (p, utoa (unat v))) cols)"

definition stat_of :: "(nat \<times> uint64) list \<Rightarrow> cpustat" where
  "stat_of cols =
     (let c = (\<lambda>i. snd (cols ! i)) in
      \<lparr>st_user = c 0, st_nice = c 1, st_system = c 2, st_idle = c 3, st_iowait = c 4, st_irq = c 5,
       st_softirq = c 6, st_steal = c 7\<rparr>)"

lemma token_cpu: "token ''cpu''"
  by code_simp

lemma Fields_show_cpu: "Fields (show_cpu cols) = ''cpu'' # map (\<lambda>(p, v). utoa (unat v)) cols"
proof -
  have "Fields (padded (map (\<lambda>(p, v). (p, utoa (unat v))) cols)) = map (\<lambda>(p, v). utoa (unat v)) cols"
    by (subst Fields_padded) (auto simp: comp_def split_beta)
  then show ?thesis by (simp only: show_cpu_def Fields_word_padded [OF token_cpu])
qed

lemma cpu_line_show:
  assumes "8 \<le> length cols"
  shows "cpu_line (show_cpu cols) = Some (stat_of cols)"
proof -
  obtain c cs where c: "cols = c # cs" using assms by (cases cols) auto
  obtain p v where pv: "c = (p, v)" by (cases c)
  have "show_cpu cols = ''cpu '' @ replicate p CHR '' '' @ utoa (unat v)
      @ padded (map (\<lambda>(p, v). (p, utoa (unat v))) cs)"
    by (simp add: show_cpu_def c pv padded_Cons)
  then have "HasPrefix (show_cpu cols) ''cpu ''" by (metis prefixI)
  moreover have "cols \<noteq> []" using c by simp
  ultimately show ?thesis
    using assms by (simp add: cpu_line_def Fields_show_cpu stat_of_def Let_def split_beta)
qed

text \<open>A row of \<open>/proc/meminfo\<close>: name, blanks and value.\<close>

type_synonym memrow = "string \<times> nat \<times> uint64"

definition show_mem :: "memrow \<Rightarrow> string" where
  "show_mem r = (case r of (name, p, kb) \<Rightarrow> name @ CHR '':'' # padded [(p, utoa (unat kb)), (0, ''kB'')])"

definition memrow_ok :: "memrow \<Rightarrow> bool" where
  "memrow_ok r = (case r of (name, p, kb) \<Rightarrow>
     token (name @ '':'') \<and> CHR '':'' \<notin> set name \<and> line_ok (show_mem r))"

lemma Fields_show_mem: "token (name @ '':'') \<Longrightarrow> Fields (show_mem (name, p, kb)) = [name @ '':'', utoa (unat kb), ''kB'']"
proof -
  assume t: "token (name @ '':'')"
  have kb: "token ''kB''" by code_simp
  have "show_mem (name, p, kb) = (name @ '':'') @ padded [(p, utoa (unat kb)), (0, ''kB'')]"
    by (simp add: show_mem_def)
  then show ?thesis using Fields_word_padded [OF t] kb by (simp add: Fields_padded)
qed

lemma prefix_key:
  assumes "CHR '':'' \<notin> set a" and "CHR '':'' \<notin> set b"
  shows "prefix (a @ '':'') (b @ CHR '':'' # r) \<longleftrightarrow> a = b"
proof
  assume "prefix (a @ '':'') (b @ CHR '':'' # r)"
  then obtain u where "b @ CHR '':'' # r = a @ CHR '':'' # u" by (auto simp: prefix_def)
  then have "SplitN2 CHR '':'' (b @ CHR '':'' # r) = SplitN2 CHR '':'' (a @ CHR '':'' # u)" by simp
  then show "a = b" using assms by simp
qed (simp add: prefix_def)

lemma kb_line_show:
  assumes "memrow_ok (name, p, kb)" and "CHR '':'' \<notin> set key"
  shows "kb_line (key @ '':'') (show_mem (name, p, kb)) = (if key = name then Some kb else None)"
proof -
  have n: "CHR '':'' \<notin> set name" "token (name @ '':'')" using assms(1) by (simp_all add: memrow_ok_def)
  have "HasPrefix (show_mem (name, p, kb)) (key @ '':'') \<longleftrightarrow> key = name"
    unfolding show_mem_def prod.case by (rule prefix_key [OF assms(2) n(1)])
  then show ?thesis by (simp add: kb_line_def Fields_show_mem [OF n(2)] Let_def)
qed

lemma first_some_rows:
  assumes "list_all memrow_ok rows" and "CHR '':'' \<notin> set key"
  shows "first_some (kb_line (key @ '':'')) (map show_mem rows) = map_option snd (map_of rows key)"
  using assms(1)
proof (induction rows)
  case (Cons r rows)
  obtain name p kb where r: "r = (name, p, kb)" by (cases r)
  with Cons show ?case using kb_line_show [of name p kb key] assms(2) by simp
qed simp

text \<open>On /proc/meminfo as the kernel writes it, readMemField delivers the value of the row with
  exactly the name asked for, converted from kilobytes to bytes without wrap-around below
  2^54 kB, and 0 when there is no such row.\<close>

theorem readMemField_bytes:
  assumes "sv_open sv ''/proc/meminfo'' = Inr (unlines (map show_mem rows), e)"
    and "list_all memrow_ok rows" and "CHR '':'' \<notin> set key"
    and "map_of rows key = Some (p, kb)" and "unat kb < 2 ^ 54"
  shows "unat (readMemField sv (key @ '':'')) = 1024 * unat kb"
proof -
  have ok: "\<forall>l \<in> set (map show_mem rows). line_ok l"
    using assms(2) by (auto simp: list_all_iff memrow_ok_def split: prod.splits)
  have "readMemField sv (key @ '':'') = kb * 1024"
    using assms(1,4) first_some_rows [OF assms(2,3)]
    by (simp add: readMemField_def scan_lines_def scan_unlines [OF ok])
  moreover have "unat (kb * 1024) = unat kb * 1024"
    using assms(5) by (subst unat_mult_lem [THEN iffD1]) simp_all
  ultimately show ?thesis by simp
qed

definition demo_mem :: "memrow list" where
  "demo_mem = [(''MemTotal'', 7, 16384), (''MemFree'', 8, 77), (''MemAvailable'', 3, 4096)]"

theorem readMemField_bytes_witness:
  "unat (readMemField (table_view [(''/proc/meminfo'', unlines (map show_mem demo_mem))] [] [] [] [])
     (''MemAvailable'' @ '':'')) = 4194304"
proof -
  let ?sv = "table_view [(''/proc/meminfo'', unlines (map show_mem demo_mem))] [] [] [] []"
  have o: "sv_open ?sv ''/proc/meminfo'' = Inr (unlines (map show_mem demo_mem), None)"
    by (simp add: table_view_def table_open_def)
  have a: "list_all memrow_ok demo_mem" "map_of demo_mem ''MemAvailable'' = Some (3, 4096)"
    "unat (4096 :: uint64) < 2 ^ 54" by code_simp+
  have c: "CHR '':'' \<notin> set ''MemAvailable''" by simp
  show ?thesis using readMemField_bytes [OF o a(1) c a(2,3)] by simp
qed

text \<open>On /proc/stat as the kernel writes it (the aggregate line first, at least eight columns),
  readCPUStat delivers the eight counters of the aggregate line in their order.\<close>

theorem readCPUStat_line:
  assumes "sv_open sv ''/proc/stat'' = Inr (unlines (show_cpu cols # ls), e)"
    and "8 \<le> length cols" and "\<forall>l \<in> set (show_cpu cols # ls). line_ok l"
  shows "readCPUStat sv = stat_of cols"
  using assms scan_unlines [OF assms(3)] cpu_line_show [OF assms(2)]
  by (simp add: readCPUStat_def scan_lines_def)

definition demo_cols :: "(nat \<times> uint64) list" where
  "demo_cols = zip [1, 0, 0, 0, 0, 0, 0, 0, 0, 0] [100, 0, 50, 800, 3, 0, 1, 46, 0, 0]"

theorem readCPUStat_line_witness:
  "readCPUStat (table_view [(''/proc/stat'', unlines (show_cpu demo_cols # [''cpu0 1 2'']))] [] [] [] []) = demo_stat"
proof -
  let ?sv = "table_view [(''/proc/stat'', unlines (show_cpu demo_cols # [''cpu0 1 2'']))] [] [] [] []"
  have o: "sv_open ?sv ''/proc/stat'' = Inr (unlines (show_cpu demo_cols # [''cpu0 1 2'']), None)"
    by (simp add: table_view_def table_open_def)
  have "list_all line_ok (show_cpu demo_cols # [''cpu0 1 2''])" by code_simp
  then have l: "\<forall>l \<in> set (show_cpu demo_cols # [''cpu0 1 2'']). line_ok l" by (simp only: list_all_iff)
  have c: "8 \<le> length demo_cols" "stat_of demo_cols = demo_stat" by code_simp+
  show ?thesis using readCPUStat_line [OF o c(1) l] c(2) by simp
qed

subsection \<open>Devices and detection\<close>

text \<open>On a real sysfs every entry of /sys/bus/virtio/devices is a symbolic link, and the loop
  keeps directories only: the list of virtio devices is always empty.\<close>

theorem listVirtioDevices_links:
  assumes "list_all (\<lambda>e. de_type e = FLink) (fst (sv_dir sv ''/sys/bus/virtio/devices''))"
  shows "listVirtioDevices sv = []"
proof -
  let ?b = "''/sys/bus/virtio/devices''"
  have "\<forall>e \<in> set (fst (os_ReadDir sv ?b)). virtio_device sv ?b e = None"
    using assms by (simp add: os_ReadDir_set list_all_iff virtio_device_def)
  then have "List.map_filter (virtio_device sv ?b) (fst (os_ReadDir sv ?b)) = []"
    by (rule map_filter_None)
  then show ?thesis
    by (cases "os_ReadDir sv ?b") (simp add: listVirtioDevices_def Let_def split: option.splits)
qed

theorem listVirtioDevices_links_witness:
  "listVirtioDevices (table_view [] [(''/sys/bus/virtio/devices'', [\<lparr>de_name = ''virtio0'', de_type = FLink\<rparr>])]
     [] [] []) = []"
  by (rule listVirtioDevices_links) code_simp

text \<open>A machine is reported as bare metal exactly when its DMI vendor names none of the four
  hypervisors, there is no virtio bus, and no line of /proc/cpuinfo mentions a hypervisor.\<close>

theorem detectHypervisor_bare:
  "snd (detectHypervisor sv) = False \<longleftrightarrow>
   (case os_ReadFile sv ''/sys/class/dmi/id/sys_vendor'' of Inl _ \<Rightarrow> True
    | Inr d \<Rightarrow> filter (Contains (TrimSpace d)) [''QEMU'', ''VMware'', ''Xen'', ''Microsoft''] = []) \<and>
   \<not> stat_ok sv ''/sys/bus/virtio'' \<and>
   (case sv_open sv ''/proc/cpuinfo'' of Inl _ \<Rightarrow> True
    | Inr f \<Rightarrow> filter (\<lambda>l. Contains l ''hypervisor'') (scan_lines f) = [])"
  by (simp add: detectHypervisor_def vendor_hypervisor_def filter_empty_conv list_ex_iff
      split: sum.splits option.splits)

end
