(* ===== verification/Arch.thy ===== *)
theory Arch
  imports Formats Go_Fmt
begin

text \<open>
  Package \<open>internal/arch\<close> of kube-inspect. The platform (\<open>runtime.GOARCH\<close>, \<open>uname\<close>, the page
  size) is an argument of the model. \<open>gatherARM64\<close> indexes \<open>strings.SplitN(line, ":", 2)[1]\<close>
  without a length check, so a \<open>/proc/cpuinfo\<close> line with one of its three prefixes and no
  colon is an index panic; a function that may panic returns an option, \<open>None\<close> is the panic.
\<close>

subsection \<open>Data\<close>

record arm64info =
  ar_Implementer :: string
  ar_CPUPart :: string
  ar_CPUArchitecture :: string
  ar_KVMAvailable :: bool
  ar_PageSizeBytes :: int
  ar_EBPFJITEnabled :: bool
  ar_PMUType :: string
  ar_MemModel :: string
  ar_TTBRScheme :: string
  ar_ASIDWidth :: string

record archreport =
  rp_Arch :: string
  rp_Kernel :: string
  rp_NodeName :: string
  rp_CPUModel :: string
  rp_CPUCores :: nat
  rp_CPUFreqMHz :: int
  rp_TempCelsius :: int
  rp_IsARM64 :: bool
  rp_ARM64 :: "arm64info option"

text \<open>The two name fields of \<open>syscall.Utsname\<close>, arrays of \<open>int8\<close>.\<close>

record utsname =
  ut_Release :: "8 word list"
  ut_Nodename :: "8 word list"

record platform =
  pf_GOARCH :: string
  pf_Uname :: "utsname option"
  pf_PageSize :: int

subsection \<open>Decoding\<close>

definition charsToString :: "8 word list \<Rightarrow> string" where
  "charsToString ca = map (\<lambda>c. char_of (unat c)) (takeWhile (\<lambda>c. c \<noteq> 0) ca)"

definition implementer_name :: "uint64 \<Rightarrow> string" where
  "implementer_name c =
     (if c = 0x41 then ''ARM Limited (0x'' @ fmt_hex 2 c @ '')''
      else if c = 0x42 then ''Broadcom (0x'' @ fmt_hex 2 c @ '')''
      else if c = 0x51 then ''Qualcomm (0x'' @ fmt_hex 2 c @ '')''
      else if c = 0x61 then ''Apple (0x'' @ fmt_hex 2 c @ '')''
      else ''Unknown (0x'' @ fmt_hex 2 c @ '')'')"

definition part_name :: "uint64 \<Rightarrow> string" where
  "part_name c =
     (if c = 0xd0b then ''Cortex-A76 (0x'' @ fmt_hex 3 c @ '')''
      else if c = 0xd08 then ''Cortex-A72 (0x'' @ fmt_hex 3 c @ '')''
      else if c = 0xd0c then ''Neoverse N1 (0x'' @ fmt_hex 3 c @ '')''
      else if c = 0xd49 then ''Neoverse N2 (0x'' @ fmt_hex 3 c @ '')''
      else ''Unknown (0x'' @ fmt_hex 3 c @ '')'')"

text \<open>\<open>strings.TrimSpace(strings.SplitN(line, ":", 2)[1])\<close>\<close>

definition after_colon :: "string \<Rightarrow> string option" where
  "after_colon line =
     (case SplitN2 CHR '':'' line of _ # v # _ \<Rightarrow> Some (TrimSpace v) | _ \<Rightarrow> None)"

definition parse_hex :: "string \<Rightarrow> uint64" where
  "parse_hex v = ParseUint_val (TrimPrefix v ''0x'') 16"

text \<open>The scan of \<open>/proc/cpuinfo\<close>, on implementer code, part code and architecture.\<close>

fun arm_scan :: "uint64 \<times> uint64 \<times> string \<Rightarrow> string list \<Rightarrow> (uint64 \<times> uint64 \<times> string) option" where
  "arm_scan st [] = Some st"
| "arm_scan (impl, part, arch) (line # ls) =
     (if HasPrefix line ''CPU implementer'' then
        (case after_colon line of None \<Rightarrow> None | Some v \<Rightarrow> arm_scan (parse_hex v, part, arch) ls)
      else if HasPrefix line ''CPU part'' then
        (case after_colon line of None \<Rightarrow> None | Some v \<Rightarrow> arm_scan (impl, parse_hex v, arch) ls)
      else if HasPrefix line ''CPU architecture'' then
        (case after_colon line of None \<Rightarrow> None | Some v \<Rightarrow> arm_scan (impl, part, v) ls)
      else arm_scan (impl, part, arch) ls)"

definition gatherARM64 :: "platform \<Rightarrow> sysview \<Rightarrow> arm64info option" where
  "gatherARM64 pf sv =
     (let a = \<lparr>ar_Implementer = [], ar_CPUPart = [], ar_CPUArchitecture = [],
        ar_KVMAvailable = stat_ok sv ''/dev/kvm'',
        ar_PageSizeBytes = pf_PageSize pf,
        ar_EBPFJITEnabled =
          (case os_ReadFile sv ''/proc/sys/net/core/bpf_jit_enable'' of
             Inl _ \<Rightarrow> False | Inr data \<Rightarrow> 0 < Atoi_val (TrimSpace data)),
        ar_PMUType =
          (case os_ReadFile sv ''/sys/bus/event_source/devices/armv8_pmuv3/type'' of
             Inl _ \<Rightarrow> [] | Inr data \<Rightarrow> ''armv8_pmuv3 (type='' @ TrimSpace data @ '')''),
        ar_MemModel = ''RVWMO (weakly ordered '' @ u_dash @ '' barriers required for SMP correctness)'',
        ar_TTBRScheme = ''TTBR0_EL1 (user 0x0000...) / TTBR1_EL1 (kernel 0xFFFF...)'',
        ar_ASIDWidth = ''16-bit (ARMv8.2-A, up to 65535 address spaces)''\<rparr>
      in case sv_open sv ''/proc/cpuinfo'' of
           Inl _ \<Rightarrow> Some a
         | Inr f \<Rightarrow>
             (case arm_scan (0, 0, []) (scan_lines f) of
                None \<Rightarrow> None
              | Some (impl, part, arch) \<Rightarrow>
                  Some (a\<lparr>ar_CPUArchitecture := arch, ar_Implementer := implementer_name impl,
                         ar_CPUPart := part_name part\<rparr>)))"

subsection \<open>CPU model, count, frequency, temperature\<close>

definition model_line :: "string \<Rightarrow> string option" where
  "model_line line =
     (if HasPrefix line ''model name'' \<or> HasPrefix line ''Model name'' \<or> HasPrefix line ''Hardware''
      then after_colon line else None)"

definition readCPUModel :: "sysview \<Rightarrow> string" where
  "readCPUModel sv =
     (case sv_open sv ''/proc/cpuinfo'' of
        Inl _ \<Rightarrow> []
      | Inr f \<Rightarrow> (case first_some model_line (scan_lines f) of None \<Rightarrow> [] | Some m \<Rightarrow> m))"

definition arch_countCPUs :: "sysview \<Rightarrow> nat" where
  "arch_countCPUs sv =
     (case sv_open sv ''/proc/cpuinfo'' of
        Inl _ \<Rightarrow> 0
      | Inr f \<Rightarrow> length (filter (\<lambda>l. HasPrefix l ''processor'') (scan_lines f)))"

text \<open>Go's integer division truncates toward zero.\<close>

definition quot1000 :: "int \<Rightarrow> int" where
  "quot1000 i = (if i < 0 then - (- i div 1000) else i div 1000)"

definition readCPUFreqMHz :: "sysview \<Rightarrow> int" where
  "readCPUFreqMHz sv =
     (case os_ReadFile sv ''/sys/devices/system/cpu/cpu0/cpufreq/scaling_cur_freq'' of
        Inl _ \<Rightarrow> 0
      | Inr data \<Rightarrow> quot1000 (Atoi_val (TrimSpace data)))"

definition readTempCelsius :: "sysview \<Rightarrow> int" where
  "readTempCelsius sv =
     (case os_ReadFile sv ''/sys/class/thermal/thermal_zone0/temp'' of
        Inl _ \<Rightarrow> 0
      | Inr data \<Rightarrow> quot1000 (Atoi_val (TrimSpace data)))"

subsection \<open>The report\<close>

definition arch_Gather :: "platform \<Rightarrow> sysview \<Rightarrow> archreport option" where
  "arch_Gather pf sv =
     (let isARM = (pf_GOARCH pf = ''arm64'');
          r = \<lparr>rp_Arch = pf_GOARCH pf,
               rp_Kernel = (case pf_Uname pf of None \<Rightarrow> [] | Some u \<Rightarrow> charsToString (ut_Release u)),
               rp_NodeName = (case pf_Uname pf of None \<Rightarrow> [] | Some u \<Rightarrow> charsToString (ut_Nodename u)),
               rp_CPUModel = readCPUModel sv, rp_CPUCores = arch_countCPUs sv,
               rp_CPUFreqMHz = readCPUFreqMHz sv, rp_TempCelsius = readTempCelsius sv,
               rp_IsARM64 = isARM, rp_ARM64 = None\<rparr>
      in if isARM then
           (case gatherARM64 pf sv of None \<Rightarrow> None | Some a \<Rightarrow> Some (r\<lparr>rp_ARM64 := Some a\<rparr>))
         else Some r)"

definition temp_indicator :: "int \<Rightarrow> string" where
  "temp_indicator t =
     (if 80 \<le> t then u_red @ '' CRITICAL (>80'' @ u_degree @ ''C)''
      else if 70 \<le> t then u_warn @ ''  WARNING (>70'' @ u_degree @ ''C)''
      else u_check)"

definition print_arm64 :: "archreport \<Rightarrow> arm64info \<Rightarrow> string list" where
  "print_arm64 r a =
     ['''', ''ARM64 Specifics:'',
      ''  Implementer      : '' @ ar_Implementer a,
      ''  CPU Part         : '' @ ar_CPUPart a,
      ''  Architecture     : ARMv'' @ ar_CPUArchitecture a,
      ''  Page size        : '' @ itoa (ar_PageSizeBytes a) @ '' bytes'',
      '''', ''Exception Levels:'',
      ''  EL0 (user)       : active (this process)'',
      ''  EL1 (kernel)     : Linux '' @ rp_Kernel r,
      (if ar_KVMAvailable a then ''  EL2 (hypervisor) : KVM available (/dev/kvm)''
       else ''  EL2 (hypervisor) : not active''),
      ''  EL3 (secure mon) : TrustZone firmware'',
      ''  Syscall entry    : SVC #0 '' @ u_arrow @ '' el0_svc (arch/arm64/kernel/entry.S)'',
      '''', ''Memory System:'',
      ''  TTBR scheme      : '' @ ar_TTBRScheme a,
      ''  ASID width       : '' @ ar_ASIDWidth a,
      ''  Memory model     : '' @ ar_MemModel a,
      '''', ''Performance:''] @
     (if ar_PMUType a \<noteq> [] then [''  ARM PMU          : '' @ ar_PMUType a] else []) @
     [''  eBPF JIT         : '' @ (if ar_EBPFJITEnabled a then ''enabled'' else ''disabled'')
        @ '' (arm64 native code generation)'',
      '''', ''Cross-Chapter Verification (ARM64 = same as x86 for these):'',
      ''  cgroup v2        : architecture-independent (same /sys/fs/cgroup)'',
      ''  namespaces       : architecture-independent (same clone(2) flags)'',
      ''  eBPF maps        : architecture-independent (same bpf(2) syscall)'',
      ''  kprobes          : ARM64 uses MDSCR_EL1.SS (hardware single-step)'',
      ''                     x86 uses int3 breakpoint '' @ u_dash @ '' different impl, same API'']"

definition arch_Print :: "archreport \<Rightarrow> string list" where
  "arch_Print r =
     [''CPU Architecture Status'', rule_line,
      ''Architecture       : '' @ rp_Arch r,
      ''Kernel             : '' @ rp_Kernel r,
      ''Node               : '' @ rp_NodeName r] @
     (if rp_CPUModel r \<noteq> [] then [''CPU                : '' @ rp_CPUModel r] else []) @
     [''CPU Cores          : '' @ utoa (rp_CPUCores r)] @
     (if 0 < rp_CPUFreqMHz r then [''CPU Frequency      : '' @ itoa (rp_CPUFreqMHz r) @ '' MHz''] else []) @
     (if 0 < rp_TempCelsius r then
        [''Temperature        : '' @ itoa (rp_TempCelsius r) @ u_degree @ ''C  ''
           @ temp_indicator (rp_TempCelsius r)] else []) @
     (if rp_IsARM64 r then (case rp_ARM64 r of None \<Rightarrow> [] | Some a \<Rightarrow> print_arm64 r a) else []) @
     [rule_line]"

subsection \<open>Small decoders\<close>

text \<open>A C string in an array: the bytes before the first NUL, all of them if there is none.\<close>

lemma takeWhile_nonzero: "0 \<notin> set cs \<Longrightarrow> takeWhile (\<lambda>c. c \<noteq> 0) cs = (cs :: 8 word list)"
  by (induction cs) auto

lemma charsToString_nul:
  assumes "0 \<notin> set cs"
  shows "charsToString (cs @ 0 # rest) = map (\<lambda>c. char_of (unat c)) cs"
proof -
  have "takeWhile (\<lambda>c. c \<noteq> 0) (cs @ 0 # rest) = cs"
    using assms by (intro takeWhile_append_stop) auto
  then show ?thesis by (simp add: charsToString_def)
qed

lemma charsToString_full: "0 \<notin> set cs \<Longrightarrow> charsToString cs = map (\<lambda>c. char_of (unat c)) cs"
  by (simp add: charsToString_def takeWhile_nonzero)

lemma quot1000_spec: "\<bar>i - 1000 * quot1000 i\<bar> < 1000 \<and> quot1000 (- i) = - quot1000 i"
proof -
  have "0 \<le> j - 1000 * (j div 1000) \<and> j - 1000 * (j div 1000) < 1000" for j :: int
    by (simp add: minus_mult_div_eq_mod)
  from this [of i] this [of "- i"] show ?thesis by (auto simp: quot1000_def)
qed

text \<open>The CPU frequency is the kernel's kilohertz value in whole megahertz, rounded toward zero:
  the remainder is below one megahertz.\<close>

theorem readCPUFreqMHz_truncates:
  assumes "os_ReadFile sv ''/sys/devices/system/cpu/cpu0/cpufreq/scaling_cur_freq'' = Inr (itoa khz @ [CHR 0x0A])"
    and "int64_range khz"
  shows "\<bar>khz - 1000 * readCPUFreqMHz sv\<bar> < 1000 \<and> \<bar>1000 * readCPUFreqMHz sv\<bar> \<le> \<bar>khz\<bar>"
proof -
  have "token (itoa khz)" by simp
  then have "TrimSpace (itoa khz @ [CHR 0x0A]) = itoa khz"
    by (intro TrimSpace_token_nl) (auto simp: token_def)
  then have r: "readCPUFreqMHz sv = quot1000 khz"
    using assms by (simp add: readCPUFreqMHz_def Atoi_itoa)
  have "0 \<le> j - 1000 * (j div 1000) \<and> (0 \<le> j \<longrightarrow> 0 \<le> j div 1000)" for j :: int
    by (simp add: minus_mult_div_eq_mod pos_imp_zdiv_nonneg_iff)
  from this [of khz] this [of "- khz"] show ?thesis
    unfolding r using quot1000_spec [of khz] by (auto simp: quot1000_def)
qed

theorem readCPUFreqMHz_truncates_witness:
  "\<bar>2399999 - 1000 * readCPUFreqMHz (table_view
     [(''/sys/devices/system/cpu/cpu0/cpufreq/scaling_cur_freq'', itoa 2399999 @ [CHR 0x0A])] [] [] [] [])\<bar> < 1000"
proof -
  have "os_ReadFile (table_view [(''/sys/devices/system/cpu/cpu0/cpufreq/scaling_cur_freq'', itoa 2399999 @ [CHR 0x0A])]
     [] [] [] []) ''/sys/devices/system/cpu/cpu0/cpufreq/scaling_cur_freq'' = Inr (itoa 2399999 @ [CHR 0x0A])"
    by (simp add: os_ReadFile_def table_view_def table_open_def)
  moreover have "int64_range 2399999" by code_simp
  ultimately show ?thesis using readCPUFreqMHz_truncates by blast
qed

subsection \<open>The ARM fields of /proc/cpuinfo\<close>

definition arm_key :: "string \<Rightarrow> bool" where
  "arm_key l \<longleftrightarrow> HasPrefix l ''CPU implementer'' \<or> HasPrefix l ''CPU part'' \<or> HasPrefix l ''CPU architecture''"

lemma after_colon_None: "after_colon l = None \<longleftrightarrow> CHR '':'' \<notin> set l"
proof (cases "CHR '':'' \<in> set l")
  case True
  then obtain u v where "l = u @ CHR '':'' # v" "CHR '':'' \<notin> set u" by (meson split_list_first)
  then show ?thesis by (simp add: after_colon_def)
next
  case False
  then show ?thesis by (simp add: after_colon_def SplitN2_no_sep)
qed

lemma arm_scan_None:
  "arm_scan st ls = None \<longleftrightarrow> filter (\<lambda>l. arm_key l \<and> CHR '':'' \<notin> set l) ls \<noteq> []"
proof (induction ls arbitrary: st)
  case (Cons l ls)
  obtain impl part arch where st: "st = (impl, part, arch)" by (cases st)
  show ?case
  proof (cases "arm_key l")
    case True
    then show ?thesis
      using Cons.IH after_colon_None [of l]
      by (cases "after_colon l") (auto simp: st arm_key_def)
  next
    case False
    then show ?thesis using Cons.IH by (simp add: st arm_key_def)
  qed
qed simp

text \<open>C38.
  gatherARM64 panics (index out of range) exactly when /proc/cpuinfo can be opened and has a
  line that starts with one of the three CPU keys and has no colon.\<close>

theorem gatherARM64_panics:
  "gatherARM64 pf sv = None \<longleftrightarrow>
   (\<exists>f. sv_open sv ''/proc/cpuinfo'' = Inr f
     \<and> filter (\<lambda>l. arm_key l \<and> CHR '':'' \<notin> set l) (scan_lines f) \<noteq> [])"
proof (cases "sv_open sv ''/proc/cpuinfo''")
  case (Inl e)
  then show ?thesis by (simp add: gatherARM64_def)
next
  case (Inr f)
  then have "gatherARM64 pf sv = None \<longleftrightarrow> arm_scan (0, 0, []) (scan_lines f) = None"
    by (cases "arm_scan (0, 0, []) (scan_lines f)") (auto simp: gatherARM64_def Let_def)
  with Inr show ?thesis by (simp only: arm_scan_None) simp
qed

text \<open>The lines of one core as the arm64 kernel writes them.\<close>

record armcore =
  co_impl :: uint64
  co_part :: uint64
  co_arch :: string

definition arm_block :: "armcore \<Rightarrow> string list" where
  "arm_block c =
     [''processor'' @ [CHR 0x09] @ '': 0'',
      ''CPU implementer'' @ [CHR 0x09] @ '': 0x'' @ utoh (unat (co_impl c)),
      ''CPU architecture: '' @ co_arch c,
      ''CPU variant'' @ [CHR 0x09] @ '': 0x4'',
      ''CPU part'' @ [CHR 0x09] @ '': 0x'' @ utoh (unat (co_part c)),
      ''CPU revision'' @ [CHR 0x09] @ '': 1'',
      '''']"

lemma token_hex: "token (''0x'' @ utoh n)"
proof (rule token_plain)
  have "plain CHR ''0''" "plain CHR ''x''" by (simp_all add: plain_def ascii_space_def)
  then show "\<forall>c \<in> set (''0x'' @ utoh n). plain c" using plain_utoh by auto
qed simp

lemma after_colon_show: "CHR '':'' \<notin> set k \<Longrightarrow> token v \<Longrightarrow> after_colon (k @ '': '' @ v) = Some v"
  by (simp add: after_colon_def TrimSpace_space_Cons TrimSpace_no_space token_def)

lemma parse_hex_show: "parse_hex (''0x'' @ utoh (unat w)) = w"
  using TrimPrefix_append [of "''0x''" "utoh (unat w)"] by (simp add: parse_hex_def)

lemma arm_scan_block:
  assumes "token (co_arch c)"
  shows "arm_scan st (arm_block c @ ls) = arm_scan (co_impl c, co_part c, co_arch c) ls"
proof -
  obtain impl part arch where st: "st = (impl, part, arch)" by (cases st)
  have v: "after_colon (''CPU implementer'' @ [CHR 0x09] @ '': 0x'' @ utoh n) = Some (''0x'' @ utoh n)"
    "after_colon (''CPU part'' @ [CHR 0x09] @ '': 0x'' @ utoh n) = Some (''0x'' @ utoh n)"
    "after_colon (''CPU architecture: '' @ co_arch c) = Some (co_arch c)" for n
    using after_colon_show [of "''CPU implementer'' @ [CHR 0x09]" "''0x'' @ utoh n"]
      after_colon_show [of "''CPU part'' @ [CHR 0x09]" "''0x'' @ utoh n"]
      after_colon_show [of "''CPU architecture''" "co_arch c"] assms token_hex [of n] by simp_all
  have p: "parse_hex (CHR ''0'' # CHR ''x'' # utoh (unat w)) = w" for w
    using parse_hex_show [of w] by simp
  show ?thesis using v by (simp add: arm_block_def st p)
qed

lemma arm_scan_blocks:
  "list_all (\<lambda>c. token (co_arch c)) cs \<Longrightarrow> cs \<noteq> [] \<Longrightarrow>
   arm_scan st (concat (map arm_block cs)) = Some (co_impl (last cs), co_part (last cs), co_arch (last cs))"
proof (induction cs arbitrary: st)
  case (Cons c cs)
  show ?case
  proof (cases "cs = []")
    case True
    with Cons show ?thesis using arm_scan_block [of c st "[]"] by simp
  next
    case False
    with Cons show ?thesis by (simp add: arm_scan_block)
  qed
qed simp

text \<open>On a cpuinfo file with one block per core, gatherARM64 does not panic and reports
  implementer, part and architecture of the last core; on a machine with cores of different
  kinds the others are not shown.\<close>

theorem gatherARM64_last_core:
  assumes "sv_open sv ''/proc/cpuinfo'' = Inr (unlines (concat (map arm_block cs)), e)"
    and "cs \<noteq> []" and "list_all (\<lambda>c. token (co_arch c)) cs"
    and "list_all line_ok (concat (map arm_block cs))"
  shows "\<exists>a. gatherARM64 pf sv = Some a \<and> ar_Implementer a = implementer_name (co_impl (last cs)) \<and>
    ar_CPUPart a = part_name (co_part (last cs)) \<and> ar_CPUArchitecture a = co_arch (last cs)"
proof -
  have "\<forall>l \<in> set (concat (map arm_block cs)). line_ok l" using assms(4) by (simp only: list_all_iff)
  then have "scan_lines (unlines (concat (map arm_block cs)), e) = concat (map arm_block cs)"
    by (rule scan_lines_unlines)
  with assms(1) arm_scan_blocks [OF assms(3,2)] show ?thesis by (simp add: gatherARM64_def)
qed

definition demo_cores :: "armcore list" where
  "demo_cores = [\<lparr>co_impl = 0x41, co_part = 0xd05, co_arch = ''8''\<rparr>, \<lparr>co_impl = 0x41, co_part = 0xd0b, co_arch = ''8''\<rparr>]"

theorem gatherARM64_last_core_witness:
  "\<exists>a. gatherARM64 \<lparr>pf_GOARCH = ''arm64'', pf_Uname = None, pf_PageSize = 4096\<rparr>
     (table_view [(''/proc/cpuinfo'', unlines (concat (map arm_block demo_cores)))] [] [] [] []) = Some a \<and>
   ar_Implementer a = ''ARM Limited (0x41)'' \<and> ar_CPUPart a = ''Cortex-A76 (0xd0b)''"
proof -
  let ?sv = "table_view [(''/proc/cpuinfo'', unlines (concat (map arm_block demo_cores)))] [] [] [] []"
  have o: "sv_open ?sv ''/proc/cpuinfo'' = Inr (unlines (concat (map arm_block demo_cores)), None)"
    by (simp add: table_view_def table_open_def)
  have c: "demo_cores \<noteq> []" "list_all (\<lambda>c. token (co_arch c)) demo_cores"
    "list_all line_ok (concat (map arm_block demo_cores))"
    "implementer_name (co_impl (last demo_cores)) = ''ARM Limited (0x41)''"
    "part_name (co_part (last demo_cores)) = ''Cortex-A76 (0xd0b)''" by code_simp+
  from gatherARM64_last_core [OF o c(1-3)] show ?thesis unfolding c(4,5) by blast
qed

end
