(* ===== verification/Cli.thy ===== *)
theory Cli
  imports Go_Json Proc Cgroup Kubelet Metrics Sched Netns Ebpf Health Virt Arch
begin

text \<open>
  \<open>cmd/kube-inspect/main.go\<close>: the flags, the dispatch and the report of every section. A run
  is the list of its outputs in order and the exit code; a section that fails reports on
  standard error and the run goes on, except for the process listing, which ends it. One view
  serves the whole run; the steal-time sample one second later is read from a second view.
\<close>

subsection \<open>Flags and outputs\<close>

record flags =
  fl_pod :: string
  fl_node :: bool
  fl_json :: bool
  fl_namespaces :: bool
  fl_cgroup :: bool
  fl_psi :: bool
  fl_mounts :: bool
  fl_netns :: bool
  fl_ebpf :: bool
  fl_sched :: bool
  fl_pressure :: bool
  fl_perf :: bool
  fl_health :: bool
  fl_virt :: bool
  fl_arch :: bool

subsection \<open>JSON\<close>

text \<open>\<open>json.Encoder\<close> with \<open>SetIndent("", "  ")\<close> on a slice of processes; a nil slice is null.\<close>

definition json_field :: "string \<Rightarrow> string \<Rightarrow> string" where
  "json_field k v = ''    '' @ json_string k @ '': '' @ v"

definition json_process :: "process \<Rightarrow> string list" where
  "json_process p =
     [''  {'',
      json_field ''PID'' (itoa (p_PID p)) @ '','',
      json_field ''PPID'' (itoa (p_PPID p)) @ '','',
      json_field ''Comm'' (json_string (p_Comm p)) @ '','',
      json_field ''PidNsID'' (fmt_u (p_PidNsID p)) @ '','',
      json_field ''CgroupPath'' (json_string (p_CgroupPath p)),
      ''  }'']"

fun json_items :: "process list \<Rightarrow> string list" where
  "json_items [] = []"
| "json_items [p] = json_process p"
| "json_items (p # ps) = butlast (json_process p) @ (''  },'' # json_items ps)"

definition json_processes :: "process list \<Rightarrow> string list" where
  "json_processes ps = (if ps = [] then [''null''] else ''['' # json_items ps @ ['']''])"

subsection \<open>Sections with a pod\<close>

definition print_processes :: "string \<Rightarrow> process list \<Rightarrow> out_line list" where
  "print_processes pod procs =
     [Out (''Processes for pod '' @ pod @ '':''),
      Out (''  '' @ ljust 8 ''PID'' @ '' '' @ ljust 8 ''PPID'' @ '' '' @ ljust 20 ''COMM'' @ '' ''
        @ ljust 18 ''PID-NS-INODE'' @ '' '' @ ''CGROUP'')] @
     map (\<lambda>p. Out (''  '' @ ljust 8 (itoa (p_PID p)) @ '' '' @ ljust 8 (itoa (p_PPID p)) @ '' ''
        @ ljust 20 (p_Comm p) @ '' '' @ ljust 18 (fmt_u (p_PidNsID p)) @ '' '' @ p_CgroupPath p)) procs @
     [Out (''Total: '' @ utoa (length procs) @ '' processes'')]"

definition print_namespaces :: "sysview \<Rightarrow> string \<Rightarrow> out_line list" where
  "print_namespaces sv pod =
     (case ListPodNamespaces sv pod of
        Inl err \<Rightarrow> [ErrOf ''namespaces error: '' err]
      | Inr nsInfos \<Rightarrow>
          [Out '''', Out (''Namespace inodes for pod '' @ pod @ '':''),
           Out (''  '' @ ljust 8 ''PID'' @ '' '' @ ljust 20 ''COMM''
             @ concat (map (\<lambda>t. '' '' @ ljust 10 t) [''cgroup'', ''ipc'', ''mnt'', ''net'', ''pid'', ''user'', ''uts'']))] @
          map (\<lambda>n. Out (''  '' @ ljust 8 (itoa (ni_PID n)) @ '' '' @ ljust 20 (ni_Comm n)
             @ concat (map (\<lambda>t. '' '' @ ljust 10 (fmt_u (map_get (Some (ni_NS n)) t)))
                 [''cgroup'', ''ipc'', ''mnt'', ''net'', ''pid'', ''user'', ''uts'']))) nsInfos)"

definition print_cgroup :: "sysview \<Rightarrow> string \<Rightarrow> out_line list" where
  "print_cgroup sv pod =
     (case ReadPodStats sv pod of
        Inl err \<Rightarrow> [ErrOf ''cgroup error: '' err]
      | Inr stats \<Rightarrow>
          [Out '''', Out (''Cgroup stats for pod '' @ pod @ '':''),
           Out (''  Path:             '' @ ps_CgroupPath stats),
           Out (''  memory.current:   '' @ fmt_u (ps_MemoryCurrent stats) @ '' bytes''),
           Out (''  memory.max:       '' @ ps_MemoryMax stats)] @
          (if ps_MemoryEvents stats \<noteq> None
           then [Out (''  memory.oom_kill:  '' @ fmt_u (map_get (ps_MemoryEvents stats) ''oom_kill''))] else []) @
          [Out (''  cpu.max:          '' @ ps_CPUMax stats)] @
          (if ps_CPUStat stats \<noteq> None
           then [Out (''  cpu.nr_throttled: '' @ fmt_u (map_get (ps_CPUStat stats) ''nr_throttled'')),
                 Out (''  cpu.throttled_us: '' @ fmt_u (map_get (ps_CPUStat stats) ''throttled_usec''))] else []) @
          [Out (''  pids.current:     '' @ fmt_u (ps_PidsCurrent stats)),
           Out (''  pids.max:         '' @ ps_PidsMax stats)])"

definition psi_averages :: "string \<Rightarrow> psiline \<Rightarrow> out_line" where
  "psi_averages label p =
     Out (''  '' @ label @ ''avg10='' @ fmt_f 2 (pl_Avg10 p) @ '' avg60='' @ fmt_f 2 (pl_Avg60 p)
       @ '' avg300='' @ fmt_f 2 (pl_Avg300 p))"

definition print_psi :: "sysview \<Rightarrow> string \<Rightarrow> out_line list" where
  "print_psi sv pod =
     (case ReadPodPSI sv pod of
        Inl err \<Rightarrow> [ErrOf ''psi error: '' err]
      | Inr psi \<Rightarrow>
          [Out '''', Out (''PSI pressure for pod '' @ pod @ '':''),
           Out (''  Path:              '' @ pp_CgroupPath psi),
           psi_averages ''memory.some  '' (pp_MemorySome psi),
           psi_averages ''memory.full  '' (pp_MemoryFull psi),
           psi_averages ''cpu.some     '' (pp_CPUSome psi),
           psi_averages ''io.some      '' (pp_IOSome psi),
           Out (''  oom_events:  '' @ fmt_u (pp_OOMCount psi) @ ''  oom_kills: '' @ fmt_u (pp_OOMKillCount psi))])"

text \<open>The layer count of \<open>main\<close>: the last \<open>lowerdir=\<close> option wins, and none is 0.\<close>

definition main_layers :: "string \<Rightarrow> nat" where
  "main_layers superOpts =
     fold (\<lambda>opt layers. if HasPrefix opt ''lowerdir='' then Count (TrimPrefix opt ''lowerdir='') CHR '':'' + 1
                         else layers) (Split CHR '','' superOpts) 0"

definition print_mount :: "mountinfo \<Rightarrow> out_line list" where
  "print_mount m =
     Out (''  '' @ ljust 6 (itoa (mi_MountID m)) @ ''  '' @ ljust 6 (itoa (mi_ParentID m)) @ ''  ''
       @ ljust 11 (mi_FSType m) @ '' '' @ ljust 20 (mi_Source m) @ '' '' @ mi_MountPoint m) #
     (if mi_FSType m = ''overlay'' \<and> mi_MountPoint m = ''/'' \<and> 0 < main_layers (mi_SuperOpts m)
      then [Out (''    overlay layers: '' @ utoa (main_layers (mi_SuperOpts m)))] else [])"

definition print_mounts :: "sysview \<Rightarrow> string \<Rightarrow> out_line list" where
  "print_mounts sv pod =
     (case ListPodMounts sv pod of
        Inl err \<Rightarrow> [ErrOf ''mounts error: '' err]
      | Inr mounts \<Rightarrow>
          [Out '''', Out (''Mounts for pod '' @ pod @ '':''),
           Out (''  '' @ ljust 6 ''ID'' @ ''  '' @ ljust 6 ''PARENT'' @ ''  '' @ ljust 11 ''FSTYPE'' @ '' ''
             @ ljust 20 ''SOURCE'' @ '' '' @ ''MOUNTPOINT'')] @
          concat (map print_mount mounts))"

definition net_row :: "string \<Rightarrow> string list \<Rightarrow> string" where
  "net_row name cols =
     ''  '' @ ljust 12 name @ concat (map (\<lambda>(w, c). '' '' @ ljust w c) (zip [12, 8, 8, 8, 12, 8, 8, 8] cols))"

definition print_netns :: "sysview \<Rightarrow> string \<Rightarrow> out_line list" where
  "print_netns sv pod =
     (case ListPodInterfaces sv pod of
        Inl err \<Rightarrow> [ErrOf ''netns error: '' err]
      | Inr ifaces \<Rightarrow>
          [Out '''', Out (''Network interfaces for pod '' @ pod @ '':''),
           Out (net_row ''INTERFACE'' [''RX-BYTES'', ''RX-PKTS'', ''RX-ERR'', ''RX-DROP'',
             ''TX-BYTES'', ''TX-PKTS'', ''TX-ERR'', ''TX-DROP''])] @
          map (\<lambda>i. Out (net_row (nif_Name i) (map fmt_u [nif_RxBytes i, nif_RxPackets i, nif_RxErrors i,
             nif_RxDropped i, nif_TxBytes i, nif_TxPackets i, nif_TxErrors i, nif_TxDropped i]))) ifaces)"

definition print_ebpf :: "sysview \<Rightarrow> string \<Rightarrow> out_line list" where
  "print_ebpf sv pod =
     (case ListPodBPFObjects sv pod of
        Inl err \<Rightarrow> [ErrOf ''ebpf error: '' err]
      | Inr objs \<Rightarrow>
          [Out '''', Out (''BPF objects for pod '' @ pod @ '':''),
           Out '''', Out (''  Programs ('' @ utoa (length (bo_Progs objs)) @ ''):'')] @
          (if bo_Progs objs = [] then [Out ''    (none)'']
           else map (\<lambda>p. Out (''    PID='' @ ljust 6 (itoa (bp_PID p)) @ '' fd='' @ ljust 4 (itoa (bp_FD p))
               @ '' type='' @ itoa (bp_ProgType p) @ '' ('' @ ProgTypeName (bp_ProgType p) @ '')  id=''
               @ ljust 6 (itoa (bp_ProgID p)) @ '' tag='' @ ljust 16 (bp_Tag p) @ ''  jited=''
               @ fmt_bool (bp_Jited p))) (bo_Progs objs)) @
          [Out '''', Out (''  Maps ('' @ utoa (length (bo_Maps objs)) @ ''):'')] @
          (if bo_Maps objs = [] then [Out ''    (none)'']
           else map (\<lambda>m. Out (''    PID='' @ ljust 6 (itoa (bm_PID m)) @ '' fd='' @ ljust 4 (itoa (bm_FD m))
               @ '' type='' @ itoa (bm_MapType m) @ '' ('' @ MapTypeName (bm_MapType m) @ '')  id=''
               @ ljust 6 (itoa (bm_MapID m)) @ '' key='' @ ljust 4 (itoa (bm_KeySize m)) @ '' value=''
               @ ljust 4 (itoa (bm_ValueSize m)) @ '' max='' @ itoa (bm_MaxEntries m))) (bo_Maps objs)))"

definition print_sched :: "sysview \<Rightarrow> string \<Rightarrow> out_line list" where
  "print_sched sv pod =
     (case GetPodSchedInfo sv pod of
        (_, Some err) \<Rightarrow> [ErrOf ''sched: '' err]
      | (info, None) \<Rightarrow>
          [Out (''Scheduler info for pod '' @ si_PodUID info @ '':''), Out ''''] @
          (if si_CgroupCPUs info \<noteq> [] then
             [Out (''  cgroup cpuset.cpus  : '' @ si_CgroupCPUs info),
              Out (''  cgroup cpuset.mems  : '' @ si_CgroupMems info),
              Out (''  cgroup cpu.weight   : '' @ si_CPUWeight info),
              Out (''  cgroup cpu.max      : '' @ si_CPUMax info)]
           else [Out (''  (cgroup path not found for pod '' @ si_PodUID info @ '')'')]) @
          (if 0 < length (si_ProcessAffinities info) then
             [Out '''', Out ''  Process affinities (deduplicated):''] @
             map (\<lambda>pa. Out (''    PID='' @ ljust 6 (itoa (pa_PID pa)) @ ''  comm='' @ ljust 16 (pa_Comm pa)
               @ ''  cpus='' @ ljust 10 (pa_CpusAllowedList pa) @ ''  mems='' @ pa_MemsAllowedList pa))
               (si_ProcessAffinities info)
           else []) @
          [Out ''''])"

definition print_pressure :: "sysview \<Rightarrow> string \<Rightarrow> out_line list" where
  "print_pressure sv pod =
     (case GetNodePressure sv of
        (_, Some err) \<Rightarrow> [ErrOf ''pressure: '' err]
      | (np, None) \<Rightarrow>
          [Out ''Node pressure (PSI avg10):'',
           Out (''  memory some='' @ fmt_f 2 (np_MemorySomeAvg10 np) @ ''%  full='' @ fmt_f 2 (np_MemoryFullAvg10 np) @ ''%''),
           Out (''  cpu    some='' @ fmt_f 2 (np_CPUSomeAvg10 np) @ ''%''),
           Out (''  io     some='' @ fmt_f 2 (np_IOSomeAvg10 np) @ ''%  full='' @ fmt_f 2 (np_IOFullAvg10 np) @ ''%''),
           Out '''']) @
     (case GetPodMemEvents sv pod of
        (_, Some err) \<Rightarrow> [ErrOf ''pod memory events: '' err]
      | (ev, None) \<Rightarrow>
          [Out (''Pod '' @ me_PodUID ev @ '' memory.events:''),
           Out (''  low='' @ fmt_u (me_Low ev) @ ''  high='' @ fmt_u (me_High ev) @ ''  max='' @ fmt_u (me_Max ev)
             @ ''  oom='' @ fmt_u (me_OOM ev) @ ''  oom_kill='' @ fmt_u (me_OOMKill ev)),
           Out ''''])"

definition millis :: "uint64 \<Rightarrow> string" where
  "millis ns = rjust 12 (fmt_f 1 (f64_div (f64_of_uint64 ns) (FFin False 1000000)))"

definition percent_of :: "f64 \<Rightarrow> f64" where
  "percent_of r = f64_mul r (FFin False 100)"

definition print_perf :: "sysview \<Rightarrow> string \<Rightarrow> out_line list" where
  "print_perf sv pod =
     (case GetPodPerfReport sv pod of
        (_, Some err) \<Rightarrow> [ErrOf ''perf: '' err]
      | (report, None) \<Rightarrow>
          (let t = pr_Throttle report in
           [Out (''CPU throttle for pod '' @ pr_PodUID report @ '':''),
            Out (''  cgroup:         '' @ ts_CgPath t),
            Out (''  usage_usec:     '' @ fmt_u (ts_UsageUS t)),
            Out (''  nr_periods:     '' @ fmt_u (ts_NrPeriods t)),
            Out (''  nr_throttled:   '' @ fmt_u (ts_NrThrottled t)),
            Out (''  throttled_usec: '' @ fmt_u (ts_ThrottledUS t)),
            Out (''  throttle_ratio: '' @ fmt_f 1 (percent_of (ThrottleRatio t)) @ ''%''),
            Out ''''] @
           (if 0 < length (pr_Processes report) then
              [Out ''Scheduler latency (top processes by wait ratio):'',
               Out (''  '' @ ljust 8 ''PID'' @ '' '' @ ljust 16 ''COMM'' @ '' '' @ rjust 12 ''RUNTIME_MS'' @ '' ''
                 @ rjust 12 ''WAIT_MS'' @ '' '' @ rjust 8 ''WAIT%'' @ '' '' @ rjust 10 ''SWITCHES'')] @
              map (\<lambda>p. Out (''  '' @ ljust 8 (itoa (sc_PID p)) @ '' '' @ ljust 16 (sc_Comm p) @ '' ''
                 @ millis (sc_RuntimeNS p) @ '' '' @ millis (sc_WaitNS p) @ '' ''
                 @ rjust 7 (fmt_f 1 (percent_of (WaitRatio p))) @ ''% '' @ rjust 10 (fmt_u (sc_NrSwitches p))))
                (pr_Processes report) @
              [Out '''']
            else [])))"

subsection \<open>Sections of the node\<close>

definition print_health :: "sysview \<Rightarrow> out_line list" where
  "print_health sv =
     (let nh = GetNodeHealth sv in
      [Out ''Node kernel health:'', Out (''  release:          '' @ nh_Release nh)] @
      (if nh_TaintRaw nh = 0 then [Out ''  tainted:          0 (clean)'']
       else Out (''  tainted:          '' @ itoa (nh_TaintRaw nh)) #
         map (\<lambda>t. Out (''    bit '' @ rjust 2 (utoa (tb_Bit t)) @ '' ('' @ tb_Code t @ ''): '' @ tb_Meaning t))
           (nh_ActiveTaints nh)) @
      [Out (''  panic:            '' @ itoa (nh_PanicTimeout nh) @ ''  panic_on_oops: '' @ itoa (nh_PanicOnOops nh)
         @ ''  softlockup_panic: '' @ itoa (nh_SoftlockupPanic nh)),
       Out (''  nmi_watchdog:     '' @ itoa (nh_NMIWatchdog nh) @ ''  watchdog_thresh: '' @ itoa (nh_WatchdogThresh nh) @ ''s''),
       (if nh_KexecLoaded nh = 1 then Out (''  kdump:            ready (crashkernel='' @ nh_CrashKernel nh @ '')'')
        else Out ''  kdump:            not loaded''),
       Out ''''])"

definition print_arch :: "platform \<Rightarrow> sysview \<Rightarrow> out_line list" where
  "print_arch pf sv = (case arch_Gather pf sv of None \<Rightarrow> [Panic] | Some r \<Rightarrow> map Out (arch_Print r))"

subsection \<open>main\<close>

definition usage_line :: string where
  "usage_line = ''usage: kube-inspect --pod <uid> [--namespaces] [--cgroup] [--psi] [--mounts] [--netns] [--ebpf] [--sched] [--pressure] [--perf] [--health] [--virt] [--arch] [--json]''"

definition section_if :: "bool \<Rightarrow> 'a list \<Rightarrow> 'a list" where
  "section_if b xs = (if b then xs else [])"

definition pod_sections :: "flags \<Rightarrow> sysview \<Rightarrow> out_line list" where
  "pod_sections fl sv =
     section_if (fl_namespaces fl) (print_namespaces sv (fl_pod fl)) @
     section_if (fl_cgroup fl) (print_cgroup sv (fl_pod fl)) @
     section_if (fl_psi fl) (print_psi sv (fl_pod fl)) @
     section_if (fl_mounts fl) (print_mounts sv (fl_pod fl)) @
     section_if (fl_netns fl) (print_netns sv (fl_pod fl)) @
     section_if (fl_ebpf fl) (print_ebpf sv (fl_pod fl)) @
     section_if (fl_sched fl) (print_sched sv (fl_pod fl)) @
     section_if (fl_pressure fl) (print_pressure sv (fl_pod fl)) @
     section_if (fl_perf fl) (print_perf sv (fl_pod fl))"

definition node_sections :: "flags \<Rightarrow> platform \<Rightarrow> sysview \<Rightarrow> sysview \<Rightarrow> out_line list" where
  "node_sections fl pf sv sv2 =
     section_if (fl_health fl) (print_health sv) @
     section_if (fl_virt fl) (map Out (virt_Print (virt_Gather sv sv2))) @
     section_if (fl_arch fl) (print_arch pf sv)"

text \<open>The outputs and the exit code: a panic of the runtime ends the program with 2.\<close>

definition exit_code :: "out_line list \<Rightarrow> nat" where
  "exit_code ls = (if Panic \<in> set ls then 2 else 0)"

definition kube_inspect :: "flags \<Rightarrow> platform \<Rightarrow> sysview \<Rightarrow> sysview \<Rightarrow> out_line list \<times> nat" where
  "kube_inspect fl pf sv sv2 =
     (if fl_pod fl = [] \<and> \<not> fl_node fl \<and> \<not> fl_health fl \<and> \<not> fl_virt fl \<and> \<not> fl_arch fl
      then ([ErrLine usage_line], 1)
      else if fl_pod fl = []
      then (let ls = node_sections fl pf sv sv2 in (ls, exit_code ls))
      else (case ListPodProcesses sv (fl_pod fl) of
              Inl err \<Rightarrow> ([ErrOf ''error: '' err], 1)
            | Inr procs \<Rightarrow>
                if fl_json fl then (map Out (json_processes procs), 0)
                else (let ls = print_processes (fl_pod fl) procs @ pod_sections fl sv @ node_sections fl pf sv sv2
                      in (ls, exit_code ls))))"

subsection \<open>Exit codes\<close>

text \<open>No section but the one for the architecture can panic.\<close>

lemma no_panic_pod:
  "Panic \<notin> set (print_processes pod procs)" "Panic \<notin> set (print_namespaces sv pod)" "Panic \<notin> set (print_cgroup sv pod)"
  "Panic \<notin> set (print_psi sv pod)" "Panic \<notin> set (print_mounts sv pod)" "Panic \<notin> set (print_netns sv pod)"
  by (auto simp: print_processes_def print_namespaces_def print_cgroup_def print_psi_def psi_averages_def
      print_mounts_def print_mount_def print_netns_def split: sum.splits)

lemma no_panic_pod2:
  "Panic \<notin> set (print_ebpf sv pod)" "Panic \<notin> set (print_sched sv pod)" "Panic \<notin> set (print_pressure sv pod)"
  "Panic \<notin> set (print_perf sv pod)" "Panic \<notin> set (print_health sv)"
  by (auto simp: print_ebpf_def print_sched_def print_pressure_def print_perf_def print_health_def Let_def
      split: sum.splits prod.splits option.splits)

lemma panic_arch: "Panic \<in> set (print_arch pf sv) \<longleftrightarrow> arch_Gather pf sv = None"
  by (auto simp: print_arch_def split: option.splits)

lemma panic_pod_sections: "Panic \<notin> set (pod_sections fl sv)"
  using no_panic_pod no_panic_pod2 by (simp add: pod_sections_def section_if_def)

lemma panic_node_sections: "Panic \<in> set (node_sections fl pf sv sv2) \<longleftrightarrow> fl_arch fl \<and> arch_Gather pf sv = None"
  using no_panic_pod2 by (auto simp: node_sections_def section_if_def panic_arch)

text \<open>The flags that select something to do without a pod.\<close>

definition no_target :: "flags \<Rightarrow> bool" where
  "no_target fl \<longleftrightarrow> fl_pod fl = [] \<and> \<not> fl_node fl \<and> \<not> fl_health fl \<and> \<not> fl_virt fl \<and> \<not> fl_arch fl"

text \<open>C17. The exit code of kube-inspect: 1 without anything to inspect or when the process listing
  of the pod fails, 2 when the architecture section panics, and 0 otherwise, whatever other
  sections fail.\<close>

theorem kube_inspect_exit:
  "snd (kube_inspect fl pf sv sv2) =
   (if no_target fl then 1
    else if fl_pod fl = [] then (if fl_arch fl \<and> arch_Gather pf sv = None then 2 else 0)
    else (case ListPodProcesses sv (fl_pod fl) of
            Inl _ \<Rightarrow> 1
          | Inr _ \<Rightarrow> if \<not> fl_json fl \<and> fl_arch fl \<and> arch_Gather pf sv = None then 2 else 0))"
  using panic_pod_sections panic_node_sections no_panic_pod(1)
  by (auto simp: kube_inspect_def no_target_def exit_code_def Let_def split: sum.splits)

text \<open>What the flags do not do: \<open>--node\<close> alone prints nothing, \<open>--pressure\<close> alone is a usage
  error, and with \<open>--json\<close> no other flag has an effect.\<close>

definition no_flags :: flags where
  "no_flags = \<lparr>fl_pod = [], fl_node = False, fl_json = False, fl_namespaces = False, fl_cgroup = False, fl_psi = False,
     fl_mounts = False, fl_netns = False, fl_ebpf = False, fl_sched = False, fl_pressure = False, fl_perf = False,
     fl_health = False, fl_virt = False, fl_arch = False\<rparr>"

lemma node_prints_nothing: "kube_inspect (no_flags\<lparr>fl_node := True\<rparr>) pf sv sv2 = ([], 0)"
  by (simp add: kube_inspect_def no_flags_def node_sections_def section_if_def exit_code_def)

lemma pressure_needs_pod: "kube_inspect (no_flags\<lparr>fl_pressure := True\<rparr>) pf sv sv2 = ([ErrLine usage_line], 1)"
  by (simp add: kube_inspect_def no_flags_def)

lemma json_ignores_sections:
  "fl_json fl \<Longrightarrow> fl_pod fl \<noteq> [] \<Longrightarrow>
   kube_inspect fl pf sv sv2 = kube_inspect (no_flags\<lparr>fl_pod := fl_pod fl, fl_json := True\<rparr>) pf sv sv2"
  by (simp add: kube_inspect_def no_flags_def split: sum.splits)

subsection \<open>Every section is printed\<close>

text \<open>The output of a section on its own.\<close>

definition section_of :: "nat \<Rightarrow> flags \<Rightarrow> platform \<Rightarrow> sysview \<Rightarrow> sysview \<Rightarrow> (bool \<times> out_line list)" where
  "section_of i fl pf sv sv2 =
     [(fl_namespaces fl, print_namespaces sv (fl_pod fl)), (fl_cgroup fl, print_cgroup sv (fl_pod fl)),
      (fl_psi fl, print_psi sv (fl_pod fl)), (fl_mounts fl, print_mounts sv (fl_pod fl)),
      (fl_netns fl, print_netns sv (fl_pod fl)), (fl_ebpf fl, print_ebpf sv (fl_pod fl)),
      (fl_sched fl, print_sched sv (fl_pod fl)), (fl_pressure fl, print_pressure sv (fl_pod fl)),
      (fl_perf fl, print_perf sv (fl_pod fl)), (fl_health fl, print_health sv),
      (fl_virt fl, map Out (virt_Print (virt_Gather sv sv2))), (fl_arch fl, print_arch pf sv)] ! i"

lemma sublist_concat: "x \<in> set xss \<Longrightarrow> sublist x (concat xss)"
proof -
  assume "x \<in> set xss"
  then obtain ys zs where "xss = ys @ x # zs" by (meson split_list)
  then have "concat xss = concat ys @ x @ concat zs" by simp
  then show ?thesis by (simp only: sublist_appendI)
qed

lemma sections_concat:
  "pod_sections fl sv @ node_sections fl pf sv sv2 =
   concat (map (\<lambda>i. section_if (fst (section_of i fl pf sv sv2)) (snd (section_of i fl pf sv sv2))) [0..<12])"
  by (simp add: pod_sections_def node_sections_def section_of_def upt_rec)


definition demo_platform :: platform where
  "demo_platform = \<lparr>pf_GOARCH = ''amd64'', pf_Uname = None, pf_PageSize = 4096\<rparr>"


subsection \<open>JSON lines are clean\<close>

lemma printing_field: "printing k \<Longrightarrow> printing v \<Longrightarrow> printing (json_field k v)"
  by (simp add: json_field_def printing_append printing_Cons printing_Nil printing_json_string)

lemma printing_names:
  "printing ''PID''" "printing ''PPID''" "printing ''Comm''" "printing ''PidNsID''" "printing ''CgroupPath''"
  "printing ''  {''" "printing ''  }''" "printing ''  },''" "printing '',''" "printing ''null''" "printing ''[''" "printing '']''"
  by code_simp+

lemma printing_process: "list_all printing (json_process p)"
  unfolding json_process_def list.pred_inject printing_append
  by (simp only: printing_field printing_names printing_itoa printing_utoa printing_json_string list.pred_inject simp_thms)

lemma list_all_butlast: "list_all P xs \<Longrightarrow> list_all P (butlast xs)"
  by (auto simp: list_all_iff dest: in_set_butlastD)

lemma printing_items: "list_all printing (json_items ps)"
proof (induction ps rule: json_items.induct)
  case (3 p q ps)
  then show ?case
    unfolding json_items.simps list_all_append list.pred_inject
    by (simp only: list_all_butlast [OF printing_process] printing_names list.pred_inject simp_thms)
qed (simp_all only: json_items.simps list.pred_inject printing_process)


text \<open>The table of the text report is not: a line feed in a process name starts a new line.\<close>

lemma table_line_injected:
  "\<exists>l. Out l \<in> set (print_processes ''u1'' [\<lparr>p_PID = 7, p_PPID = 1, p_Comm = ''a'' @ [CHR 0x0A] @ ''b'', p_PidNsID = 0, p_CgroupPath = []\<rparr>])
     \<and> CHR 0x0A \<in> set l"
  by (rule exI) (rule conjI, simp add: print_processes_def, rule disjI2, rule disjI2, rule disjI1, rule refl, simp add: ljust_def)

end
