(* ===== verification/Cluster_Wait.thy ===== *)
theory Cluster_Wait
  imports Prelude
begin

text \<open>
  The wait of \<open>13-rpi5-lab/exercises/cluster-join/main.go\<close>: \<open>waitForNodeReady\<close> polls the node
  at every tick of a ticker until it is Ready or the context of the timeout is done. The
  \<open>select\<close> of the loop is a step relation, since Go chooses freely when both channels are
  ready; \<open>wait_loop\<close> is the loop itself, the choices given.
\<close>

subsection \<open>The node object\<close>

record nodecond =
  nc_Type :: string
  nc_Status :: string

record nodestatus =
  nd_Name :: string
  nd_Labels :: "(string \<times> string) list"
  nd_Conditions :: "nodecond list"
  nd_Architecture :: string
  nd_KernelVersion :: string
  nd_ContainerRuntimeVersion :: string
  nd_KubeletVersion :: string

definition node_ready :: "nodestatus \<Rightarrow> bool" where
  "node_ready node \<longleftrightarrow> list_ex (\<lambda>cond. nc_Type cond = ''Ready'' \<and> nc_Status cond = ''True'') (nd_Conditions node)"

subsection \<open>The select\<close>

text \<open>
  Times are nanoseconds since the call. \<open>Polling now recv n\<close>: the loop is about to select, the
  recv tick was received at time \<open>recv\<close> (0: none yet), and \<open>n\<close> polls are done. The others are
  the returns, with the number of the poll or of the polls done and the time, and a call of
  \<open>kubectl\<close> that does not come back.
\<close>

datatype wait_state =
    Polling nat nat nat
  | ReadyAt nodestatus nat nat
  | TimedOut nat nat
  | Hung nat

text \<open>
  The channel of a ticker holds one tick and further ticks are dropped while it is full, so
  after a receive at \<open>recv\<close> the next one is possible from the next multiple of the period on.
  The select blocks until that time or the deadline.
\<close>

definition tick_at :: "nat \<Rightarrow> nat \<Rightarrow> nat" where
  "tick_at period recv = (recv div period + 1) * period"

definition wake :: "nat \<Rightarrow> nat \<Rightarrow> nat \<Rightarrow> nat \<Rightarrow> nat" where
  "wake period deadline now recv = max now (min (tick_at period recv) deadline)"

text \<open>What a poll makes of the state: poll \<open>n\<close> started at \<open>w\<close>, took \<open>d\<close> and gave \<open>r\<close>.\<close>

definition after_poll :: "nat \<Rightarrow> nat \<Rightarrow> nat \<Rightarrow> go_err + nodestatus \<Rightarrow> wait_state" where
  "after_poll w d n r =
     (case r of
        Inl err \<Rightarrow> Polling (w + d) w (n + 1)
      | Inr node \<Rightarrow> if node_ready node then ReadyAt node n (w + d) else Polling (w + d) w (n + 1))"

inductive wait_step ::
  "nat \<Rightarrow> nat \<Rightarrow> (nat \<Rightarrow> nat option) \<Rightarrow> (nat \<Rightarrow> go_err + nodestatus) \<Rightarrow> wait_state \<Rightarrow> wait_state \<Rightarrow> bool"
  for period deadline delay probe where
  tick: "w = wake period deadline now recv \<Longrightarrow> tick_at period recv \<le> w \<Longrightarrow> delay n = Some d \<Longrightarrow>
     wait_step period deadline delay probe (Polling now recv n) (after_poll w d n (probe n))"
| hang: "tick_at period recv \<le> wake period deadline now recv \<Longrightarrow> delay n = None \<Longrightarrow>
     wait_step period deadline delay probe (Polling now recv n) (Hung n)"
| expire: "w = wake period deadline now recv \<Longrightarrow> deadline \<le> w \<Longrightarrow>
     wait_step period deadline delay probe (Polling now recv n) (TimedOut n w)"

inductive_cases wait_step_Polling: "wait_step period deadline delay probe (Polling now recv n) s'"

abbreviation wait_steps ::
  "nat \<Rightarrow> nat \<Rightarrow> (nat \<Rightarrow> nat option) \<Rightarrow> (nat \<Rightarrow> go_err + nodestatus) \<Rightarrow> wait_state \<Rightarrow> wait_state \<Rightarrow> bool" where
  "wait_steps period deadline delay probe \<equiv> (wait_step period deadline delay probe)\<^sup>*\<^sup>*"

subsection \<open>The loop\<close>

text \<open>
  One iteration, \<open>pick n\<close> telling whether the select takes the done channel when both are
  ready. The loop returns the final state; a loop that polls for ever, and a poll that hangs,
  return nothing.
\<close>

definition wait_next ::
  "nat \<Rightarrow> nat \<Rightarrow> (nat \<Rightarrow> nat option) \<Rightarrow> (nat \<Rightarrow> go_err + nodestatus) \<Rightarrow> (nat \<Rightarrow> bool) \<Rightarrow> nat \<Rightarrow> nat \<Rightarrow> nat \<Rightarrow> wait_state" where
  "wait_next period deadline delay probe pick now recv n =
     (let w = wake period deadline now recv in
      if deadline \<le> w \<and> (\<not> tick_at period recv \<le> w \<or> pick n) then TimedOut n w
      else (case delay n of
              None \<Rightarrow> Hung n
            | Some d \<Rightarrow> after_poll w d n (probe n)))"

partial_function (option) wait_loop ::
  "nat \<Rightarrow> nat \<Rightarrow> (nat \<Rightarrow> nat option) \<Rightarrow> (nat \<Rightarrow> go_err + nodestatus) \<Rightarrow> (nat \<Rightarrow> bool) \<Rightarrow> wait_state \<Rightarrow> wait_state option" where
  "wait_loop period deadline delay probe pick s =
     (case s of
        Polling now recv n \<Rightarrow> wait_loop period deadline delay probe pick (wait_next period deadline delay probe pick now recv n)
      | ReadyAt node n t \<Rightarrow> Some s
      | TimedOut n t \<Rightarrow> Some s
      | Hung n \<Rightarrow> None)"

declare wait_loop.simps [code]

lemma wake_or: "tick_at period recv \<le> wake period deadline now recv \<or> deadline \<le> wake period deadline now recv"
  by (auto simp: wake_def)

lemma wait_next_step:
  "wait_step period deadline delay probe (Polling now recv n) (wait_next period deadline delay probe pick now recv n)"
  using wake_or [of period recv deadline now]
  by (auto simp: wait_next_def Let_def not_le intro!: wait_step.intros split: option.splits)

lemma wait_loop_simps [simp]:
  "wait_loop period deadline delay probe pick (Polling now recv n) =
     wait_loop period deadline delay probe pick (wait_next period deadline delay probe pick now recv n)"
  "wait_loop period deadline delay probe pick (ReadyAt node n t) = Some (ReadyAt node n t)"
  "wait_loop period deadline delay probe pick (TimedOut n t) = Some (TimedOut n t)"
  "wait_loop period deadline delay probe pick (Hung n) = None"
  by (subst wait_loop.simps, simp)+

text \<open>The loop is a run of the relation.\<close>

lemma wait_loop_steps:
  assumes "wait_loop period deadline delay probe pick s = Some r"
  shows "wait_steps period deadline delay probe s r"
proof (rule wait_loop.raw_induct [where P = "\<lambda>period deadline delay probe pick s r. wait_steps period deadline delay probe s r", OF _ assms])
  fix rec :: "nat \<Rightarrow> nat \<Rightarrow> (nat \<Rightarrow> nat option) \<Rightarrow> (nat \<Rightarrow> go_err + nodestatus) \<Rightarrow> (nat \<Rightarrow> bool) \<Rightarrow> wait_state \<Rightarrow> wait_state option"
  fix period deadline delay probe pick s r
  assume ih: "\<And>period deadline delay probe pick s r. rec period deadline delay probe pick s = Some r \<Longrightarrow> wait_steps period deadline delay probe s r"
    and eq: "(case s of Polling now recv n \<Rightarrow> rec period deadline delay probe pick (wait_next period deadline delay probe pick now recv n)
      | ReadyAt node n t \<Rightarrow> Some s | TimedOut n t \<Rightarrow> Some s | Hung n \<Rightarrow> None) = Some r"
  show "wait_steps period deadline delay probe s r"
  proof (cases s)
    case (Polling now recv n)
    with eq ih have "wait_steps period deadline delay probe (wait_next period deadline delay probe pick now recv n) r" by simp
    with Polling show ?thesis using wait_next_step by (metis converse_rtranclp_into_rtranclp)
  qed (use eq in auto)
qed

subsection \<open>Invariant\<close>

text \<open>
  What holds in every reachable state: the polls done so far were not Ready, poll \<open>n\<close> does not
  start before \<open>n\<close> periods have passed, and a timeout is not before the deadline.
\<close>

definition not_ready :: "go_err + nodestatus \<Rightarrow> bool" where
  "not_ready r \<longleftrightarrow> (case r of Inl _ \<Rightarrow> True | Inr node \<Rightarrow> \<not> node_ready node)"

fun wait_inv :: "nat \<Rightarrow> nat \<Rightarrow> (nat \<Rightarrow> go_err + nodestatus) \<Rightarrow> wait_state \<Rightarrow> bool" where
  "wait_inv period deadline probe (Polling now recv n) =
     (n \<le> recv div period \<and> recv \<le> now \<and> (\<forall>i < n. not_ready (probe i)))"
| "wait_inv period deadline probe (ReadyAt node n t) =
     ((\<forall>i < n. not_ready (probe i)) \<and> probe n = Inr node \<and> node_ready node \<and> (n + 1) * period \<le> t)"
| "wait_inv period deadline probe (TimedOut n t) = (deadline \<le> t \<and> n * period \<le> t \<and> (\<forall>i < n. not_ready (probe i)))"
| "wait_inv period deadline probe (Hung n) = (\<forall>i < n. not_ready (probe i))"

lemma tick_at_div: "0 < period \<Longrightarrow> tick_at period recv \<le> w \<Longrightarrow> recv div period < w div period"
  by (simp add: tick_at_def Suc_le_eq [symmetric] less_eq_div_iff_mult_less_eq)

lemma after_poll_inv:
  assumes "0 < period" "Suc n \<le> w div period" "\<forall>i < n. not_ready (probe i)"
  shows "wait_inv period deadline probe (after_poll w d n (probe n))"
proof -
  have "Suc n * period \<le> w" using assms(1,2) by (simp add: less_eq_div_iff_mult_less_eq)
  then show ?thesis using assms
    by (auto simp: after_poll_def not_ready_def less_Suc_eq split: sum.splits)
qed

lemma wait_step_inv:
  assumes "wait_step period deadline delay probe s s'" and "0 < period" and "wait_inv period deadline probe s"
  shows "wait_inv period deadline probe s'"
  using assms
proof cases
  case (tick w now recv n d)
  then show ?thesis
    using assms tick_at_div [of period recv w] by (auto intro!: after_poll_inv)
next
  case (expire w now recv n)
  have "n * period \<le> recv" using assms expire by (simp add: less_eq_div_iff_mult_less_eq)
  then show ?thesis using assms expire by (auto simp: wake_def)
qed auto

lemma wait_steps_inv:
  assumes "wait_steps period deadline delay probe s s'" and "0 < period" and "wait_inv period deadline probe s"
  shows "wait_inv period deadline probe s'"
  using assms by (induction rule: rtranclp_induct) (auto intro: wait_step_inv)

subsection \<open>Polls that take less than a period\<close>

definition quick :: "nat \<Rightarrow> (nat \<Rightarrow> nat option) \<Rightarrow> bool" where
  "quick period delay \<longleftrightarrow> (\<forall>n. \<exists>d < period. delay n = Some d)"

text \<open>Then every poll starts exactly on its tick.\<close>

lemma quick_next:
  assumes "quick period delay" and now: "n * period \<le> now" "now < (n + 1) * period"
  shows "wait_next period deadline delay probe pick now (n * period) n =
    (if (n + 1) * period < deadline \<or> (n + 1) * period = deadline \<and> \<not> pick n
     then after_poll ((n + 1) * period) (the (delay n)) n (probe n)
     else TimedOut n (max now deadline))"
proof -
  obtain d where d: "delay n = Some d" "d < period" using assms(1) by (auto simp: quick_def)
  then have "tick_at period (n * period) = (n + 1) * period" by (simp add: tick_at_def)
  with d now show ?thesis
    by (auto simp: wait_next_def wake_def Let_def max_def min_def)
qed

fun wait_time :: "wait_state \<Rightarrow> nat" where
  "wait_time (Polling now recv n) = now"
| "wait_time (ReadyAt node n t) = t"
| "wait_time (TimedOut n t) = t"
| "wait_time (Hung n) = 0"

lemma quick_delay: "quick period delay \<Longrightarrow> the (delay n) < period"
  unfolding quick_def by (metis option.sel)

lemma after_poll_cases:
  obtains (Ready) node where "probe n = Inr node" "node_ready node" "after_poll w d n (probe n) = ReadyAt node n (w + d)"
  | (Again) "not_ready (probe n)" "after_poll w d n (probe n) = Polling (w + d) w (n + 1)"
  by (cases "probe n") (auto simp: after_poll_def not_ready_def split: if_splits)

lemma quick_loop_ends:
  assumes q: "quick period delay" and p: "0 < period"
  shows "n * period \<le> now \<Longrightarrow> now < (n + 1) * period \<Longrightarrow> n * period \<le> deadline \<Longrightarrow>
    \<exists>r. wait_loop period deadline delay probe pick (Polling now (n * period) n) = Some r
      \<and> wait_time r < deadline + period"
proof (induction "deadline + 1 - n * period" arbitrary: n now rule: less_induct)
  case less
  let ?w = "(n + 1) * period"
  note nxt = quick_next [OF q less.prems(1,2), of deadline probe pick]
  show ?case
  proof (cases "?w < deadline \<or> ?w = deadline \<and> \<not> pick n")
    case True
    note d = quick_delay [OF q, of n]
    show ?thesis
    proof (cases rule: after_poll_cases [of probe n ?w "the (delay n)"])
      case (Ready node)
      then show ?thesis using nxt True d by simp linarith
    next
      case Again
      have "deadline + 1 - ?w < deadline + 1 - n * period" using less.prems(3) p by simp
      from less.hyps [OF this, of "?w + the (delay n)"] have
        "\<exists>r. wait_loop period deadline delay probe pick (Polling (?w + the (delay n)) ?w (n + 1)) = Some r
          \<and> wait_time r < deadline + period"
        using True d by (auto simp: algebra_simps)
      then show ?thesis using nxt True Again by simp
    qed
  next
    case False
    then show ?thesis using nxt less.prems by auto
  qed
qed

lemma quick_loop_ready:
  assumes q: "quick period delay" and r: "probe k = Inr node" "node_ready node"
    and before: "\<forall>i < k. not_ready (probe i)" and d: "(k + 1) * period < deadline"
  shows "n \<le> k \<Longrightarrow> n * period \<le> now \<Longrightarrow> now < (n + 1) * period \<Longrightarrow>
    wait_loop period deadline delay probe pick (Polling now (n * period) n)
      = Some (ReadyAt node k ((k + 1) * period + the (delay k)))"
proof (induction "k - n" arbitrary: n now)
  case 0
  then have "n = k" by simp
  with 0 r d show ?case using quick_next [OF q 0(3,4)] by (simp add: after_poll_def)
next
  case (Suc m)
  let ?w = "(n + 1) * period"
  have "n < k" using Suc.hyps(2) by simp
  then have "?w \<le> (k + 1) * period" "not_ready (probe n)" using before mult_le_mono1 by (simp, blast)
  then have "?w < deadline" using d by (meson le_less_trans)
  with quick_next [OF q Suc.prems(2,3), of deadline probe pick] \<open>?w \<le> (k + 1) * period\<close> \<open>not_ready (probe n)\<close>
  have "wait_next period deadline delay probe pick now (n * period) n = Polling (?w + the (delay n)) ?w (n + 1)"
    by (cases "probe n") (auto simp: after_poll_def not_ready_def)
  moreover have "m = k - (n + 1)" using Suc.hyps(2) by simp
  ultimately show ?case
    using Suc.hyps(1) [of "n + 1" "?w + the (delay n)"] \<open>n < k\<close> quick_delay [OF q, of n] by (simp add: algebra_simps)
qed

subsection \<open>Properties\<close>

text \<open>The counter of polls only grows, so one choice per counter describes a whole run.\<close>

fun polls_done :: "wait_state \<Rightarrow> nat" where
  "polls_done (Polling now recv n) = n"
| "polls_done (ReadyAt node n t) = n"
| "polls_done (TimedOut n t) = n"
| "polls_done (Hung n) = n"

lemma after_poll_done: "after_poll w d n r = TimedOut m t \<longleftrightarrow> False"
  "after_poll w d n r = Polling now recv m \<longleftrightarrow> not_ready r \<and> now = w + d \<and> recv = w \<and> m = Suc n"
  by (auto simp: after_poll_def not_ready_def split: sum.splits)

lemma wait_steps_stuck:
  "wait_steps period deadline delay probe s r \<Longrightarrow> (\<forall>now recv n. s \<noteq> Polling now recv n) \<Longrightarrow> r = s"
  by (erule converse_rtranclpE) (auto elim: wait_step.cases)

lemma wait_steps_count:
  "wait_steps period deadline delay probe s r \<Longrightarrow> polls_done s \<le> polls_done r"
  by (induction rule: rtranclp_induct)
     (auto elim!: wait_step.cases simp: after_poll_def split: sum.splits if_splits)

definition returned :: "wait_state \<Rightarrow> bool" where
  "returned r \<longleftrightarrow> (case r of ReadyAt _ _ _ \<Rightarrow> True | TimedOut _ _ \<Rightarrow> True | _ \<Rightarrow> False)"

lemma wait_loop_complete:
  assumes "wait_steps period deadline delay probe s r" and "returned r"
  shows "wait_loop period deadline delay probe (\<lambda>n. \<exists>t. r = TimedOut n t) s = Some r"
  using assms(1)
proof (induction rule: converse_rtranclp_induct)
  case base
  with assms(2) show ?case by (cases r) (auto simp: returned_def)
next
  case (step s s')
  from step.hyps(1) show ?case
  proof cases
    case (tick w now recv n d)
    have "r \<noteq> TimedOut n t" for t
      using wait_steps_count [OF step.hyps(2)] wait_steps_stuck [OF step.hyps(2)] tick
      by (cases rule: after_poll_cases [of probe n w d]) auto
    with tick step.IH show ?thesis by (auto simp: wait_next_def Let_def)
  next
    case (hang recv now n)
    with wait_steps_stuck [OF step.hyps(2)] assms(2) show ?thesis by (auto simp: returned_def)
  next
    case (expire w now recv n)
    with wait_steps_stuck [OF step.hyps(2)] have "r = TimedOut n w" by auto
    with expire show ?thesis by (auto simp: wait_next_def Let_def)
  qed
qed


text \<open>C2. Safety of the wait: whenever it returns a node, the poll with that number delivered
  this node with a condition Ready that is True, and no earlier poll had delivered a Ready
  node; whenever it gives up, the deadline has passed and every poll that was made was not
  Ready.\<close>

theorem waitForNodeReady_safe:
  assumes "0 < period" and "wait_steps period deadline delay probe (Polling 0 0 0) s"
  shows "case s of
      ReadyAt node n t \<Rightarrow> probe n = Inr node \<and> node_ready node \<and> (\<forall>i < n. not_ready (probe i)) \<and> (n + 1) * period \<le> t
    | TimedOut n t \<Rightarrow> deadline \<le> t \<and> n * period \<le> t \<and> (\<forall>i < n. not_ready (probe i))
    | Polling now recv n \<Rightarrow> n * period \<le> now \<and> (\<forall>i < n. not_ready (probe i))
    | Hung n \<Rightarrow> (\<forall>i < n. not_ready (probe i))"
proof -
  have inv: "wait_inv period deadline probe s" by (rule wait_steps_inv [OF assms(2,1)]) simp
  show ?thesis
  proof (cases s)
    case (Polling now recv n)
    with inv have "n * period \<le> recv" "recv \<le> now" using assms(1) by (simp_all add: less_eq_div_iff_mult_less_eq)
    with inv Polling show ?thesis by simp
  qed (use inv in auto)
qed

definition demo_nodestatus :: "string \<Rightarrow> nodestatus" where
  "demo_nodestatus status = \<lparr>nd_Name = ''rpi5-02'', nd_Labels = [],
     nd_Conditions = [\<lparr>nc_Type = ''DiskPressure'', nc_Status = ''False''\<rparr>, \<lparr>nc_Type = ''Ready'', nc_Status = status\<rparr>],
     nd_Architecture = ''arm64'', nd_KernelVersion = ''6.6.31'', nd_ContainerRuntimeVersion = ''containerd://1.7.11'',
     nd_KubeletVersion = ''v1.29.0+k3s1''\<rparr>"

text \<open>An example: the node is not there at the first poll, not Ready at the second, Ready at the third.\<close>

definition demo_probe :: "nat \<Rightarrow> go_err + nodestatus" where
  "demo_probe n = (if n = 0 then Inl (SysErr ''not found'') else Inr (demo_nodestatus (if n = 1 then ''False'' else ''True'')))"

theorem waitForNodeReady_safe_witness:
  "case wait_loop 5 180 (\<lambda>_. Some 1) demo_probe (\<lambda>_. True) (Polling 0 0 0) of
     Some s \<Rightarrow> s = ReadyAt (demo_nodestatus ''True'') 2 16 \<and> (\<forall>i < (2 :: nat). not_ready (demo_probe i))
   | None \<Rightarrow> False"
proof -
  have r: "wait_loop 5 180 (\<lambda>_. Some 1) demo_probe (\<lambda>_. True) (Polling 0 0 0) = Some (ReadyAt (demo_nodestatus ''True'') 2 16)"
    by code_simp
  from waitForNodeReady_safe [OF _ wait_loop_steps [OF r]] show ?thesis unfolding r by simp
qed

text \<open>C3. Termination of the wait: when every call of \<open>kubectl\<close> comes back in less than a
  period, the loop returns whatever the polls say and whichever channel Go prefers, and it
  does so less than one period after the deadline.\<close>

theorem waitForNodeReady_terminates:
  assumes "0 < period" and "quick period delay"
  shows "\<exists>r. wait_loop period deadline delay probe pick (Polling 0 0 0) = Some r \<and> wait_time r < deadline + period"
  using quick_loop_ends [OF assms(2,1), of 0 0 deadline probe pick] assms(1) by simp

theorem waitForNodeReady_terminates_witness:
  "\<exists>r. wait_loop 5 180 (\<lambda>_. Some 4) (\<lambda>_. Inl TooLong) (\<lambda>_. True) (Polling 0 0 0) = Some r \<and> wait_time r < 185"
  using waitForNodeReady_terminates [of 5 "\<lambda>_. Some 4" 180 "\<lambda>_. Inl TooLong" "\<lambda>_. True"] by (simp add: quick_def)

text \<open>C4. Liveness of the wait: a node that becomes Ready at poll \<open>k\<close>, whose tick lies before the
  deadline, is returned by that poll, exactly on its tick plus the time of the call.\<close>

theorem waitForNodeReady_finds:
  assumes "0 < period" and "quick period delay" and "probe k = Inr node" and "node_ready node"
    and "\<forall>i < k. not_ready (probe i)" and "(k + 1) * period < deadline"
  shows "wait_loop period deadline delay probe pick (Polling 0 0 0)
    = Some (ReadyAt node k ((k + 1) * period + the (delay k)))"
  using quick_loop_ready [OF assms(2-6), of 0 0 pick] assms(1) by simp

theorem waitForNodeReady_finds_witness:
  "\<forall>pick. wait_loop 5 180 (\<lambda>_. Some 1) demo_probe pick (Polling 0 0 0) = Some (ReadyAt (demo_nodestatus ''True'') 2 16)"
proof
  fix pick
  have "\<forall>i < (2 :: nat). not_ready (demo_probe i)" by code_simp
  moreover have "node_ready (demo_nodestatus ''True'')" by code_simp
  ultimately show "wait_loop 5 180 (\<lambda>_. Some 1) demo_probe pick (Polling 0 0 0) = Some (ReadyAt (demo_nodestatus ''True'') 2 16)"
    using waitForNodeReady_finds [of 5 "\<lambda>_. Some 1" demo_probe 2 "demo_nodestatus ''True''" 180 pick]
    by (simp add: quick_def demo_probe_def)
qed

text \<open>The deadline does not bound the wait when the polls are slow: as long as every call of
  \<open>kubectl\<close> takes a period or more and no node is Ready, a tick is always waiting beside the
  done channel, and for every number of polls there is a run that makes that many.\<close>

theorem waitForNodeReady_overrun:
  assumes "0 < period" "period \<le> deadline" and "\<forall>n. \<exists>d \<ge> period. delay n = Some d" and "\<forall>n. not_ready (probe n)"
  shows "\<exists>now recv. wait_steps period deadline delay probe (Polling 0 0 0) (Polling now recv m) \<and> m * period \<le> now"
proof -
  have "\<exists>now recv. wait_steps period deadline delay probe (Polling 0 0 0) (Polling now recv m)
      \<and> m * period \<le> now \<and> tick_at period recv \<le> max now (min period deadline)"
  proof (induction m)
    case 0
    have "tick_at period 0 \<le> max 0 (min period deadline)" using assms(2) by (simp add: tick_at_def)
    then show ?case by (intro exI [of _ 0]) simp
  next
    case (Suc m)
    then obtain now recv where s: "wait_steps period deadline delay probe (Polling 0 0 0) (Polling now recv m)"
      and now: "m * period \<le> now" and t: "tick_at period recv \<le> max now (min period deadline)" by blast
    obtain d where d: "delay m = Some d" "period \<le> d" using assms(3) by blast
    let ?w = "wake period deadline now recv"
    have "period \<le> tick_at period recv" by (simp add: tick_at_def)
    with t assms(2) have w: "tick_at period recv \<le> ?w" "now \<le> ?w" by (auto simp: wake_def max_def min_def split: if_splits)
    have "wait_step period deadline delay probe (Polling now recv m) (Polling (?w + d) ?w (Suc m))"
      using wait_step.tick [of ?w period deadline now recv delay m d probe] w(1) d(1) assms(4)
      by (metis after_poll_done(2))
    moreover have "tick_at period ?w \<le> ?w + d"
    proof -
      have "?w div period * period \<le> ?w" by (rule div_times_less_eq_dividend)
      from add_mono [OF this d(2)] show ?thesis by (simp add: tick_at_def add.commute)
    qed
    moreover have "Suc m * period \<le> ?w + d" using now w(2) d(2) by simp
    ultimately show ?case using rtranclp.rtrancl_into_rtrancl [OF s] by (metis max.coboundedI1)
  qed
  then show ?thesis by blast
qed

theorem waitForNodeReady_overrun_witness:
  "\<exists>now recv. wait_steps 5 180 (\<lambda>_. Some 5) (\<lambda>_. Inl no) (Polling 0 0 0) (Polling now recv 1000) \<and> 5000 \<le> now"
  using waitForNodeReady_overrun [of 5 180 "\<lambda>_. Some 5" "\<lambda>_. Inl no" 1000] by (simp add: not_ready_def)

end
