(* ===== verification/Go_Net.thy ===== *)
theory Go_Net
  imports Go_Path
begin

text \<open>
  The library functions that \<open>cluster-join\<close> checks and decodes its inputs with:
  \<open>net.ParseIP\<close> (only whether it returns an address), the two regular expressions of the
  tool on byte strings, and \<open>base64.StdEncoding.DecodeString\<close>.
\<close>

subsection \<open>net.ParseIP\<close>

definition octet :: "string \<Rightarrow> bool" where
  "octet s \<longleftrightarrow> s \<noteq> [] \<and> list_all (\<lambda>c. dec_digit c \<noteq> None) s \<and> (length s = 1 \<or> hd s \<noteq> CHR ''0'')
     \<and> fst (parse_uint 10 s) \<le> 255"

definition is_IPv4 :: "string \<Rightarrow> bool" where
  "is_IPv4 s \<longleftrightarrow> length (Split CHR ''.'' s) = 4 \<and> list_all octet (Split CHR ''.'' s)"

definition hex_digit :: "char \<Rightarrow> bool" where
  "hex_digit c \<longleftrightarrow> (case any_digit c of None \<Rightarrow> False | Some d \<Rightarrow> d < 16)"

text \<open>
  The loop of the IPv6 parser: \<open>i\<close> bytes are filled, \<open>ell\<close> tells whether \<open>::\<close> was seen,
  the string is what is left. The result is the number of bytes filled and whether an
  ellipsis was seen, and \<open>None\<close> is an error; a group of at most four digits cannot exceed 16 bits.
\<close>

function v6_groups :: "nat \<Rightarrow> bool \<Rightarrow> string \<Rightarrow> (nat \<times> bool) option" where
  "v6_groups i ell s =
     (if 16 \<le> i then (if s = [] then Some (i, ell) else None)
      else
        (let g = takeWhile hex_digit s; r = dropWhile hex_digit s in
         if g = [] \<or> 4 < length g then None
         else (case r of
             [] \<Rightarrow> Some (i + 2, ell)
           | c # r1 \<Rightarrow>
               if c = CHR ''.'' then
                 (if (\<not> ell \<and> i \<noteq> 12) \<or> 16 < i + 4 \<or> \<not> is_IPv4 s then None else Some (i + 4, ell))
               else if c \<noteq> CHR '':'' \<or> r1 = [] then None
               else if hd r1 = CHR '':'' then
                 (if ell then None
                  else if tl r1 = [] then Some (i + 2, True)
                  else v6_groups (i + 2) True (tl r1))
               else v6_groups (i + 2) ell r1)))"
  by pat_completeness auto
termination by (relation "measure (\<lambda>(i, _, _). 16 - i)") auto

declare v6_groups.simps [simp del]

definition is_IPv6 :: "string \<Rightarrow> bool" where
  "is_IPv6 s =
     (let lead = prefix ''::'' s; s' = (if lead then drop 2 s else s) in
      if lead \<and> s' = [] then True
      else (case v6_groups 0 lead s' of
          None \<Rightarrow> False
        | Some (i, ell) \<Rightarrow> if i < 16 then ell else \<not> ell))"

text \<open>
  \<open>net.ParseIP\<close> returns an address. A zone (\<open>%\<close>) makes it \<open>nil\<close>, wherever it stands: no
  address without one contains that byte.
\<close>

definition ParseIP_ok :: "string \<Rightarrow> bool" where
  "ParseIP_ok s =
     (case List.find (\<lambda>c. c \<in> {CHR ''.'', CHR '':'', CHR ''%''}) s of
        None \<Rightarrow> False
      | Some c \<Rightarrow>
          if c = CHR ''.'' then is_IPv4 s
          else if c = CHR '':'' then CHR ''%'' \<notin> set s \<and> is_IPv6 s
          else False)"

subsection \<open>The regular expressions\<close>

definition alnum :: "char \<Rightarrow> bool" where
  "alnum c \<longleftrightarrow> (let n = of_char c :: nat in
     (48 \<le> n \<and> n \<le> 57) \<or> (65 \<le> n \<and> n \<le> 90) \<or> (97 \<le> n \<and> n \<le> 122))"

text \<open>
  \<open>^[a-zA-Z0-9]([a-zA-Z0-9\-]{0,61}[a-zA-Z0-9])?$\<close>: one letter or digit, or between 2 and 63
  bytes that start and end with one. Bytes outside ASCII are in neither class.
\<close>

definition validHostname :: "string \<Rightarrow> bool" where
  "validHostname s \<longleftrightarrow> s \<noteq> [] \<and> alnum (hd s) \<and>
     (length s = 1 \<or> length s \<le> 63 \<and> alnum (last s) \<and> list_all (\<lambda>c. alnum c \<or> c = CHR ''-'') (butlast (tl s)))"

text \<open>\<open>^[A-Za-z0-9:_\-]+$\<close>\<close>

definition validToken :: "string \<Rightarrow> bool" where
  "validToken s \<longleftrightarrow> s \<noteq> [] \<and> list_all (\<lambda>c. alnum c \<or> c \<in> {CHR '':'', CHR ''_'', CHR ''-''}) s"

lemmas [go_eval] = octet_def is_IPv4_def hex_digit_def v6_groups.simps is_IPv6_def ParseIP_ok_def alnum_def
  validHostname_def validToken_def

lemma octet_chars: "octet s \<Longrightarrow> c \<in> set s \<Longrightarrow> dec_digit c \<noteq> None"
  by (auto simp: octet_def list_all_iff)

lemma in_Split: "c \<in> set s \<Longrightarrow> c = d \<or> (\<exists>p \<in> set (Split d s). c \<in> set p)"
  by (induction d s rule: Split.induct) (auto split: list.splits)

lemma is_IPv4_chars: "is_IPv4 s \<Longrightarrow> c \<in> set s \<Longrightarrow> c = CHR ''.'' \<or> dec_digit c \<noteq> None"
  using in_Split [of c s "CHR ''.''"] octet_chars by (auto simp: is_IPv4_def list_all_iff)

lemma dec_hex_digit: "dec_digit c \<noteq> None \<Longrightarrow> hex_digit c"
  by (auto simp: dec_digit_def any_digit_def hex_digit_def Let_def split: if_splits)

lemma is_IPv4_chars': "is_IPv4 s \<Longrightarrow> c \<in> set s \<Longrightarrow> hex_digit c \<or> c = CHR ''.''"
  using is_IPv4_chars dec_hex_digit by blast

definition ip_char :: "char \<Rightarrow> bool" where
  "ip_char c \<longleftrightarrow> hex_digit c \<or> c = CHR '':'' \<or> c = CHR ''.''"

lemma is_IPv4_ip: "is_IPv4 s \<Longrightarrow> list_all ip_char s"
  using is_IPv4_chars' by (auto simp: list_all_iff ip_char_def)

lemma v6_groups_chars: "v6_groups i ell s = Some r \<Longrightarrow> list_all ip_char s"
proof (induction i ell s arbitrary: r rule: v6_groups.induct)
  case (1 i ell s)
  let ?g = "takeWhile hex_digit s" and ?r = "dropWhile hex_digit s"
  have g: "list_all ip_char ?g" by (auto simp: list_all_iff ip_char_def dest: set_takeWhileD)
  have i: "s = [] \<or> \<not> 16 \<le> i" and len: "s = [] \<or> \<not> (?g = [] \<or> 4 < length ?g)"
    using 1 by (auto simp: v6_groups.simps [of i ell s] Let_def split: if_splits)
  have rest: "list_all ip_char ?r \<or> is_IPv4 s"
  proof (cases ?r)
    case (Cons d r1)
    then have "s \<noteq> []" by auto
    note i = i[simplified this simp_thms] and len = len[simplified this simp_thms(31)]
    note eq = "1.prems"[unfolded v6_groups.simps [of i ell s] Let_def Cons]
    note ih = "1.IH"(1) [OF i refl refl _ Cons] "1.IH"(2) [OF i refl refl _ Cons]
    consider "d = CHR ''.''" "is_IPv4 s" | "d = CHR '':''" "r1 \<noteq> []"
      using eq i len \<open>s \<noteq> []\<close> by (auto split: if_splits)
    then show ?thesis
    proof cases
      case 2
      show ?thesis
      proof (cases "hd r1 = CHR '':''")
        case True
        with eq i len 2 \<open>s \<noteq> []\<close> have "\<not> ell" "tl r1 = [] \<or> v6_groups (i + 2) True (tl r1) = Some r"
          by (auto split: if_splits)
        then have "list_all ip_char (tl r1)" using ih(1) len 2 True \<open>s \<noteq> []\<close> by (cases r; cases "tl r1 = []") auto
        then show ?thesis using Cons 2 True by (cases r1) (auto simp: ip_char_def)
      next
        case False
        with eq i len 2 \<open>s \<noteq> []\<close> have "v6_groups (i + 2) ell r1 = Some r" by (auto split: if_splits)
        then have "list_all ip_char r1" using ih(2) len 2 False \<open>s \<noteq> []\<close> by (cases r) auto
        then show ?thesis using Cons 2 by (auto simp: ip_char_def)
      qed
    qed simp
  next
    case Nil
    then show ?thesis by (simp only: list.pred_inject simp_thms)
  qed
  then show ?case using g is_IPv4_ip by (metis list_all_append takeWhile_dropWhile_id)
qed

text \<open>An accepted address consists of digits, colons and dots: nothing a shell would read.\<close>

lemma ParseIP_ok_chars: "ParseIP_ok s \<Longrightarrow> list_all ip_char s"
proof -
  assume "ParseIP_ok s"
  then consider "is_IPv4 s" | "is_IPv6 s" by (auto simp: ParseIP_ok_def split: option.splits if_splits)
  then show ?thesis
  proof cases
    case 2
    then have "prefix ''::'' s \<and> (drop 2 s = [] \<or> (\<exists>r. v6_groups 0 True (drop 2 s) = Some r))
        \<or> (\<exists>r. v6_groups 0 False s = Some r)"
      by (auto simp: is_IPv6_def Let_def split: option.splits if_splits)
    then show ?thesis
      using v6_groups_chars by (force simp: prefix_def ip_char_def)
  qed (rule is_IPv4_ip)
qed

lemma validHostname_chars:
  assumes "validHostname s" shows "list_all (\<lambda>c. alnum c \<or> c = CHR ''-'') s"
proof -
  from assms obtain c t where s: "s = c # t" "alnum c" by (cases s) (auto simp: validHostname_def)
  show ?thesis
  proof (cases t rule: rev_cases)
    case (snoc u d)
    with assms s show ?thesis by (simp add: validHostname_def)
  qed (use s in simp)
qed

subsection \<open>base64.StdEncoding\<close>

definition b64_val :: "char \<Rightarrow> nat option" where
  "b64_val c = (let n = of_char c :: nat in
     if 65 \<le> n \<and> n \<le> 90 then Some (n - 65)
     else if 97 \<le> n \<and> n \<le> 122 then Some (n - 71)
     else if 48 \<le> n \<and> n \<le> 57 then Some (n + 4)
     else if n = 43 then Some 62 else if n = 47 then Some 63 else None)"

definition b64_char :: "nat \<Rightarrow> char" where
  "b64_char v = char_of (if v < 26 then v + 65 else if v < 52 then v + 71
     else if v < 62 then v - 4 else if v = 62 then 43 else 47)"

text \<open>
  The quanta of four characters; only the last may be padded, and the bits the padding
  leaves over are not checked (the encoding is not \<open>Strict\<close>).
\<close>

fun b64_quanta :: "string \<Rightarrow> string option" where
  "b64_quanta [] = Some []"
| "b64_quanta (a # b # c # d # s) =
     (case (b64_val a, b64_val b) of
        (Some v, Some w) \<Rightarrow>
          (case b64_val c of
             None \<Rightarrow> if c = CHR ''='' \<and> d = CHR ''='' \<and> s = [] then Some [char_of (v * 4 + w div 16)] else None
           | Some x \<Rightarrow>
               (case b64_val d of
                  None \<Rightarrow> if d = CHR ''='' \<and> s = []
                    then Some [char_of (v * 4 + w div 16), char_of (w mod 16 * 16 + x div 4)] else None
                | Some y \<Rightarrow> map_option
                    (\<lambda>r. char_of (v * 4 + w div 16) # char_of (w mod 16 * 16 + x div 4) # char_of (x mod 4 * 64 + y) # r)
                    (b64_quanta s)))
      | _ \<Rightarrow> None)"
| "b64_quanta _ = None"

text \<open>Line breaks are skipped wherever they stand.\<close>

definition b64_decode :: "string \<Rightarrow> string option" where
  "b64_decode s = b64_quanta (filter (\<lambda>c. c \<noteq> CHR 0x0A \<and> c \<noteq> CHR 0x0D) s)"

text \<open>The encoder, for the statements: it is what wrote the file.\<close>

fun b64_encode :: "string \<Rightarrow> string" where
  "b64_encode [] = []"
| "b64_encode [a] = (let m = of_char a :: nat in
     [b64_char (m div 4), b64_char (m mod 4 * 16), CHR ''='', CHR ''=''])"
| "b64_encode [a, b] = (let m = of_char a :: nat; n = of_char b in
     [b64_char (m div 4), b64_char (m mod 4 * 16 + n div 16), b64_char (n mod 16 * 4), CHR ''=''])"
| "b64_encode (a # b # c # s) = (let m = of_char a :: nat; n = of_char b; k = of_char c in
     b64_char (m div 4) # b64_char (m mod 4 * 16 + n div 16) # b64_char (n mod 16 * 4 + k div 64)
     # b64_char (k mod 64) # b64_encode s)"

lemmas [go_eval] = b64_val_def b64_char_def b64_decode_def

lemma b64_val_char: "v < 64 \<Longrightarrow> b64_val (b64_char v) = Some v"
  by (auto simp: b64_val_def b64_char_def Let_def)

lemma b64_val_pad [simp]: "b64_val CHR ''='' = None"
  by (simp add: b64_val_def)

lemma of_char_256: "(of_char c :: nat) < 256"
  by (cases c) (simp add: of_char_def)

lemma b64_bounds:
  fixes m n k :: nat
  assumes "m < 256" "n < 256" "k < 256"
  shows "m div 4 < 64" "m mod 4 * 16 < 64" "m mod 4 * 16 + n div 16 < 64" "n mod 16 * 4 < 64"
    "n mod 16 * 4 + k div 64 < 64" "k mod 64 < 64"
    "n div 16 div 16 = 0" "n div 16 mod 16 = n div 16" "k div 64 div 4 = 0" "k div 64 mod 4 = k div 64"
proof -
  have "n div 16 < 16" "k div 64 < 4" "m mod 4 < 4" "n mod 16 < 16" using assms by linarith+
  then show "m mod 4 * 16 + n div 16 < 64" "n mod 16 * 4 + k div 64 < 64" "m mod 4 * 16 < 64"
    "n mod 16 * 4 < 64" "n div 16 div 16 = 0" "n div 16 mod 16 = n div 16" "k div 64 div 4 = 0"
    "k div 64 mod 4 = k div 64" "m div 4 < 64" "k mod 64 < 64" using assms by simp_all
qed

lemmas b64_bytes = b64_bounds [OF of_char_256 of_char_256 of_char_256]

lemma b64_quanta_encode: "b64_quanta (b64_encode s) = Some s"
  by (induction s rule: b64_encode.induct)
     (simp_all add: Let_def b64_val_char b64_bytes)

end
