(* ===== verification/Cluster_Join.thy ===== *)
theory Cluster_Join
  imports Cluster_Wait Go_Net Go_Fmt Formats "HOL-Library.Multiset"
begin

text \<open>
  \<open>13-rpi5-lab/exercises/cluster-join/main.go\<close>: the checks of the flags, the connectivity test
  with the CA of the kubeconfig, the installation, the wait and the labels, as one run that
  yields the trace of its outputs and effects and the exit code. What the tool only calls
  (the control plane over HTTPS, \<open>get.k3s.io\<close>, \<open>kubectl\<close>, the certificate and JSON parsers) is
  the record \<open>join_world\<close>, an argument of the definitions.
\<close>

subsection \<open>Flags, world, trace\<close>

record join_flags =
  jf_server :: string
  jf_token :: string
  jf_node_name :: string
  jf_node_ip :: string
  jf_dry_run :: bool
  jf_wait :: int
  jf_kubeconfig :: string

text \<open>
  \<open>jw_pem\<close>: \<open>AppendCertsFromPEM\<close> finds a certificate. \<open>jw_healthz ca url\<close>: the error of the
  GET of \<open>url\<close> with only \<open>ca\<close> trusted. \<open>jw_installer\<close>: the response to the GET of the
  installer, its status and body. \<open>jw_temp\<close>, \<open>jw_copy\<close>, \<open>jw_chmod\<close>: creating, writing and
  chmod of the temporary file. \<open>jw_exec argv env\<close>: the error of a command, with the
  environment given or inherited. \<open>jw_kubectl n argv\<close>: output of the \<open>n\<close>-th poll, which takes
  \<open>jw_delay n\<close> nanoseconds or for ever. \<open>jw_pick\<close>: the choices of \<open>select\<close>; \<open>jw_order i\<close>:
  the order of the \<open>i\<close>-th iteration over the map of labels.
\<close>

record join_world =
  jw_view :: sysview
  jw_pem :: "string \<Rightarrow> bool"
  jw_healthz :: "string \<Rightarrow> string \<Rightarrow> go_err option"
  jw_uid :: nat
  jw_hostname :: string
  jw_environ :: "string list"
  jw_installer :: "go_err + nat \<times> string"
  jw_temp :: "go_err + string"
  jw_copy :: "go_err option"
  jw_chmod :: "go_err option"
  jw_exec :: "string list \<Rightarrow> string list option \<Rightarrow> go_err option"
  jw_k3s :: bool
  jw_kubectl :: "nat \<Rightarrow> string list \<Rightarrow> go_err + string"
  jw_delay :: "nat \<Rightarrow> nat option"
  jw_json :: "string \<Rightarrow> go_err + nodestatus"
  jw_pick :: "nat \<Rightarrow> bool"
  jw_order :: "nat \<Rightarrow> (string \<times> string) list \<Rightarrow> (string \<times> string) list"

text \<open>
  \<open>Say\<close> is a line of output, \<open>SayPart\<close> output without a line end, \<open>SayQ a s b\<close> a line with
  \<open>s\<close> under \<open>%q\<close> between \<open>a\<close> and \<open>b\<close>, \<open>SayWait\<close> the line with the node name (\<open>%q\<close>) and the
  duration; the others are the effects in their order.
\<close>

datatype event =
    Say out_line
  | SayPart string
  | SayQ string string string
  | SayWait string int
  | HttpGet string
  | CreateTemp string
  | WriteTemp string string
  | RemoveTemp string
  | Exec "string list" "string list option"

subsection \<open>Checks of the flags\<close>

definition serverHost :: "string \<Rightarrow> string" where
  "serverHost serverURL =
     (let s = TrimPrefix (TrimPrefix serverURL ''https://'') ''http://'' in
      case LastIndex s CHR '':'' of
        Some idx \<Rightarrow> if 0 < idx then take idx s else s
      | None \<Rightarrow> s)"

definition validateInputs :: "string \<Rightarrow> string \<Rightarrow> string \<Rightarrow> string \<Rightarrow> go_err option" where
  "validateInputs server tok nodeName nodeIP =
     (let host = serverHost server in
      if \<not> HasPrefix server ''https://'' then Some (Errorf ''server URL must start with https://'' [] None)
      else if \<not> ParseIP_ok host \<and> \<not> validHostname host
      then Some (Errorf ''server host %q is not a valid IP or hostname'' [host] None)
      else if \<not> validToken tok then Some (Errorf ''token contains invalid characters'' [] None)
      else if nodeName \<noteq> [] \<and> \<not> validHostname nodeName
      then Some (Errorf ''node-name %q is not a valid hostname'' [nodeName] None)
      else if nodeIP \<noteq> [] \<and> \<not> ParseIP_ok nodeIP
      then Some (Errorf ''node-ip %q is not a valid IP address'' [nodeIP] None)
      else None)"

subsection \<open>Connectivity\<close>

text \<open>The value of the first line that names the key; the text of a base64 error is kept without its offset.\<close>

definition ca_line :: "string \<Rightarrow> string option" where
  "ca_line line =
     (let trimmed = TrimSpace line in
      if HasPrefix trimmed ''certificate-authority-data:''
      then Some (TrimSpace (TrimPrefix trimmed ''certificate-authority-data:'')) else None)"

definition tlsConfigFromKubeconfig :: "join_world \<Rightarrow> string \<Rightarrow> go_err + string" where
  "tlsConfigFromKubeconfig w path =
     (case os_ReadFile (jw_view w) path of
        Inl err \<Rightarrow> Inl err
      | Inr content \<Rightarrow>
          (let caB64 = (case first_some ca_line (Split CHR 0x0A content) of None \<Rightarrow> [] | Some v \<Rightarrow> v) in
           if caB64 = [] then Inl (Errorf ''certificate-authority-data not found in %s'' [path] None)
           else (case b64_decode caB64 of
                   None \<Rightarrow> Inl (Errorf ''decode CA cert: %w'' [] (Some (Errorf ''illegal base64 data'' [] None)))
                 | Some ca \<Rightarrow>
                     if \<not> jw_pem w ca then Inl (Errorf ''could not add k3s CA to cert pool'' [] None)
                     else Inr ca)))"

definition checkConnectivity :: "join_world \<Rightarrow> string \<Rightarrow> string \<Rightarrow> go_err option" where
  "checkConnectivity w kubeconf serverURL =
     (case tlsConfigFromKubeconfig w kubeconf of
        Inl err \<Rightarrow> Some (Errorf (''load k3s CA from kubeconfig: %w'' @ [CHR 0x0A]
          @ ''  Ensure %s exists on the control plane node'') [kubeconf] (Some err))
      | Inr ca \<Rightarrow> jw_healthz w ca (serverURL @ ''/healthz''))"

subsection \<open>Installation\<close>

definition printInstallCmd :: "string \<Rightarrow> string \<Rightarrow> string \<Rightarrow> string \<Rightarrow> event list" where
  "printInstallCmd server tok nodeName nodeIP =
     [Say (Out ''  # Environment variables passed to k3s installer:''),
      Say (Out (''  K3S_URL='' @ server @ '' '' @ [CHR 0x5C])),
      Say (Out (''  K3S_TOKEN=<token> '' @ [CHR 0x5C]))] @
     (if nodeName \<noteq> [] then [Say (Out (''  K3S_NODE_NAME='' @ nodeName @ '' '' @ [CHR 0x5C]))] else []) @
     (if nodeIP \<noteq> [] then [Say (Out (''  INSTALL_K3S_EXEC='' @ [CHR 0x22] @ ''agent --node-ip='' @ nodeIP
        @ [CHR 0x22] @ '' '' @ [CHR 0x5C]))] else []) @
     [Say (Out ''  sh /tmp/k3s-install.sh'')]"

text \<open>The status of the response is not looked at; the body is what the file holds.\<close>

definition downloadInstallScript :: "join_world \<Rightarrow> event list \<times> (go_err + string)" where
  "downloadInstallScript w =
     (case jw_installer w of
        Inl err \<Rightarrow> ([HttpGet ''https://get.k3s.io''], Inl err)
      | Inr (status, body) \<Rightarrow>
          (case jw_temp w of
             Inl err \<Rightarrow> ([HttpGet ''https://get.k3s.io''], Inl err)
           | Inr f \<Rightarrow>
               (case jw_copy w of
                  Some err \<Rightarrow> ([HttpGet ''https://get.k3s.io'', CreateTemp f, RemoveTemp f], Inl err)
                | None \<Rightarrow>
                    (case jw_chmod w of
                       Some err \<Rightarrow> ([HttpGet ''https://get.k3s.io'', CreateTemp f, WriteTemp f body, RemoveTemp f], Inl err)
                     | None \<Rightarrow> ([HttpGet ''https://get.k3s.io'', CreateTemp f, WriteTemp f body], Inr f)))))"

definition install_env :: "join_world \<Rightarrow> string \<Rightarrow> string \<Rightarrow> string \<Rightarrow> string \<Rightarrow> string list" where
  "install_env w server tok nodeName nodeIP =
     (let execArgs = ''agent'' @ (if nodeIP \<noteq> [] then '' --node-ip='' @ nodeIP else []) in
      jw_environ w @ [''INSTALL_K3S_EXEC='' @ execArgs, ''K3S_URL='' @ server, ''K3S_TOKEN='' @ tok] @
      (if nodeName \<noteq> [] then [''K3S_NODE_NAME='' @ nodeName] else []))"

definition downloadAndInstall ::
  "join_world \<Rightarrow> string \<Rightarrow> string \<Rightarrow> string \<Rightarrow> string \<Rightarrow> event list \<times> go_err option" where
  "downloadAndInstall w server tok nodeName nodeIP =
     (case downloadInstallScript w of
        (es, Inl err) \<Rightarrow> (es, Some (Errorf ''download install script: %w'' [] (Some err)))
      | (es, Inr scriptPath) \<Rightarrow>
          (let env = install_env w server tok nodeName nodeIP in
           (es @ [Exec [''sh'', scriptPath] (Some env), RemoveTemp scriptPath],
            jw_exec w [''sh'', scriptPath] (Some env))))"

subsection \<open>Waiting for the node\<close>

definition kubectl_argv :: "join_world \<Rightarrow> string list \<Rightarrow> string list" where
  "kubectl_argv w args = (if jw_k3s w then [''k3s'', ''kubectl''] else [''kubectl'']) @ args"

definition get_node_argv :: "join_world \<Rightarrow> string \<Rightarrow> string \<Rightarrow> string list" where
  "get_node_argv w name kubeconf =
     kubectl_argv w [''get'', ''node'', name, ''-o'', ''json'', ''--kubeconfig='' @ kubeconf]"

definition getNode :: "join_world \<Rightarrow> string \<Rightarrow> string \<Rightarrow> nat \<Rightarrow> go_err + nodestatus" where
  "getNode w name kubeconf n =
     (case jw_kubectl w n (get_node_argv w name kubeconf) of
        Inl err \<Rightarrow> Inl err
      | Inr out \<Rightarrow> jw_json w out)"

definition poll_period :: nat where
  "poll_period = 5 * 10 ^ 9"

text \<open>The outputs of a wait with \<open>k\<close> polls.\<close>

definition poll_events :: "join_world \<Rightarrow> string \<Rightarrow> string \<Rightarrow> nat \<Rightarrow> event list" where
  "poll_events w name kubeconf k =
     SayPart ''  Polling'' #
     concat (replicate k [SayPart ''.'', Exec (get_node_argv w name kubeconf) None]) @ [Say (Out [])]"

text \<open>A context whose timeout is not positive is done from the start.\<close>

definition waitForNodeReady ::
  "join_world \<Rightarrow> int \<Rightarrow> string \<Rightarrow> string \<Rightarrow> (event list \<times> (go_err + nodestatus)) option" where
  "waitForNodeReady w timeout nodeName kubeconf =
     (case wait_loop poll_period (nat timeout) (jw_delay w) (getNode w nodeName kubeconf) (jw_pick w) (Polling 0 0 0) of
        Some (ReadyAt node n t) \<Rightarrow> Some (poll_events w nodeName kubeconf (n + 1), Inr node)
      | Some (TimedOut n t) \<Rightarrow>
          Some (poll_events w nodeName kubeconf n, Inl (Errorf ''timeout waiting for node %q'' [nodeName] None))
      | _ \<Rightarrow> None)"

subsection \<open>Labels\<close>

definition cpu_part_line :: "string \<Rightarrow> string option" where
  "cpu_part_line line =
     (if HasPrefix line ''CPU part''
      then (case SplitN2 CHR '':'' line of [a, b] \<Rightarrow> Some (TrimSpace b) | _ \<Rightarrow> None)
      else None)"

definition readCPUPart :: "sysview \<Rightarrow> string" where
  "readCPUPart sv =
     (case sv_open sv ''/proc/cpuinfo'' of
        Inl _ \<Rightarrow> []
      | Inr f \<Rightarrow> (case first_some cpu_part_line (scan_lines f) of None \<Rightarrow> [] | Some part \<Rightarrow> part))"

definition buildNodeLabels :: "sysview \<Rightarrow> nodestatus \<Rightarrow> (string \<times> string) list" where
  "buildNodeLabels sv node =
     (if nd_Architecture node = ''arm64'' then
        [(''hardware/arch'', ''arm64''), (''hardware/type'', ''raspberry-pi'')] @
        (if readCPUPart sv = ''0xd0b''
         then [(''hardware/cpu'', ''cortex-a76''), (''hardware/model'', ''rpi5'')] else [])
      else if nd_Architecture node = ''amd64'' then [(''hardware/arch'', ''amd64'')]
      else [])"

definition label_args :: "(string \<times> string) list \<Rightarrow> string list" where
  "label_args labels =
     List.map_filter (\<lambda>(k, v). if validHostname (List.last (Split CHR ''/'' k)) then Some (k @ CHR ''='' # v) else None) labels"

definition applyLabels ::
  "join_world \<Rightarrow> string \<Rightarrow> (string \<times> string) list \<Rightarrow> string \<Rightarrow> event \<times> go_err option" where
  "applyLabels w nodeName labels kubeconf =
     (let argv = kubectl_argv w ([''label'', ''node'', nodeName, ''--overwrite'', ''--kubeconfig='' @ kubeconf]
        @ label_args (jw_order w 1 labels)) in
      (Exec argv None, jw_exec w argv None))"

subsection \<open>main\<close>

definition say_all :: "string list \<Rightarrow> event list" where
  "say_all ls = map (\<lambda>l. Say (Out l)) ls"

definition join_usage :: "string list" where
  "join_usage =
     [''usage: cluster-join --server <url> --token <token> [--node-name <name>] [--node-ip <ip>]'', [],
      ''Get the token from the control plane node:'', ''  sudo cat /var/lib/rancher/k3s/server/node-token'']"

text \<open>Step 6: the labels, printed in one order and passed in another.\<close>

definition join_labels :: "join_world \<Rightarrow> string \<Rightarrow> string \<Rightarrow> nodestatus \<Rightarrow> event list" where
  "join_labels w nodeName kubeconf node =
     (let labels = buildNodeLabels (jw_view w) node in
      if labels = [] then []
      else Say (Out ''Step 6: Applying hardware labels:'') #
        map (\<lambda>(k, v). Say (Out (''  '' @ k @ CHR ''='' # v))) (jw_order w 0 labels) @
        (case applyLabels w nodeName labels kubeconf of
           (e, Some err) \<Rightarrow> [e, Say (ErrOf (''  '' @ u_warn @ ''  Label apply failed: '') err)]
         | (e, None) \<Rightarrow> [e, Say (Out (''  '' @ u_check @ '' Labels applied''))]))"

definition node_lines :: "nodestatus \<Rightarrow> string list" where
  "node_lines node =
     [''Step 5: Node information:'',
      ''  Architecture     : '' @ nd_Architecture node,
      ''  Kernel           : '' @ nd_KernelVersion node,
      ''  Container runtime: '' @ nd_ContainerRuntimeVersion node,
      ''  Kubelet version  : '' @ nd_KubeletVersion node, []]"

text \<open>Steps 4 to 6.\<close>

definition join_wait :: "join_flags \<Rightarrow> join_world \<Rightarrow> (event list \<times> nat) option" where
  "join_wait fl w =
     (let nodeName = (if jf_node_name fl = [] then jw_hostname w else jf_node_name fl) in
      case waitForNodeReady w (jf_wait fl) nodeName (jf_kubeconfig fl) of
        None \<Rightarrow> None
      | Some (es, Inl err) \<Rightarrow>
          Some (SayWait nodeName (jf_wait fl) # es @
            [Say (ErrOf (''  '' @ u_cross @ '' Node did not become Ready: '') err),
             Say (ErrLine ''  Debug: kubectl get nodes''),
             Say (ErrLine (''  Debug: kubectl describe node '' @ nodeName))], 1)
      | Some (es, Inr node) \<Rightarrow>
          Some (SayWait nodeName (jf_wait fl) # es @
            [SayQ (''  '' @ u_check @ '' Node '') nodeName '' is Ready'', Say (Out [])] @
            say_all (node_lines node) @
            join_labels w nodeName (jf_kubeconfig fl) node @
            say_all [[], ''=== Join Complete ==='', ''Run: kubectl get nodes -o wide''], 0))"

text \<open>Step 3.\<close>

definition installed_lines :: "event list" where
  "installed_lines = say_all [''  '' @ u_check @ '' k3s agent installed'', []]"

definition join_install :: "join_flags \<Rightarrow> join_world \<Rightarrow> (event list \<times> nat) option" where
  "join_install fl w =
     (if jw_uid w \<noteq> 0
      then Some ([Say (ErrLine (''  '' @ u_cross @ '' Must run as root (sudo ./cluster-join ...)''))], 1)
      else (case downloadAndInstall w (jf_server fl) (jf_token fl) (jf_node_name fl) (jf_node_ip fl) of
              (es, Some err) \<Rightarrow> Some (es @ [Say (ErrOf (''  '' @ u_cross @ '' Install failed: '') err)], 1)
            | (es, None) \<Rightarrow>
                map_option (\<lambda>(es', c). (es @ installed_lines @ es', c))
                  (join_wait fl w)))"

text \<open>Steps 1 and 2.\<close>

definition join_header :: "join_flags \<Rightarrow> event list" where
  "join_header fl = say_all [''=== k3s Cluster Node Join ==='', [],
     ''Step 1: Checking control plane connectivity at '' @ jf_server fl @ ''...'']"

definition join_reachable :: "join_flags \<Rightarrow> event list" where
  "join_reachable fl =
     say_all [''  '' @ u_check @ '' Control plane reachable'', [],
       ''Step 2: Equivalent manual install command (for reference):''] @
     printInstallCmd (jf_server fl) (jf_token fl) (jf_node_name fl) (jf_node_ip fl) @ [Say (Out [])]"

definition cluster_join :: "join_flags \<Rightarrow> join_world \<Rightarrow> (event list \<times> nat) option" where
  "cluster_join fl w =
     (if jf_server fl = [] \<or> jf_token fl = []
      then Some (map (\<lambda>l. Say (ErrLine l)) join_usage, 1)
      else case validateInputs (jf_server fl) (jf_token fl) (jf_node_name fl) (jf_node_ip fl) of
        Some err \<Rightarrow> Some ([Say (ErrOf ''invalid input: '' err)], 1)
      | None \<Rightarrow>
          (case checkConnectivity w (jf_kubeconfig fl) (jf_server fl) of
             Some err \<Rightarrow>
               Some (join_header fl @ [Say (ErrOf (''  '' @ u_cross @ '' Cannot reach control plane: '') err),
                 Say (ErrLine (''  Check: ping '' @ serverHost (jf_server fl)))], 1)
           | None \<Rightarrow>
               if jf_dry_run fl
               then Some (join_header fl @ join_reachable fl @
                 say_all [''(dry-run: not executing install command)''], 0)
               else map_option
                 (\<lambda>(es, c). (join_header fl @ join_reachable fl @ say_all [''Step 3: Installing k3s agent...''] @ es, c))
                 (join_install fl w)))"

subsection \<open>An example\<close>

text \<open>A reachable control plane, a root shell, and a node that is Ready at the third poll.\<close>

definition demo_flags :: "join_flags" where
  "demo_flags = \<lparr>jf_server = ''https://192.168.1.101:6443'', jf_token = ''K10ab::server:1f'', jf_node_name = ''rpi5-02'',
     jf_node_ip = ''192.168.1.102'', jf_dry_run = False, jf_wait = 180000000000, jf_kubeconfig = ''/k3s.yaml''\<rparr>"

definition demo_join_view :: sysview where
  "demo_join_view = table_view
     [(''/k3s.yaml'', ''clusters:'' @ [CHR 0x0A] @ ''    certificate-authority-data: Q0E='' @ [CHR 0x0A]),
      (''/proc/cpuinfo'', ''processor'' @ [CHR 0x09] @ '': 0'' @ [CHR 0x0A] @ ''CPU part'' @ [CHR 0x09] @ '': 0xd0b'' @ [CHR 0x0A])]
     [] [] [] []"

definition demo_world :: "join_world" where
  "demo_world = \<lparr>jw_view = demo_join_view, jw_pem = (\<lambda>s. s = ''CA''), jw_healthz = (\<lambda>ca url. None), jw_uid = 0,
     jw_hostname = ''host'', jw_environ = [''PATH=/bin''], jw_installer = Inr (200, ''#!/bin/sh''),
     jw_temp = Inr ''/tmp/k3s-install-1.sh'', jw_copy = None, jw_chmod = None, jw_exec = (\<lambda>argv env. None), jw_k3s = True,
     jw_kubectl = (\<lambda>n argv. if n = 0 then Inl (SysErr ''exit status 1'') else Inr (if n = 1 then ''a'' else ''b'')),
     jw_delay = (\<lambda>_. Some 1000000000),
     jw_json = (\<lambda>s. Inr (demo_nodestatus (if s = ''a'' then ''False'' else ''True''))), jw_pick = (\<lambda>_. True),
     jw_order = (\<lambda>i ls. if i = 0 then ls else rev ls)\<rparr>"

subsection \<open>The trace\<close>

fun is_install :: "event \<Rightarrow> bool" where
  "is_install (Exec (a # argv) env) = (a = ''sh'')"
| "is_install _ = False"

fun is_said :: "event \<Rightarrow> bool" where
  "is_said (Say l) = True"
| "is_said (SayPart s) = True"
| "is_said (SayQ a s b) = True"
| "is_said (SayWait s d) = True"
| "is_said _ = False"

text \<open>The temporary files that exist after a trace.\<close>

fun temp_effect :: "event \<Rightarrow> string set \<Rightarrow> string set" where
  "temp_effect (CreateTemp f) fs = insert f fs"
| "temp_effect (RemoveTemp f) fs = fs - {f}"
| "temp_effect _ fs = fs"

abbreviation temps :: "event list \<Rightarrow> string set \<Rightarrow> string set" where
  "temps es fs \<equiv> fold temp_effect es fs"

text \<open>Outputs and calls of \<open>kubectl\<close> neither install nor touch temporary files.\<close>

fun calm :: "event \<Rightarrow> bool" where
  "calm (Exec (a # argv) env) = (a \<noteq> ''sh'')"
| "calm (Exec [] env) = True"
| "calm (HttpGet url) = False"
| "calm (CreateTemp f) = False"
| "calm (WriteTemp f s) = False"
| "calm (RemoveTemp f) = False"
| "calm _ = True"

lemma calm_no_install: "list_all calm es \<Longrightarrow> filter is_install es = []"
proof -
  have "calm e \<Longrightarrow> \<not> is_install e" for e by (cases e rule: is_install.cases) auto
  then show "list_all calm es \<Longrightarrow> filter is_install es = []" by (auto simp: list_all_iff filter_empty_conv)
qed

lemma calm_temps: "list_all calm es \<Longrightarrow> temps es fs = fs"
proof (induction es)
  case (Cons e es)
  then show ?case by (cases e) auto
qed simp

lemma calm_say_all: "list_all calm (say_all ls)"
  by (auto simp: say_all_def list_all_iff)

lemma calm_kubectl: "calm (Exec (kubectl_argv w args) env)"
  by (simp add: kubectl_argv_def)

lemma calm_header: "list_all calm (join_header fl)" "list_all calm (join_reachable fl)"
  by (auto simp: join_header_def join_reachable_def printInstallCmd_def calm_say_all)

lemma calm_poll: "list_all calm (poll_events w name kubeconf k)"
  by (auto simp: poll_events_def get_node_argv_def calm_kubectl list_all_iff)

lemma calm_labels: "list_all calm (join_labels w name kubeconf node)"
  by (auto simp: join_labels_def applyLabels_def Let_def calm_kubectl list_all_iff split: option.splits)

lemma calm_wait: "join_wait fl w = Some (es, c) \<Longrightarrow> list_all calm es"
  by (auto simp: join_wait_def Let_def waitForNodeReady_def calm_poll calm_say_all calm_labels
      split: option.splits sum.splits wait_state.splits)

lemma calm_errs: "list_all calm (map (\<lambda>l. Say (ErrLine l)) ls)"
  by (auto simp: list_all_iff)

lemmas calm_parts = calm_header calm_say_all calm_errs

text \<open>The events of the download: at most the file it returns is left.\<close>

lemma download_temps:
  "downloadInstallScript w = (es, r) \<Longrightarrow>
   filter is_install es = [] \<and> temps es {} = (case r of Inl _ \<Rightarrow> {} | Inr f \<Rightarrow> {f})"
  by (auto simp: downloadInstallScript_def split: sum.splits option.splits prod.splits)

definition install_allowed :: "join_flags \<Rightarrow> join_world \<Rightarrow> bool" where
  "install_allowed fl w \<longleftrightarrow>
     jf_server fl \<noteq> [] \<and> jf_token fl \<noteq> [] \<and>
     validateInputs (jf_server fl) (jf_token fl) (jf_node_name fl) (jf_node_ip fl) = None \<and>
     checkConnectivity w (jf_kubeconfig fl) (jf_server fl) = None \<and> \<not> jf_dry_run fl \<and> jw_uid w = 0"

lemma cluster_join_allowed:
  "cluster_join fl w = Some (es, c) \<Longrightarrow>
   (if install_allowed fl w
    then \<exists>es'. join_install fl w = Some (es', c)
      \<and> es = join_header fl @ join_reachable fl @ say_all [''Step 3: Installing k3s agent...''] @ es'
    else list_all calm es)"
  by (auto simp: cluster_join_def install_allowed_def join_install_def calm_parts
      split: if_splits option.splits)

lemma join_install_done:
  assumes "jw_uid w = 0" "downloadInstallScript w = (ds, Inr f)"
    "env = install_env w (jf_server fl) (jf_token fl) (jf_node_name fl) (jf_node_ip fl)"
    "jw_exec w [''sh'', f] (Some env) = None"
  shows "join_install fl w =
    map_option (\<lambda>(es', c). (ds @ [Exec [''sh'', f] (Some env), RemoveTemp f] @ installed_lines @ es', c)) (join_wait fl w)"
  unfolding join_install_def downloadAndInstall_def Let_def assms(3)[symmetric] assms(2,4) assms(1)
    prod.case sum.case option.case
  by (simp del: append.simps)

lemma join_install_trace:
  assumes "join_install fl w = Some (es, c)" and "jw_uid w = 0"
  shows "temps es {} = {} \<and> filter is_install es =
    (case snd (downloadInstallScript w) of
       Inl _ \<Rightarrow> []
     | Inr f \<Rightarrow> [Exec [''sh'', f] (Some (install_env w (jf_server fl) (jf_token fl) (jf_node_name fl) (jf_node_ip fl)))])"
proof -
  obtain ds r where d: "downloadInstallScript w = (ds, r)" by fastforce
  note t = download_temps [OF d]
  show ?thesis
  proof (cases r)
    case (Inl err)
    with assms d t show ?thesis by (auto simp: join_install_def downloadAndInstall_def)
  next
    case (Inr f)
    let ?env = "install_env w (jf_server fl) (jf_token fl) (jf_node_name fl) (jf_node_ip fl)"
    let ?run = "[Exec [''sh'', f] (Some ?env), RemoveTemp f]"
    have "\<exists>ks. es = ds @ ?run @ ks \<and> list_all calm ks"
    proof (cases "jw_exec w [''sh'', f] (Some ?env)")
      case (Some err)
      with assms d Inr show ?thesis by (auto simp: join_install_def downloadAndInstall_def Let_def)
    next
      case None
      let ?f = "\<lambda>(es', c). (ds @ ?run @ installed_lines @ es', c)"
      have "map_option ?f (join_wait fl w) = Some (es, c)"
        using join_install_done [OF assms(2) d[unfolded Inr] refl None] assms(1) by (simp only:)
      then have "\<exists>x. join_wait fl w = Some x \<and> ?f x = (es, c)" by (simp only: map_option_eq_Some)
      then obtain ws c' where ws: "join_wait fl w = Some (ws, c')" and "?f (ws, c') = (es, c)" by fast
      then have es: "es = ds @ ?run @ installed_lines @ ws" by (simp only: prod.case prod.inject)
      have "list_all calm (installed_lines @ ws)"
        using calm_wait [OF ws] by (simp add: installed_lines_def calm_say_all)
      then show ?thesis using es by (intro exI conjI) assumption+
    qed
    then obtain ks where es: "es = ds @ ?run @ ks" and ks: "list_all calm ks" by blast
    have "temps es {} = {}" unfolding es by (simp add: t Inr calm_temps [OF ks])
    moreover have "filter is_install es = [Exec [''sh'', f] (Some ?env)]"
      unfolding es by (simp add: t calm_no_install [OF ks])
    ultimately show ?thesis by (simp add: d Inr)
  qed
qed

text \<open>C1. A run executes the installer exactly when both required flags are given, the inputs
  pass \<open>validateInputs\<close>, the control plane answers under the CA of the kubeconfig, it is not a dry
  run, the user is root and the script was downloaded; it executes it once, as \<open>sh\<close> with the file
  as its only argument, and the flags reach it only through the environment.\<close>

theorem cluster_join_installs:
  assumes "cluster_join fl w = Some (es, c)"
  shows "filter is_install es =
    (case (install_allowed fl w, snd (downloadInstallScript w)) of
       (True, Inr f) \<Rightarrow> [Exec [''sh'', f] (Some (install_env w (jf_server fl) (jf_token fl) (jf_node_name fl) (jf_node_ip fl)))]
     | _ \<Rightarrow> [])"
proof (cases "install_allowed fl w")
  case True
  with cluster_join_allowed [OF assms] obtain es' where i: "join_install fl w = Some (es', c)"
    and es: "es = join_header fl @ join_reachable fl @ say_all [''Step 3: Installing k3s agent...''] @ es'" by auto
  have "jw_uid w = 0" using True by (simp add: install_allowed_def)
  from join_install_trace [OF i this] show ?thesis
    using True es by (auto simp: calm_no_install calm_parts split: sum.splits)
next
  case False
  with cluster_join_allowed [OF assms] show ?thesis by (simp add: calm_no_install)
qed

theorem cluster_join_installs_witness:
  "case cluster_join demo_flags demo_world of
     None \<Rightarrow> False
   | Some (es, c) \<Rightarrow> c = 0 \<and> map (\<lambda>e. case e of Exec argv env \<Rightarrow> argv | _ \<Rightarrow> []) (filter is_install es)
       = [[''sh'', ''/tmp/k3s-install-1.sh'']]"
proof -
  have ok: "install_allowed demo_flags demo_world" by code_simp
  have d: "snd (downloadInstallScript demo_world) = Inr ''/tmp/k3s-install-1.sh''" by code_simp
  have "map_option snd (cluster_join demo_flags demo_world) = Some 0" by code_simp
  then obtain es where r: "cluster_join demo_flags demo_world = Some (es, 0)" by auto
  from cluster_join_installs [OF r] ok d show ?thesis by (simp add: r)
qed

text \<open>C10. Every temporary file that a run creates is removed before it ends, whether the download,
  the chmod, the installer or a later step fails.\<close>

theorem cluster_join_no_temps:
  assumes "cluster_join fl w = Some (es, c)"
  shows "temps es {} = {}"
proof (cases "install_allowed fl w")
  case True
  with cluster_join_allowed [OF assms] obtain es' where i: "join_install fl w = Some (es', c)"
    and es: "es = join_header fl @ join_reachable fl @ say_all [''Step 3: Installing k3s agent...''] @ es'" by auto
  have "jw_uid w = 0" using True by (simp add: install_allowed_def)
  from join_install_trace [OF i this] show ?thesis using es by (simp add: calm_temps calm_parts)
next
  case False
  with cluster_join_allowed [OF assms] show ?thesis by (simp add: calm_temps)
qed

theorem cluster_join_no_temps_witness:
  "case cluster_join demo_flags (demo_world\<lparr>jw_chmod := Some (SysErr ''read-only'')\<rparr>) of
     None \<Rightarrow> False
   | Some (es, c) \<Rightarrow> c = 1 \<and> temps es {} = {} \<and> list_ex (\<lambda>e. e = CreateTemp ''/tmp/k3s-install-1.sh'') es"
proof -
  let ?w = "demo_world\<lparr>jw_chmod := Some (SysErr ''read-only'')\<rparr>"
  have "map_option (\<lambda>(es, c). (list_ex (\<lambda>e. e = CreateTemp ''/tmp/k3s-install-1.sh'') es, c)) (cluster_join demo_flags ?w)
    = Some (True, 1)" by code_simp
  then obtain es where r: "cluster_join demo_flags ?w = Some (es, 1)"
    and "list_ex (\<lambda>e. e = CreateTemp ''/tmp/k3s-install-1.sh'') es" by auto
  with cluster_join_no_temps [OF r] show ?thesis by (simp only: r option.case prod.case simp_thms)
qed



subsection \<open>Inputs\<close>

definition safe_char :: "char \<Rightarrow> bool" where
  "safe_char c \<longleftrightarrow> alnum c \<or> c \<in> {CHR ''-'', CHR ''_'', CHR '':'', CHR ''.''}"

lemma hex_alnum: "hex_digit c \<Longrightarrow> alnum c"
  by (auto simp: hex_digit_def any_digit_def alnum_def Let_def split: if_splits)

lemma validHostname_safe: "validHostname s \<Longrightarrow> list_all safe_char s"
  using validHostname_chars [of s] by (auto simp: list_all_iff safe_char_def)

lemma ParseIP_safe: "ParseIP_ok s \<Longrightarrow> list_all safe_char s"
  using ParseIP_ok_chars [of s] hex_alnum by (auto simp: list_all_iff safe_char_def ip_char_def)

lemma serverHost_port: "CHR '':'' \<notin> set p \<Longrightarrow> \<not> HasPrefix (h @ CHR '':'' # p) ''http://'' \<Longrightarrow> h \<noteq> [] \<Longrightarrow>
   serverHost (''https://'' @ h @ CHR '':'' # p) = h"
  by (simp add: serverHost_def TrimPrefix_append [of "''https://''", simplified] TrimPrefix_def LastIndex_append LastIndex_None)

text \<open>C12. What \<open>validateInputs\<close> accepts is harmless for a shell in the token, the node name, the node
  address and the server's host: letters, digits, dots, colons, dashes and underscores only. It
  rejects a host name with a dot that is not an IP address.\<close>

theorem validateInputs_safe:
  assumes "validateInputs server tok nodeName nodeIP = None"
  shows "list_all safe_char tok \<and> list_all safe_char nodeName \<and> list_all safe_char nodeIP
    \<and> list_all safe_char (serverHost server)
    \<and> (CHR ''.'' \<in> set (serverHost server) \<longrightarrow> ParseIP_ok (serverHost server))"
proof -
  from assms have ok: "ParseIP_ok (serverHost server) \<or> validHostname (serverHost server)" "validToken tok"
    "nodeName = [] \<or> validHostname nodeName" "nodeIP = [] \<or> ParseIP_ok nodeIP"
    by (auto simp: validateInputs_def Let_def split: if_splits)
  have "list_all safe_char tok" using ok(2) by (auto simp: validToken_def list_all_iff safe_char_def)
  moreover have "CHR ''.'' \<notin> set h" if "validHostname h" for h
    using validHostname_chars [OF that] by (auto simp: list_all_iff alnum_def)
  ultimately show ?thesis using ok validHostname_safe ParseIP_safe by auto
qed

theorem validateInputs_safe_witness:
  "list_all safe_char ''K10ab::server:1f'' \<and> ParseIP_ok (serverHost ''https://192.168.1.101:6443'')"
proof -
  have ok: "validateInputs ''https://192.168.1.101:6443'' ''K10ab::server:1f'' ''rpi5-02'' ''192.168.1.102'' = None"
    by code_simp
  have "serverHost ''https://192.168.1.101:6443'' = ''192.168.1.101''" by code_simp
  then have "CHR ''.'' \<in> set (serverHost ''https://192.168.1.101:6443'')" by simp
  with validateInputs_safe [OF ok] show ?thesis by blast
qed

text \<open>C39. Whatever follows the last colon of the server URL is not checked: for a valid host name
  every such text is accepted, and it goes into the URL and the environment as it is.\<close>

theorem validateInputs_port:
  assumes "validHostname h" "CHR '':'' \<notin> set p" "\<not> HasPrefix p ''//''" "validToken tok"
  shows "validateInputs (''https://'' @ h @ CHR '':'' # p) tok [] [] = None
    \<and> ''K3S_URL=https://'' @ h @ CHR '':'' # p
        \<in> set (install_env w (''https://'' @ h @ CHR '':'' # p) tok [] [])"
proof -
  have h: "h \<noteq> []" "CHR '':'' \<notin> set h"
    using assms(1) validHostname_chars [OF assms(1)] by (auto simp: list_all_iff alnum_def validHostname_def)
  have "\<not> HasPrefix (h @ CHR '':'' # p) ''http://''"
  proof
    assume "HasPrefix (h @ CHR '':'' # p) ''http://''"
    then obtain u where "h @ CHR '':'' # p = ''http'' @ CHR '':'' # ''//'' @ u" by (auto simp: prefix_def)
    moreover have "SplitN2 CHR '':'' (h @ CHR '':'' # p) = [h, p]" using h(2) by (rule SplitN2_append)
    moreover have "SplitN2 CHR '':'' (''http'' @ CHR '':'' # ''//'' @ u) = [''http'', ''//'' @ u]"
      by (rule SplitN2_append) simp
    ultimately have "p = ''//'' @ u" by simp
    with assms(3) show False by (simp add: prefix_def)
  qed
  then have "serverHost (''https://'' @ h @ CHR '':'' # p) = h" by (rule serverHost_port [OF assms(2) _ h(1)])
  then show ?thesis using assms(1,4) by (simp add: validateInputs_def install_env_def Let_def)
qed

theorem validateInputs_port_witness:
  "validateInputs ''https://h:6443; reboot'' ''a'' [] [] = None"
proof -
  have "validHostname ''h''" "validToken ''a''" "\<not> HasPrefix ''6443; reboot'' ''//''" by code_simp+
  then show ?thesis using validateInputs_port [of "''h''" "''6443; reboot''" "''a''"] by simp
qed

lemma b64_char_plain: "v < 64 \<Longrightarrow> plain (b64_char v)"
proof -
  have "list_all (\<lambda>v. plain (b64_char v)) [0..<64]" by code_simp
  then show "v < 64 \<Longrightarrow> plain (b64_char v)" by (simp add: list_all_iff)
qed

lemma b64_encode_plain: "\<forall>c \<in> set (b64_encode s). plain c"
proof -
  have "plain CHR ''=''" by (simp add: plain_def ascii_space_def)
  then show ?thesis
    by (induction s rule: b64_encode.induct) (simp_all add: Let_def b64_char_plain b64_bytes)
qed

lemma plain_not_break: "plain c \<Longrightarrow> c \<noteq> CHR 0x0A \<and> c \<noteq> CHR 0x0D"
  by (auto simp: plain_def ascii_space_def)

lemma b64_decode_encode: "b64_decode (b64_encode s) = Some s"
proof -
  have "filter (\<lambda>c. c \<noteq> CHR 0x0A \<and> c \<noteq> CHR 0x0D) (b64_encode s) = b64_encode s"
    using b64_encode_plain [of s] plain_not_break by (simp add: filter_id_conv)
  then show ?thesis by (simp add: b64_decode_def b64_quanta_encode)
qed

lemma b64_encode_Nil: "b64_encode s = [] \<longleftrightarrow> s = []"
  by (cases s rule: b64_encode.cases) (simp_all add: Let_def)

definition ca_key :: string where
  "ca_key = ''certificate-authority-data:''"

lemma ca_line_entry:
  assumes "token v"
  shows "ca_line (replicate n CHR '' '' @ ca_key @ CHR '' '' # v) = Some v"
proof -
  have k: "token ca_key" by (rule token_plain; code_simp)
  have "TrimSpace (unwords [ca_key, v]) = unwords [ca_key, v]"
    using strip_unwords [of "[ca_key, v]"] strip_rev_unwords [of "[ca_key, v]"] k assms
    by (intro TrimSpace_stable) simp_all
  then have t: "TrimSpace (replicate n CHR '' '' @ ca_key @ CHR '' '' # v) = ca_key @ CHR '' '' # v"
    by (simp add: TrimSpace_blanks)
  have "TrimSpace (CHR '' '' # v) = v"
    using assms by (simp add: TrimSpace_space_Cons token_def TrimSpace_no_space)
  then show ?thesis unfolding ca_line_def Let_def t ca_key_def [symmetric] by simp
qed

text \<open>C40. A kubeconfig whose first line with the key carries the base64 text of a certificate the
  pool accepts yields exactly that certificate, whatever the other lines are.\<close>

theorem tlsConfigFromKubeconfig_ca:
  assumes "os_ReadFile (jw_view w) path
      = Inr (unlines (pre @ (replicate n CHR '' '' @ ca_key @ CHR '' '' # b64_encode ca) # post))"
    and "\<forall>l \<in> set pre \<union> set post. CHR 0x0A \<notin> set l" "\<forall>l \<in> set pre. ca_line l = None"
    and "ca \<noteq> []" "jw_pem w ca"
  shows "tlsConfigFromKubeconfig w path = Inr ca"
proof -
  let ?l = "replicate n CHR '' '' @ ca_key @ CHR '' '' # b64_encode ca"
  have v: "token (b64_encode ca)"
    using assms(4) b64_encode_plain [of ca] by (intro token_plain) (simp_all add: b64_encode_Nil)
  have "CHR 0x0A \<notin> set (b64_encode ca)" using b64_encode_plain [of ca] plain_not_break by blast
  moreover have "CHR 0x0A \<notin> set ca_key" by (simp add: ca_key_def)
  ultimately have "\<forall>l \<in> set (pre @ ?l # post). CHR 0x0A \<notin> set l" using assms(2) by auto
  then have "Split CHR 0x0A (unlines (pre @ ?l # post)) = (pre @ ?l # post) @ [[]]" by (rule Split_unlines)
  then have "first_some ca_line (Split CHR 0x0A (unlines (pre @ ?l # post))) = Some (b64_encode ca)"
    using first_some_append [OF assms(3), of "?l # post @ [[]]"] ca_line_entry [OF v, of n] by simp
  then show ?thesis
    using assms(1,4,5) by (simp add: tlsConfigFromKubeconfig_def b64_encode_Nil b64_decode_encode)
qed

theorem tlsConfigFromKubeconfig_ca_witness:
  "tlsConfigFromKubeconfig demo_world ''/k3s.yaml'' = Inr ''CA''"
proof (rule tlsConfigFromKubeconfig_ca [where pre = "[''clusters:'']" and n = 4 and post = "[]"])
  show "os_ReadFile (jw_view demo_world) ''/k3s.yaml'' = Inr (unlines ([''clusters:'']
      @ (replicate 4 CHR '' '' @ ca_key @ CHR '' '' # b64_encode ''CA'') # []))" by code_simp
  show "\<forall>l \<in> set [''clusters:'']. ca_line l = None" by code_simp
  show "\<forall>l \<in> set [''clusters:''] \<union> set []. CHR 0x0A \<notin> set l" by code_simp
  show "jw_pem demo_world ''CA''" by code_simp
qed simp

subsection \<open>Labels\<close>

definition label_arg :: "string \<times> string \<Rightarrow> string" where
  "label_arg kv = fst kv @ CHR ''='' # snd kv"

definition all_labels :: "(string \<times> string) list" where
  "all_labels = [(''hardware/arch'', ''arm64''), (''hardware/type'', ''raspberry-pi''), (''hardware/cpu'', ''cortex-a76''),
     (''hardware/model'', ''rpi5''), (''hardware/arch'', ''amd64'')]"

definition key_ok :: "string \<times> string \<Rightarrow> bool" where
  "key_ok kv \<longleftrightarrow> validHostname (List.last (Split CHR ''/'' (fst kv)))"

lemma label_args_all: "\<forall>kv \<in> set labels. key_ok kv \<Longrightarrow> label_args labels = map label_arg labels"
  by (induction labels) (auto simp: label_args_def label_arg_def key_ok_def List.map_filter_simps split: prod.splits)

lemma buildNodeLabels_keys: "list_all key_ok (buildNodeLabels sv node)"
proof -
  have "list_all key_ok all_labels" by code_simp
  then show ?thesis by (simp add: buildNodeLabels_def all_labels_def)
qed

text \<open>Step 6 prints and applies the same labels: whatever the two orders in which Go iterates
  over the map are, no label is dropped by the format check, and the arguments of
  \<open>kubectl label\<close> are, up to their order, the lines printed before.\<close>

theorem join_labels_agree:
  assumes "\<And>i l. mset (jw_order w i l) = mset l" and "buildNodeLabels (jw_view w) node \<noteq> []"
  shows "\<exists>shown args rest.
    join_labels w name kubeconf node =
      Say (Out ''Step 6: Applying hardware labels:'') # map (\<lambda>l. Say (Out (''  '' @ l))) shown @
      Exec (kubectl_argv w ([''label'', ''node'', name, ''--overwrite'', ''--kubeconfig='' @ kubeconf] @ args)) None # rest
    \<and> mset shown = mset (map label_arg (buildNodeLabels (jw_view w) node)) \<and> mset args = mset shown"
proof -
  let ?labels = "buildNodeLabels (jw_view w) node"
  have "set (jw_order w 1 ?labels) = set ?labels" using assms(1) by (metis mset_eq_setD)
  then have args: "label_args (jw_order w 1 ?labels) = map label_arg (jw_order w 1 ?labels)"
    using buildNodeLabels_keys by (intro label_args_all) (simp only: list_all_iff)
  have shown: "map (\<lambda>(k, v). Say (Out (''  '' @ k @ CHR ''='' # v))) l = map (\<lambda>l. Say (Out (''  '' @ l))) (map label_arg l)" for l
    by (simp add: label_arg_def split: prod.splits)
  obtain e r where al: "applyLabels w name ?labels kubeconf = (e, r)" by fastforce
  then have e: "e = Exec (kubectl_argv w ([''label'', ''node'', name, ''--overwrite'', ''--kubeconfig='' @ kubeconf]
      @ map label_arg (jw_order w 1 ?labels))) None"
    unfolding applyLabels_def Let_def args by (simp only: prod.inject)
  have "\<exists>rest. join_labels w name kubeconf node = Say (Out ''Step 6: Applying hardware labels:'') #
      map (\<lambda>l. Say (Out (''  '' @ l))) (map label_arg (jw_order w 0 ?labels)) @ e # rest"
    unfolding join_labels_def Let_def al shown using assms(2) by (cases r) simp_all
  then obtain rest where l: "join_labels w name kubeconf node = Say (Out ''Step 6: Applying hardware labels:'') #
      map (\<lambda>l. Say (Out (''  '' @ l))) (map label_arg (jw_order w 0 ?labels)) @ e # rest" by (rule exE)
  show ?thesis by (intro exI conjI, rule l[unfolded e]) (simp_all only: mset_map assms(1))
qed

theorem join_labels_agree_witness:
  "\<exists>shown args rest.
    join_labels demo_world ''rpi5-02'' ''/k3s.yaml'' (demo_nodestatus ''True'') =
      Say (Out ''Step 6: Applying hardware labels:'') # map (\<lambda>l. Say (Out (''  '' @ l))) shown @
      Exec (kubectl_argv demo_world ([''label'', ''node'', ''rpi5-02'', ''--overwrite'', ''--kubeconfig='' @ ''/k3s.yaml''] @ args)) None # rest
    \<and> mset shown = mset (map label_arg (buildNodeLabels (jw_view demo_world) (demo_nodestatus ''True''))) \<and> mset args = mset shown"
proof (rule join_labels_agree)
  show "buildNodeLabels (jw_view demo_world) (demo_nodestatus ''True'') \<noteq> []" by code_simp
qed (simp add: demo_world_def)

end
