(* ===== verification/Mount_Inspector.thy ===== *)
theory Mount_Inspector
  imports Proc Go_Fmt
begin

text \<open>
  \<open>05-vfs-storage/exercises/mount-inspector/main.go\<close>: the mount table of one process, parsed
  with all its fields, in three views. Names start with \<open>mx\<close>. The line parser and the layer
  count are compared with those of \<open>kube-inspect\<close> (theory \<open>Proc\<close>).
\<close>

subsection \<open>Parsing\<close>

record mx_mount =
  mx_MountID :: int
  mx_ParentID :: int
  mx_Major :: int
  mx_Minor :: int
  mx_Root :: string
  mx_MountPoint :: string
  mx_MountOptions :: string
  mx_OptionalFields :: "string list"
  mx_FSType :: string
  mx_Source :: string
  mx_SuperOptions :: string

definition mx_device :: "string \<Rightarrow> go_err + int \<times> int" where
  "mx_device f =
     (case SplitN2 CHR '':'' f of
        [a, b] \<Rightarrow>
          (case Atoi a of
             (_, Some err) \<Rightarrow> Inl (Errorf ''bad Major %q: %w'' [a] (Some err))
           | (major, None) \<Rightarrow>
               (case Atoi b of
                  (_, Some err) \<Rightarrow> Inl (Errorf ''bad Minor %q: %w'' [b] (Some err))
                | (minor, None) \<Rightarrow> Inr (major, minor)))
      | _ \<Rightarrow> Inl (Errorf ''bad Major:Minor %q'' [f] None))"

definition mx_parseMountInfo :: "string \<Rightarrow> go_err + mx_mount" where
  "mx_parseMountInfo line =
     (let fields = Fields line in
      if length fields < 10 then Inl (Errorf ''mountinfo line too short: %q'' [line] None)
      else case Atoi (fields ! 0) of
        (_, Some err) \<Rightarrow> Inl (Errorf ''bad MountID %q: %w'' [fields ! 0] (Some err))
      | (mountID, None) \<Rightarrow>
      (case Atoi (fields ! 1) of
        (_, Some err) \<Rightarrow> Inl (Errorf ''bad ParentID %q: %w'' [fields ! 1] (Some err))
      | (parentID, None) \<Rightarrow>
      (case mx_device (fields ! 2) of
        Inl err \<Rightarrow> Inl err
      | Inr (major, minor) \<Rightarrow>
          (let optf = takeWhile (\<lambda>f. f \<noteq> ''-'') (drop 6 fields); i = 6 + length optf in
           if length fields \<le> i then Inl (Errorf ''missing '-' separator in mountinfo line: %q'' [line] None)
           else if length fields \<le> i + 1 + 2
           then Inl (Errorf ''missing post-separator fields in mountinfo line: %q'' [line] None)
           else Inr \<lparr>mx_MountID = mountID, mx_ParentID = parentID, mx_Major = major, mx_Minor = minor,
             mx_Root = fields ! 3, mx_MountPoint = fields ! 4, mx_MountOptions = fields ! 5,
             mx_OptionalFields = optf, mx_FSType = fields ! (i + 1), mx_Source = fields ! (i + 2),
             mx_SuperOptions = fields ! (i + 3)\<rparr>))))"

text \<open>One line of the loop: nothing, a warning, or a mount.\<close>

definition mx_line :: "string \<Rightarrow> out_line list \<times> mx_mount list" where
  "mx_line text =
     (let line = TrimSpace text in
      if line = [] then ([], [])
      else (case mx_parseMountInfo line of
              Inl err \<Rightarrow> ([ErrOf ''warning: skipping line: '' err], [])
            | Inr mi \<Rightarrow> ([], [mi])))"

definition mx_readMountInfo :: "sysview \<Rightarrow> int \<Rightarrow> out_line list \<times> (go_err + mx_mount list)" where
  "mx_readMountInfo sv pid =
     (let path = ''/proc/'' @ itoa pid @ ''/mountinfo'' in
      case sv_open sv path of
        Inl err \<Rightarrow> ([], Inl (Errorf ''opening %s: %w'' [path] (Some err)))
      | Inr f \<Rightarrow>
          (let (ls, err) = scan_file f; rs = map mx_line ls in
           (concat (map fst rs),
            (case err of Some e \<Rightarrow> Inl e | None \<Rightarrow> Inr (concat (map snd rs))))))"

fun mx_layers :: "string list \<Rightarrow> nat" where
  "mx_layers [] = 0"
| "mx_layers (opt # opts) =
     (if HasPrefix opt ''lowerdir='' then Count (TrimPrefix opt ''lowerdir='') CHR '':'' + 1 else mx_layers opts)"

definition overlayLayerCount :: "string \<Rightarrow> nat" where
  "overlayLayerCount superOptions = mx_layers (Split CHR '','' superOptions)"

subsection \<open>Tables\<close>

definition mx_row :: "string \<Rightarrow> string \<Rightarrow> string \<Rightarrow> string \<Rightarrow> string \<Rightarrow> string \<Rightarrow> string" where
  "mx_row a b c d e f = ''  '' @ ljust 6 a @ ''  '' @ ljust 6 b @ ''  '' @ ljust 12 c @ ''  '' @ ljust 12 d
     @ ''  '' @ ljust 24 e @ ''  '' @ f"

definition mx_mount_row :: "mx_mount \<Rightarrow> string" where
  "mx_mount_row m = mx_row (itoa (mx_MountID m)) (itoa (mx_ParentID m))
     (itoa (mx_Major m) @ '':'' @ itoa (mx_Minor m)) (mx_FSType m) (mx_Source m) (mx_MountPoint m)"

definition printDefaultTable :: "int \<Rightarrow> mx_mount list \<Rightarrow> out_line list" where
  "printDefaultTable pid mounts = outs
     ([''Mounts for PID '' @ itoa pid @ '':'',
       mx_row ''ID'' ''PARENT'' ''MAJOR:MINOR'' ''FSTYPE'' ''SOURCE'' ''MOUNTPOINT''] @ map mx_mount_row mounts)"

definition mx_overlay_row :: "string \<Rightarrow> string \<Rightarrow> string \<Rightarrow> string \<Rightarrow> string \<Rightarrow> string \<Rightarrow> string" where
  "mx_overlay_row a b c d e f = ''  '' @ ljust 6 a @ ''  '' @ ljust 6 b @ ''  '' @ ljust 12 c @ ''  '' @ ljust 10 d
     @ ''  '' @ ljust 20 e @ ''  '' @ f"

definition printOverlayTable :: "int \<Rightarrow> mx_mount list \<Rightarrow> out_line list" where
  "printOverlayTable pid mounts =
     (let ms = filter (\<lambda>m. mx_FSType m = ''overlay'') mounts in outs
       ([''Overlay mounts for PID '' @ itoa pid @ '':'',
         mx_overlay_row ''ID'' ''PARENT'' ''FSTYPE'' ''SOURCE'' ''MOUNTPOINT'' ''LAYERS''] @
        map (\<lambda>m. mx_overlay_row (itoa (mx_MountID m)) (itoa (mx_ParentID m)) (mx_FSType m) (mx_Source m)
          (mx_MountPoint m) (utoa (overlayLayerCount (mx_SuperOptions m)))) ms @
        (if ms = [] then [''  (no overlay mounts found)''] else [])))"

definition printTypeTable :: "int \<Rightarrow> mx_mount list \<Rightarrow> string \<Rightarrow> out_line list" where
  "printTypeTable pid mounts fstype =
     (let ms = filter (\<lambda>m. mx_FSType m = fstype) mounts in
      OutOf [] (Errorf ''Mounts of type %q for PID %d:'' [fstype, itoa pid] None) [] #
      outs (mx_row ''ID'' ''PARENT'' ''MAJOR:MINOR'' ''FSTYPE'' ''SOURCE'' ''MOUNTPOINT'' # map mx_mount_row ms) @
      (if ms = [] then [OutOf [] (Errorf ''  (no mounts of type %q found)'' [fstype] None) []] else []))"

subsection \<open>main\<close>

definition mx_usage :: "out_line list" where
  "mx_usage = errs
     [''usage: mount-inspector'',
      ''       mount-inspector --pid <pid>'',
      ''       mount-inspector --pid <pid> --overlay'',
      ''       mount-inspector --pid <pid> --type <fstype>'', [],
      ''examples:'',
      ''  mount-inspector                          # current process mounts'',
      ''  mount-inspector --pid 1                  # PID 1 (init/systemd) mounts'',
      ''  mount-inspector --pid 1 --overlay        # overlay mounts only, with layer count'',
      ''  mount-inspector --pid 1 --type tmpfs     # tmpfs mounts only'']"

text \<open>The loop over the arguments: the outputs and exit code that end the run, or the settings.\<close>

fun mx_args :: "string list \<Rightarrow> int \<times> bool \<times> string \<Rightarrow> (out_line list \<times> nat) + (int \<times> bool \<times> string)" where
  "mx_args [] st = Inr st"
| "mx_args (a # args) (pid, overlay, fstype) =
     (if a = ''--pid'' then
        (case args of
           [] \<Rightarrow> Inl (errs [''error: --pid requires an argument''], 1)
         | v # args' \<Rightarrow>
             (case Atoi v of
                (_, Some err) \<Rightarrow> Inl ([bad_arg ''invalid PID %q'' v], 1)
              | (n, None) \<Rightarrow> mx_args args' (n, overlay, fstype)))
      else if a = ''--overlay'' then mx_args args (pid, True, fstype)
      else if a = ''--type'' then
        (case args of
           [] \<Rightarrow> Inl (errs [''error: --type requires an argument''], 1)
         | v # args' \<Rightarrow> mx_args args' (pid, overlay, v))
      else if a = ''--help'' \<or> a = ''-h'' then Inl (mx_usage, 0)
      else Inl (bad_arg ''unknown flag %q'' a # mx_usage, 1))"

definition mount_inspector :: "sysview \<Rightarrow> int \<Rightarrow> string list \<Rightarrow> out_line list \<times> nat" where
  "mount_inspector sv self args =
     (case mx_args args (self, False, []) of
        Inl r \<Rightarrow> r
      | Inr (pid, overlay, fstype) \<Rightarrow>
          if overlay \<and> fstype \<noteq> [] then (errs [''error: --overlay and --type are mutually exclusive''], 1)
          else (case mx_readMountInfo sv pid of
              (warnings, Inl err) \<Rightarrow> (warnings @ [ErrOf ''error: '' err], 1)
            | (warnings, Inr mounts) \<Rightarrow>
                (warnings @
                 (if overlay then printOverlayTable pid mounts
                  else if fstype \<noteq> [] then printTypeTable pid mounts fstype
                  else printDefaultTable pid mounts), 0)))"

subsection \<open>Two parsers of the mount table\<close>

definition mx_common :: "mx_mount \<Rightarrow> mountinfo" where
  "mx_common m = \<lparr>mi_MountID = mx_MountID m, mi_ParentID = mx_ParentID m, mi_Root = mx_Root m,
     mi_MountPoint = mx_MountPoint m, mi_Options = mx_MountOptions m, mi_FSType = mx_FSType m,
     mi_Source = mx_Source m, mi_SuperOpts = mx_SuperOptions m\<rparr>"

definition device_field :: "string \<Rightarrow> int \<Rightarrow> int \<Rightarrow> bool" where
  "device_field f major minor \<longleftrightarrow>
     (\<exists>a b. f = a @ CHR '':'' # b \<and> CHR '':'' \<notin> set a \<and> Atoi a = (major, None) \<and> Atoi b = (minor, None))"

lemma sep_index_takeWhile:
  "sep_index i fs = (if length (takeWhile (\<lambda>f. f \<noteq> ''-'') fs) < length fs
     then Some (i + length (takeWhile (\<lambda>f. f \<noteq> ''-'') fs)) else None)"
  by (induction i fs rule: sep_index.induct) auto

lemma device_field_iff:
  "device_field f major minor \<longleftrightarrow> (\<exists>a b. SplitN2 CHR '':'' f = [a, b] \<and> Atoi a = (major, None) \<and> Atoi b = (minor, None))"
  unfolding device_field_def using SplitN2_hit [of "CHR '':''" f] by auto

lemma mx_device_Inr: "mx_device f = Inr (major, minor) \<longleftrightarrow> device_field f major minor"
  by (auto simp: mx_device_def device_field_iff split: prod.splits option.splits list.splits)

lemma parseMountInfoLine_Inr:
  "parseMountInfoLine line = Inr p \<longleftrightarrow>
   (let fs = Fields line; i = 6 + length (takeWhile (\<lambda>f. f \<noteq> ''-'') (drop 6 fs)) in
    i + 4 \<le> length fs \<and> Atoi (fs ! 0) = (mi_MountID p, None) \<and> Atoi (fs ! 1) = (mi_ParentID p, None) \<and>
    mi_Root p = fs ! 3 \<and> mi_MountPoint p = fs ! 4 \<and> mi_Options p = fs ! 5 \<and>
    mi_FSType p = fs ! (i + 1) \<and> mi_Source p = fs ! (i + 2) \<and> mi_SuperOpts p = fs ! (i + 3))"
  by (cases p) (auto simp: parseMountInfoLine_def Let_def sep_index_takeWhile split: if_splits prod.splits option.splits)

lemma mx_parseMountInfo_Inr:
  "mx_parseMountInfo line = Inr m \<longleftrightarrow>
   (let fs = Fields line; optf = takeWhile (\<lambda>f. f \<noteq> ''-'') (drop 6 fs); i = 6 + length optf in
    i + 4 \<le> length fs \<and> Atoi (fs ! 0) = (mx_MountID m, None) \<and> Atoi (fs ! 1) = (mx_ParentID m, None) \<and>
    device_field (fs ! 2) (mx_Major m) (mx_Minor m) \<and>
    mx_Root m = fs ! 3 \<and> mx_MountPoint m = fs ! 4 \<and> mx_MountOptions m = fs ! 5 \<and> mx_OptionalFields m = optf \<and>
    mx_FSType m = fs ! (i + 1) \<and> mx_Source m = fs ! (i + 2) \<and> mx_SuperOptions m = fs ! (i + 3))"
proof -
  let ?fs = "Fields line" and ?n = "length (takeWhile (\<lambda>f. f \<noteq> ''-'') (drop 6 (Fields line)))"
  have len: "\<not> length ?fs < 10 \<and> \<not> length ?fs \<le> 6 + ?n \<and> \<not> length ?fs \<le> 6 + ?n + 1 + 2 \<longleftrightarrow> 6 + ?n + 4 \<le> length ?fs"
    by linarith
  show ?thesis
  proof (cases "6 + ?n + 4 \<le> length ?fs")
    case True
    then show ?thesis
      unfolding mx_parseMountInfo_def Let_def mx_device_Inr [symmetric] using len
      by (cases m; cases "Atoi (?fs ! 0)"; cases "Atoi (?fs ! 1)"; cases "mx_device (?fs ! 2)")
         (auto split: option.splits prod.splits)
  next
    case False
    then have "mx_parseMountInfo line \<noteq> Inr m"
      unfolding mx_parseMountInfo_def Let_def using len
      by (auto split: option.splits prod.splits sum.splits)
    with False show ?thesis by (simp add: Let_def)
  qed
qed

text \<open>C22. The parser of mount-inspector and the one of kube-inspect agree: it accepts exactly the
  lines that kube-inspect accepts and whose third field is a device number major:minor, with the
  same values for all fields that both have.\<close>

theorem mx_parseMountInfo_equiv:
  "(\<exists>m. mx_parseMountInfo line = Inr m \<and> mx_common m = p \<and> mx_Major m = major \<and> mx_Minor m = minor) \<longleftrightarrow>
   parseMountInfoLine line = Inr p \<and> device_field (Fields line ! 2) major minor"
proof
  assume "parseMountInfoLine line = Inr p \<and> device_field (Fields line ! 2) major minor"
  then have "mx_parseMountInfo line = Inr \<lparr>mx_MountID = mi_MountID p, mx_ParentID = mi_ParentID p, mx_Major = major,
      mx_Minor = minor, mx_Root = mi_Root p, mx_MountPoint = mi_MountPoint p, mx_MountOptions = mi_Options p,
      mx_OptionalFields = takeWhile (\<lambda>f. f \<noteq> ''-'') (drop 6 (Fields line)), mx_FSType = mi_FSType p,
      mx_Source = mi_Source p, mx_SuperOptions = mi_SuperOpts p\<rparr>"
    by (simp add: parseMountInfoLine_Inr mx_parseMountInfo_Inr Let_def)
  then show "\<exists>m. mx_parseMountInfo line = Inr m \<and> mx_common m = p \<and> mx_Major m = major \<and> mx_Minor m = minor"
    by (intro exI conjI) (assumption, simp_all add: mx_common_def)
next
  assume "\<exists>m. mx_parseMountInfo line = Inr m \<and> mx_common m = p \<and> mx_Major m = major \<and> mx_Minor m = minor"
  then show "parseMountInfoLine line = Inr p \<and> device_field (Fields line ! 2) major minor"
    by (auto simp: parseMountInfoLine_Inr mx_parseMountInfo_Inr Let_def mx_common_def)
qed

end
