(* ===== verification/Pressure_Readers.thy ===== *)
theory Pressure_Readers
  imports Kubelet Go_Fmt
begin

text \<open>
  Two tools that print pressure files: \<open>04-memory/exercises/psi-reader/main.go\<close> (names start
  with \<open>pr\<close>) and \<open>09-k8s-internals/exercises/node-pressure-reader/main.go\<close> (\<open>nr\<close>). Both parsers
  are instances of the contract of a PSI reader, and all readers of the repository are shown
  to agree on the kernel's files.
\<close>

text \<open>The cgroup v2 entry of \<open>/proc/<pid>/cgroup\<close> as a path below \<open>/sys/fs/cgroup\<close>.\<close>

definition v2_entry :: "string \<Rightarrow> string option" where
  "v2_entry line = (if HasPrefix line ''0::'' then Some (path_Join [''/sys/fs/cgroup'', TrimPrefix line ''0::'']) else None)"

subsection \<open>psi-reader\<close>

record pr_stats =
  pr_Resource :: string
  pr_Some :: psiline
  pr_Full :: psiline

definition parsePSILine :: "string \<Rightarrow> go_err + (string \<times> psiline)" where
  "parsePSILine line =
     (let fields = Fields line in
      if length fields < 5 then Inl (Errorf ''unexpected PSI line format: %q'' [line] None)
      else Inr (hd fields, scan_fold eq_field psi_set psi_zero (tl fields)))"

definition pr_line :: "string \<Rightarrow> (string \<times> psiline) option" where
  "pr_line text =
     (let line = TrimSpace text in
      if line = [] then None
      else (case parsePSILine line of Inl err \<Rightarrow> None | Inr (kind, parsed) \<Rightarrow> Some (kind, parsed)))"

definition pr_scan :: "string \<times> go_err option \<Rightarrow> psiline \<times> psiline" where
  "pr_scan f = scan_fold pr_line psi_pair_set (psi_zero, psi_zero) (scan_lines f)"

text \<open>The callers look at the error first, so the statistics beside an error are not kept.\<close>

definition readPSI :: "sysview \<Rightarrow> string \<Rightarrow> go_err + pr_stats" where
  "readPSI sv path =
     (case sv_open sv path of
        Inl err \<Rightarrow> Inl (Errorf ''opening %s: %w'' [path] (Some err))
      | Inr f \<Rightarrow>
          (case snd (scan_file f) of
             Some err \<Rightarrow> Inl err
           | None \<Rightarrow> Inr \<lparr>pr_Resource = TrimSuffix (path_Base path) ''.pressure'',
                        pr_Some = fst (pr_scan f), pr_Full = snd (pr_scan f)\<rparr>))"

definition printPSILine :: "string \<Rightarrow> psiline \<Rightarrow> out_line" where
  "printPSILine label l =
     Out (''  '' @ ljust 5 label @ ''  avg10='' @ fmt_f 2 (pl_Avg10 l) @ ''  avg60='' @ fmt_f 2 (pl_Avg60 l)
       @ ''  avg300='' @ fmt_f 2 (pl_Avg300 l) @ ''  total='' @ fmt_u (pl_Total l) @ u_micro @ ''s'')"

definition printPSIStats :: "pr_stats \<Rightarrow> out_line list" where
  "printPSIStats s = [printPSILine ''some'' (pr_Some s), printPSILine ''full'' (pr_Full s)]"

definition pr_section :: "sysview \<Rightarrow> string \<Rightarrow> string \<Rightarrow> string \<Rightarrow> out_line list" where
  "pr_section sv label res path =
     Out [] #
     (case readPSI sv path of
        Inl err \<Rightarrow> [OutOf (''  '' @ label @ '': unavailable ('') err '')'']
      | Inr stats \<Rightarrow> Out (''  '' @ res @ '' pressure:'') # printPSIStats stats)"

definition showSystemPSI :: "sysview \<Rightarrow> out_line list" where
  "showSystemPSI sv =
     Out ''=== System-wide PSI (/proc/pressure/) ==='' #
     concat (map (\<lambda>res. pr_section sv (res @ '' pressure'') res (''/proc/pressure/'' @ res)) [''cpu'', ''memory'', ''io''])"

definition showCgroupPSI :: "sysview \<Rightarrow> string \<Rightarrow> out_line list" where
  "showCgroupPSI sv cgPath =
     Out [] # Out (''=== Cgroup PSI: '' @ cgPath @ '' ==='') #
     concat (map (\<lambda>res. pr_section sv (res @ ''.pressure'') res (path_Join [cgPath, res @ ''.pressure'']))
       [''cpu'', ''memory'', ''io''])"

definition pr_cgroupFromPID :: "sysview \<Rightarrow> int \<Rightarrow> go_err + string" where
  "pr_cgroupFromPID sv pid =
     (case os_ReadFile sv (''/proc/'' @ itoa pid @ ''/cgroup'') of
        Inl err \<Rightarrow> Inl (Errorf ''reading /proc/%d/cgroup: %w'' [itoa pid] (Some err))
      | Inr content \<Rightarrow>
          (case first_some v2_entry (Split CHR 0x0A content) of
             Some p \<Rightarrow> Inr p
           | None \<Rightarrow> Inl (Errorf ''no cgroup v2 entry (0::) found for PID %d'' [itoa pid] None)))"

definition pr_usage :: "out_line list" where
  "pr_usage = errs
     [''usage: psi-reader'', ''       psi-reader --cgroup <path>'', ''       psi-reader --pid <pid>'', [],
      ''examples:'',
      ''  psi-reader                                    # system-wide PSI'',
      ''  psi-reader --cgroup /sys/fs/cgroup/user.slice  # + cgroup PSI'',
      ''  psi-reader --pid 1                             # systemd's cgroup PSI'']"

text \<open>The arguments without the program's name.\<close>

definition psi_reader :: "sysview \<Rightarrow> string list \<Rightarrow> out_line list \<times> nat" where
  "psi_reader sv args =
     (case args of
        [] \<Rightarrow> (showSystemPSI sv, 0)
      | [flag, v] \<Rightarrow>
          if flag = ''--cgroup'' then (showSystemPSI sv @ showCgroupPSI sv v, 0)
          else if flag = ''--pid'' then
            (case Atoi v of
               (_, Some err) \<Rightarrow> ([bad_arg ''invalid PID %q'' v], 1)
             | (pid, None) \<Rightarrow>
                 (case pr_cgroupFromPID sv pid of
                    Inl err \<Rightarrow> ([ErrOf ''error: '' err], 1)
                  | Inr cgPath \<Rightarrow>
                      (Out (''PID '' @ itoa pid @ '' -> cgroup: '' @ cgPath) # Out [] # showSystemPSI sv @ showCgroupPSI sv cgPath, 0)))
          else (pr_usage, 1)
      | _ \<Rightarrow> (pr_usage, 1))"

subsection \<open>node-pressure-reader\<close>

record nr_stats =
  nr_Resource :: string
  nr_SomeAvg10 :: f64
  nr_SomeAvg60 :: f64
  nr_SomeAvg300 :: f64
  nr_SomeTotal :: uint64
  nr_FullAvg10 :: f64
  nr_FullAvg60 :: f64
  nr_FullAvg300 :: f64
  nr_FullTotal :: uint64
  nr_HasFull :: bool

record nr_events =
  ne_Low :: uint64
  ne_High :: uint64
  ne_Max :: uint64
  ne_OOM :: uint64
  ne_OOMKill :: uint64

text \<open>The map \<open>vals\<close> of a line; a missing key reads as the empty string.\<close>

definition nr_vals :: "string list \<Rightarrow> string \<Rightarrow> string" where
  "nr_vals fs k = (case scan_fold eq_field (\<lambda>k v m. m(k \<mapsto> v)) Map.empty fs k of None \<Rightarrow> [] | Some v \<Rightarrow> v)"

definition nr_update :: "string \<Rightarrow> string list \<Rightarrow> nr_stats \<Rightarrow> nr_stats" where
  "nr_update kind fs stats =
     (let avg10 = ParseFloat_val (nr_vals fs ''avg10''); avg60 = ParseFloat_val (nr_vals fs ''avg60'');
          avg300 = ParseFloat_val (nr_vals fs ''avg300''); tot = ParseUint_val (nr_vals fs ''total'') 10 in
      if kind = ''some'' then
        stats\<lparr>nr_SomeAvg10 := avg10, nr_SomeAvg60 := avg60, nr_SomeAvg300 := avg300, nr_SomeTotal := tot\<rparr>
      else if kind = ''full'' then
        stats\<lparr>nr_HasFull := True, nr_FullAvg10 := avg10, nr_FullAvg60 := avg60, nr_FullAvg300 := avg300, nr_FullTotal := tot\<rparr>
      else stats)"

definition nr_line :: "string \<Rightarrow> (string \<times> string list) option" where
  "nr_line line = (let fields = Fields line in if length fields < 5 then None else Some (hd fields, tl fields))"

definition nr_zero :: "string \<Rightarrow> nr_stats" where
  "nr_zero resource = \<lparr>nr_Resource = resource, nr_SomeAvg10 = f64_zero, nr_SomeAvg60 = f64_zero, nr_SomeAvg300 = f64_zero,
     nr_SomeTotal = 0, nr_FullAvg10 = f64_zero, nr_FullAvg60 = f64_zero, nr_FullAvg300 = f64_zero, nr_FullTotal = 0,
     nr_HasFull = False\<rparr>"

definition nr_scan :: "string \<Rightarrow> string \<times> go_err option \<Rightarrow> nr_stats" where
  "nr_scan resource f = scan_fold nr_line nr_update (nr_zero resource) (scan_lines f)"

definition parsePSIFile :: "sysview \<Rightarrow> string \<Rightarrow> string \<Rightarrow> go_err + nr_stats" where
  "parsePSIFile sv path resource =
     (case sv_open sv path of
        Inl err \<Rightarrow> Inl err
      | Inr f \<Rightarrow> (case snd (scan_file f) of Some err \<Rightarrow> Inl err | None \<Rightarrow> Inr (nr_scan resource f)))"

definition nr_mem_set :: "string \<Rightarrow> uint64 \<Rightarrow> nr_events \<Rightarrow> nr_events" where
  "nr_mem_set k v ev =
     (if k = ''low'' then ev\<lparr>ne_Low := v\<rparr>
      else if k = ''high'' then ev\<lparr>ne_High := v\<rparr>
      else if k = ''max'' then ev\<lparr>ne_Max := v\<rparr>
      else if k = ''oom'' then ev\<lparr>ne_OOM := v\<rparr>
      else if k = ''oom_kill'' then ev\<lparr>ne_OOMKill := v\<rparr>
      else ev)"

definition nr_parseMemoryEvents :: "sysview \<Rightarrow> string \<Rightarrow> go_err + nr_events" where
  "nr_parseMemoryEvents sv path =
     (case sv_open sv path of
        Inl err \<Rightarrow> Inl err
      | Inr f \<Rightarrow>
          (case snd (scan_file f) of
             Some err \<Rightarrow> Inl err
           | None \<Rightarrow> Inr (scan_fold count_line nr_mem_set
               \<lparr>ne_Low = 0, ne_High = 0, ne_Max = 0, ne_OOM = 0, ne_OOMKill = 0\<rparr> (scan_lines f))))"

definition nr_row :: "string \<Rightarrow> f64 \<Rightarrow> f64 \<Rightarrow> f64 \<Rightarrow> uint64 \<Rightarrow> out_line" where
  "nr_row kind a10 a60 a300 tot =
     Out (''    '' @ kind @ ''  avg10='' @ fmt_f 2 a10 @ ''%  avg60='' @ fmt_f 2 a60 @ ''%  avg300='' @ fmt_f 2 a300
       @ ''%  total='' @ fmt_u tot @ '' '' @ u_micro @ ''s'')"

definition printPSI :: "nr_stats \<Rightarrow> out_line list" where
  "printPSI s =
     Out (''  '' @ nr_Resource s @ '' pressure:'') #
     nr_row ''some'' (nr_SomeAvg10 s) (nr_SomeAvg60 s) (nr_SomeAvg300 s) (nr_SomeTotal s) #
     (if nr_HasFull s then [nr_row ''full'' (nr_FullAvg10 s) (nr_FullAvg60 s) (nr_FullAvg300 s) (nr_FullTotal s)] else [])"

definition printNodePressure :: "sysview \<Rightarrow> out_line list" where
  "printNodePressure sv =
     Out ''=== Node Pressure (PSI) ==='' #
     concat (map (\<lambda>(name, path).
         case parsePSIFile sv path name of
           Inl err \<Rightarrow> [ErrOf (''  '' @ path @ '': '') err]
         | Inr s \<Rightarrow> printPSI s)
       [(''memory'', ''/proc/pressure/memory''), (''cpu'', ''/proc/pressure/cpu''), (''io'', ''/proc/pressure/io'')])"

definition nr_findPodCgroup :: "sysview \<Rightarrow> string \<Rightarrow> go_err + string" where
  "nr_findPodCgroup sv podUID =
     (case pod_matches sv podUID of
        [] \<Rightarrow> Inl (Errorf ''cgroup not found for pod %s'' [podUID] None)
      | d # _ \<Rightarrow> Inr d)"

definition printPodStats :: "sysview \<Rightarrow> string \<Rightarrow> out_line list" where
  "printPodStats sv podUID =
     Out [] # Out (''=== Pod '' @ podUID @ '' ==='') #
     (case nr_findPodCgroup sv podUID of
        Inl err \<Rightarrow> [ErrOf ''  '' err]
      | Inr cgPath \<Rightarrow>
          Out (''  cgroup: '' @ cgPath) #
          (case nr_parseMemoryEvents sv (path_Join [cgPath, ''memory.events'']) of
             Inl err \<Rightarrow> [ErrOf ''  memory.events: '' err]
           | Inr ev \<Rightarrow>
               [Out ''  memory.events:'',
                Out (''    low='' @ fmt_u (ne_Low ev) @ ''  high='' @ fmt_u (ne_High ev) @ ''  max='' @ fmt_u (ne_Max ev)
                  @ ''  oom='' @ fmt_u (ne_OOM ev) @ ''  oom_kill='' @ fmt_u (ne_OOMKill ev))]) @
          (case parsePSIFile sv (path_Join [cgPath, ''memory.pressure'']) ''memory'' of
             Inl err \<Rightarrow> [ErrOf ''  memory.pressure: '' err]
           | Inr mp \<Rightarrow> printPSI mp))"

definition node_pressure_reader :: "sysview \<Rightarrow> string \<Rightarrow> out_line list" where
  "node_pressure_reader sv podUID =
     printNodePressure sv @ (if podUID \<noteq> [] then printPodStats sv podUID else [])"

subsection \<open>The readers on the kernel's files\<close>

lemma length_psi_fields: "length (psi_fields r) = 4"
  by (simp add: psi_fields_def)

lemma TrimSpace_psi_line: "token kind \<Longrightarrow> TrimSpace (psi_line kind r) = psi_line kind r"
  unfolding psi_line_def
  by (intro TrimSpace_stable strip_unwords strip_rev_unwords)
     (auto simp: psi_fields_def intro: psi_fields_tokens [of _ r, unfolded psi_fields_def])

lemma pr_line_kernel: "token kind \<Longrightarrow> psi_ok r \<Longrightarrow> pr_line (psi_line kind r) = Some (kind, psiline_of r)"
proof -
  assume k: "token kind" and r: "psi_ok r"
  have "psi_line kind r \<noteq> []" using Fields_psi_line [OF k, of r] by auto
  with k r show ?thesis
    by (simp add: pr_line_def TrimSpace_psi_line parsePSILine_def Fields_psi_line length_psi_fields scan_psi_fields)
qed

lemma pr_scan_file:
  assumes "psi_ok s" and "\<And>r. f = Some r \<Longrightarrow> psi_ok r"
  shows "pr_scan (psi_file s f, e) = (psiline_of s, case f of None \<Rightarrow> psi_zero | Some r \<Rightarrow> psiline_of r)"
  using assms psi_file_lines [of s f e]
  by (auto simp: pr_scan_def scan_lines_def pr_line_kernel psi_pair_set_def split: option.splits)

interpretation psi_reader: psi_source "\<lambda>f. map_prod pl_Avg10 pl_Avg10 (pr_scan f)"
  by unfold_locales (auto simp: pr_scan_file psiline_of_def psi_zero_def split: option.splits)

lemma nr_vals_kernel:
  "nr_vals (psi_fields r) ''avg10'' = fixed_digits 2 (avg10_c r)" "nr_vals (psi_fields r) ''avg60'' = fixed_digits 2 (avg60_c r)"
  "nr_vals (psi_fields r) ''avg300'' = fixed_digits 2 (avg300_c r)" "nr_vals (psi_fields r) ''total'' = utoa (unat (total_us r))"
  by (simp_all add: nr_vals_def scan_fold_map eq_fields_psi)

lemma nr_line_kernel: "token kind \<Longrightarrow> nr_line (psi_line kind r) = Some (kind, psi_fields r)"
  by (simp add: nr_line_def Fields_psi_line length_psi_fields)

definition nr_of :: "string \<Rightarrow> psiline \<Rightarrow> psiline option \<Rightarrow> nr_stats" where
  "nr_of resource s f =
     (let g = (case f of None \<Rightarrow> psi_zero | Some g \<Rightarrow> g) in
      \<lparr>nr_Resource = resource, nr_SomeAvg10 = pl_Avg10 s, nr_SomeAvg60 = pl_Avg60 s, nr_SomeAvg300 = pl_Avg300 s,
       nr_SomeTotal = pl_Total s, nr_FullAvg10 = pl_Avg10 g, nr_FullAvg60 = pl_Avg60 g, nr_FullAvg300 = pl_Avg300 g,
       nr_FullTotal = pl_Total g, nr_HasFull = (f \<noteq> None)\<rparr>)"

lemma nr_scan_file:
  assumes "psi_ok s" and "\<And>r. f = Some r \<Longrightarrow> psi_ok r"
  shows "nr_scan resource (psi_file s f, e) = nr_of resource (psiline_of s) (map_option psiline_of f)"
  using assms psi_file_lines [of s f e]
  by (auto simp: nr_scan_def scan_lines_def nr_line_kernel nr_update_def nr_vals_kernel nr_zero_def nr_of_def
      psiline_of_def psi_zero_def ParseFloat_cent psi_ok_def Let_def split: option.splits)

interpretation node_pressure: psi_source "\<lambda>f. (nr_SomeAvg10 (nr_scan resource f), nr_FullAvg10 (nr_scan resource f))"
  by unfold_locales (auto simp: nr_scan_file nr_of_def psiline_of_def psi_zero_def Let_def split: option.splits)

interpretation node_pressure_pod: pod_finder
  "\<lambda>sv uid. case nr_findPodCgroup sv uid of Inl _ \<Rightarrow> None | Inr d \<Rightarrow> Some d"
  by unfold_locales (auto simp: nr_findPodCgroup_def pod_first_def split: list.splits)

definition nr_mem_get :: "string \<Rightarrow> nr_events \<Rightarrow> uint64" where
  "nr_mem_get k ev =
     (if k = ''low'' then ne_Low ev else if k = ''high'' then ne_High ev
      else if k = ''max'' then ne_Max ev else if k = ''oom'' then ne_OOM ev else ne_OOMKill ev)"

interpretation nr_mem: keyed_scan nr_mem_set nr_mem_get "\<lambda>_ v. v" mem_keys
proof unfold_locales
  fix k v s assume "k \<in> mem_keys"
  then show "nr_mem_get k (nr_mem_set k v s) = v" by (auto simp: mem_keys_def nr_mem_get_def nr_mem_set_def)
next
  fix k k' :: string and v s assume "k \<in> mem_keys" "k' \<noteq> k"
  then show "nr_mem_get k (nr_mem_set k' v s) = nr_mem_get k s"
    by (auto simp: mem_keys_def nr_mem_get_def nr_mem_set_def)
qed

text \<open>C23. All readers of pressure files agree on what the kernel writes: psi-reader and
  node-pressure-reader deliver the lines that the cgroup package of kube-inspect delivers, the
  kubelet package their ten-second averages, and node-pressure-reader notes a full line exactly
  when there is one.\<close>

theorem psi_readers_agree:
  assumes "psi_ok s" and "\<And>r. f = Some r \<Longrightarrow> psi_ok r"
  shows "pr_scan (psi_file s f, e) = scan_psi (psi_file s f, e)
    \<and> nr_scan resource (psi_file s f, e) =
        nr_of resource (fst (scan_psi (psi_file s f, e))) (if f = None then None else Some (snd (scan_psi (psi_file s f, e))))
    \<and> scan_avg10 (psi_file s f, e) = map_prod pl_Avg10 pl_Avg10 (scan_psi (psi_file s f, e))"
  using pr_scan_file [where f = f, OF assms, where e = e] nr_scan_file [where f = f, OF assms, where e = e and resource = resource]
    scan_psi_file [where f = f, OF assms, where e = e] scan_avg10_file [where f = f, OF assms, where e = e]
  by (cases f) (simp_all add: psiline_of_def psi_zero_def)

theorem psi_readers_agree_witness:
  "pr_scan (psi_file (fst demo_psi) (Some (snd demo_psi)), None) = scan_psi (psi_file (fst demo_psi) (Some (snd demo_psi)), None)"
proof -
  have ok: "psi_ok (fst demo_psi)" "psi_ok (snd demo_psi)" by code_simp+
  then show ?thesis using psi_readers_agree [of "fst demo_psi" "Some (snd demo_psi)" None resource] by simp
qed

end
