(* ===== verification/Cgroup_Stats.thy ===== *)
theory Cgroup_Stats
  imports Pressure_Readers Metrics
begin

text \<open>
  \<open>03-cgroups/exercises/cgroup-stats/main.go\<close> (names start with \<open>cs\<close>), the counters of one
  cgroup, and \<open>10-performance/exercises/sched-latency-reader/main.go\<close> (\<open>sl\<close>), throttling and
  scheduler latency of a pod or a process. Both repeat code of kube-inspect; their readers are
  compared with the packages \<open>cgroup\<close> and \<open>metrics\<close>.
\<close>

subsection \<open>cgroup-stats\<close>

record cs_stats =
  cs_Path :: string
  cs_MemCurrent :: uint64
  cs_MemMax :: string
  cs_MemHigh :: string
  cs_MemStat :: "(string \<rightharpoonup> uint64) option"
  cs_MemEvents :: "(string \<rightharpoonup> uint64) option"
  cs_CPUMax :: string
  cs_CPUWeight :: uint64
  cs_CPUStat :: "(string \<rightharpoonup> uint64) option"
  cs_PidsCurrent :: uint64
  cs_PidsMax :: string

definition cs_readUint64 :: "sysview \<Rightarrow> string \<Rightarrow> uint64 \<times> go_err option" where
  "cs_readUint64 sv path =
     (case os_ReadFile sv path of Inl err \<Rightarrow> (0, Some err) | Inr b \<Rightarrow> ParseUint (TrimSpace b) 10)"

definition readStr :: "sysview \<Rightarrow> string \<Rightarrow> string" where
  "readStr sv path = (case os_ReadFile sv path of Inl err \<Rightarrow> [] | Inr b \<Rightarrow> TrimSpace b)"

definition cs_kv :: "string \<Rightarrow> (string \<times> uint64) option" where
  "cs_kv text =
     (case Fields text of
        [k, s] \<Rightarrow> (case ParseUint s 10 of (v, None) \<Rightarrow> Some (k, v) | (_, Some err) \<Rightarrow> None)
      | _ \<Rightarrow> None)"

definition cs_readKV :: "sysview \<Rightarrow> string \<Rightarrow> (string \<rightharpoonup> uint64) option" where
  "cs_readKV sv path =
     (case sv_open sv path of
        Inl err \<Rightarrow> None
      | Inr f \<Rightarrow> Some (scan_fold cs_kv (\<lambda>k v m. m(k \<mapsto> v)) Map.empty (scan_lines f)))"

definition cs_cgroupFromPID :: "sysview \<Rightarrow> int \<Rightarrow> go_err + string" where
  "cs_cgroupFromPID sv pid =
     (case os_ReadFile sv (''/proc/'' @ itoa pid @ ''/cgroup'') of
        Inl err \<Rightarrow> Inl (Errorf ''reading /proc/%d/cgroup: %w'' [itoa pid] (Some err))
      | Inr content \<Rightarrow>
          (case first_some v2_entry (Split CHR 0x0A content) of
             Some p \<Rightarrow> Inr p
           | None \<Rightarrow> Inl (Errorf ''no cgroup v2 entry in /proc/%d/cgroup'' [itoa pid] None)))"

definition readStats :: "sysview \<Rightarrow> string \<Rightarrow> go_err + cs_stats" where
  "readStats sv path =
     (case sv_stat sv path of
        Inl err \<Rightarrow> Inl (Errorf ''cgroup %s: %w'' [path] (Some err))
      | Inr _ \<Rightarrow>
          Inr \<lparr>cs_Path = path,
               cs_MemCurrent = fst (cs_readUint64 sv (path_Join [path, ''memory.current''])),
               cs_MemMax = readStr sv (path_Join [path, ''memory.max'']),
               cs_MemHigh = readStr sv (path_Join [path, ''memory.high'']),
               cs_MemStat = cs_readKV sv (path_Join [path, ''memory.stat'']),
               cs_MemEvents = cs_readKV sv (path_Join [path, ''memory.events'']),
               cs_CPUMax = readStr sv (path_Join [path, ''cpu.max'']),
               cs_CPUWeight = fst (cs_readUint64 sv (path_Join [path, ''cpu.weight''])),
               cs_CPUStat = cs_readKV sv (path_Join [path, ''cpu.stat'']),
               cs_PidsCurrent = fst (cs_readUint64 sv (path_Join [path, ''pids.current''])),
               cs_PidsMax = readStr sv (path_Join [path, ''pids.max''])\<rparr>)"

definition in_unit :: "uint64 \<Rightarrow> nat \<Rightarrow> f64" where
  "in_unit b k = f64_div (f64_of_uint64 b) (FFin False (2 ^ k))"

definition fmtBytes :: "uint64 \<Rightarrow> string" where
  "fmtBytes b =
     (if 2 ^ 30 \<le> b then fmt_f 2 (in_unit b 30) @ '' GiB ('' @ fmt_u b @ '' B)''
      else if 2 ^ 20 \<le> b then fmt_f 2 (in_unit b 20) @ '' MiB ('' @ fmt_u b @ '' B)''
      else if 2 ^ 10 \<le> b then fmt_f 2 (in_unit b 10) @ '' KiB ('' @ fmt_u b @ '' B)''
      else fmt_u b @ '' B'')"

definition fmtLimit :: "string \<Rightarrow> string" where
  "fmtLimit s =
     (if s = [] \<or> s = ''max'' then s
      else (case ParseUint s 10 of (_, Some err) \<Rightarrow> s | (v, None) \<Rightarrow> fmtBytes v))"

text \<open>\<open>if v, ok := m[k]; ok { Printf }\<close> for the keys in turn; a nil map has no keys.\<close>

definition cs_rows :: "(string \<rightharpoonup> uint64) option \<Rightarrow> (string \<Rightarrow> uint64 \<Rightarrow> string) \<Rightarrow> string list \<Rightarrow> string list" where
  "cs_rows m row ks =
     List.map_filter (\<lambda>k. case m of None \<Rightarrow> None | Some m \<Rightarrow> (case m k of None \<Rightarrow> None | Some v \<Rightarrow> Some (row k v))) ks"

definition cs_printStats :: "cs_stats \<Rightarrow> string list" where
  "cs_printStats s =
     [''Cgroup: '' @ cs_Path s, [], ''=== Memory ==='',
      ''  current  : '' @ fmtBytes (cs_MemCurrent s),
      ''  max      : '' @ fmtLimit (cs_MemMax s),
      ''  high     : '' @ fmtLimit (cs_MemHigh s)] @
     cs_rows (cs_MemStat s) (\<lambda>k v. ''  stat.'' @ ljust 9 (k @ '':'') @ '' '' @ fmtBytes v) [''anon'', ''file'', ''kernel'', ''slab'', ''sock''] @
     cs_rows (cs_MemEvents s) (\<lambda>k v. ''  events.'' @ ljust 6 (k @ '':'') @ '' '' @ fmt_u v) [''oom'', ''oom_kill'', ''max''] @
     [[], ''=== CPU ==='', ''  max    : '' @ cs_CPUMax s, ''  weight : '' @ fmt_u (cs_CPUWeight s)] @
     cs_rows (cs_CPUStat s) (\<lambda>k v. ''  stat.'' @ ljust 16 (k @ '':'') @ '' '' @ fmt_u v)
       [''usage_usec'', ''user_usec'', ''system_usec'', ''nr_throttled'', ''throttled_usec''] @
     [[], ''=== PIDs ==='', ''  current : '' @ fmt_u (cs_PidsCurrent s), ''  max     : '' @ cs_PidsMax s]"

definition cs_usage :: "out_line list" where
  "cs_usage = errs
     [''usage: cgroup-stats <cgroup-path>'', ''       cgroup-stats --pid <pid>'', [], ''examples:'',
      ''  cgroup-stats /sys/fs/cgroup/user.slice'', ''  cgroup-stats --pid 1'', ''  cgroup-stats --pid $$'']"

text \<open>The last part of \<open>main\<close>, after the lines printed before it.\<close>

definition cs_report :: "sysview \<Rightarrow> out_line list \<Rightarrow> string \<Rightarrow> out_line list \<times> nat" where
  "cs_report sv pre cgPath =
     (case readStats sv cgPath of
        Inl err \<Rightarrow> (pre @ [ErrOf ''error: '' err], 1)
      | Inr s \<Rightarrow> (pre @ outs (cs_printStats s), 0))"

definition cgroup_stats :: "sysview \<Rightarrow> string list \<Rightarrow> out_line list \<times> nat" where
  "cgroup_stats sv args =
     (case args of
        [] \<Rightarrow> (cs_usage, 1)
      | a # rest \<Rightarrow>
          if a = ''--pid'' then
            (case rest of
               [] \<Rightarrow> (cs_usage, 1)
             | v # _ \<Rightarrow>
                 (case Atoi v of
                    (_, Some err) \<Rightarrow> ([bad_arg ''invalid PID %q'' v], 1)
                  | (pid, None) \<Rightarrow>
                      (case cs_cgroupFromPID sv pid of
                         Inl err \<Rightarrow> ([ErrOf ''error: '' err], 1)
                       | Inr p \<Rightarrow> cs_report sv
                           (outs [''PID '' @ itoa pid @ '' '' @ u_arrow @ '' cgroup: '' @ p, []]) p)))
          else cs_report sv [] a)"

subsection \<open>sched-latency-reader\<close>

record sl_sched =
  sl_PID :: int
  sl_Comm :: string
  sl_RuntimeNS :: uint64
  sl_WaitNS :: uint64
  sl_NrSwitches :: uint64

record sl_cpu =
  sl_UsageUS :: uint64
  sl_NrPeriods :: uint64
  sl_NrThrottled :: uint64
  sl_ThrottledUS :: uint64

definition sl_ThrottleRatio :: "sl_cpu \<Rightarrow> f64" where
  "sl_ThrottleRatio s =
     (if sl_NrPeriods s = 0 then f64_zero
      else f64_div (f64_of_uint64 (sl_NrThrottled s)) (f64_of_uint64 (sl_NrPeriods s)))"

definition sl_WaitRatio :: "sl_sched \<Rightarrow> f64" where
  "sl_WaitRatio s =
     (let tot = sl_WaitNS s + sl_RuntimeNS s in
      if tot = 0 then f64_zero else f64_div (f64_of_uint64 (sl_WaitNS s)) (f64_of_uint64 tot))"

definition sl_parseSchedStat :: "sysview \<Rightarrow> int \<Rightarrow> go_err + sl_sched" where
  "sl_parseSchedStat sv pid =
     (let path = ''/proc/'' @ itoa pid @ ''/schedstat'' in
      case os_ReadFile sv path of
        Inl err \<Rightarrow> Inl err
      | Inr content \<Rightarrow>
          (let fields = Fields (TrimSpace content) in
           if length fields < 3 then Inl (Errorf ''%s: unexpected format %q'' [path, content] None)
           else Inr \<lparr>sl_PID = pid,
             sl_Comm = (case os_ReadFile sv (''/proc/'' @ itoa pid @ ''/comm'') of Inl _ \<Rightarrow> ''(unknown)'' | Inr cb \<Rightarrow> TrimSpace cb),
             sl_RuntimeNS = ParseUint_val (fields ! 0) 10, sl_WaitNS = ParseUint_val (fields ! 1) 10,
             sl_NrSwitches = ParseUint_val (fields ! 2) 10\<rparr>))"

definition sl_cpu_set :: "string \<Rightarrow> uint64 \<Rightarrow> sl_cpu \<Rightarrow> sl_cpu" where
  "sl_cpu_set k v s =
     (if k = ''usage_usec'' then s\<lparr>sl_UsageUS := v\<rparr>
      else if k = ''nr_periods'' then s\<lparr>sl_NrPeriods := v\<rparr>
      else if k = ''nr_throttled'' then s\<lparr>sl_NrThrottled := v\<rparr>
      else if k = ''throttled_usec'' then s\<lparr>sl_ThrottledUS := v\<rparr>
      else s)"

text \<open>The callers look at the error first.\<close>

definition sl_parseCPUStat :: "sysview \<Rightarrow> string \<Rightarrow> go_err + sl_cpu" where
  "sl_parseCPUStat sv path =
     (case sv_open sv path of
        Inl err \<Rightarrow> Inl err
      | Inr f \<Rightarrow>
          (case snd (scan_file f) of
             Some err \<Rightarrow> Inl err
           | None \<Rightarrow> Inr (scan_fold count_line sl_cpu_set
               \<lparr>sl_UsageUS = 0, sl_NrPeriods = 0, sl_NrThrottled = 0, sl_ThrottledUS = 0\<rparr> (scan_lines f))))"

definition sl_findPodCgroup :: "sysview \<Rightarrow> string \<Rightarrow> go_err + string" where
  "sl_findPodCgroup sv podUID =
     (case pod_matches sv podUID of
        [] \<Rightarrow> Inl (Errorf ''cgroup not found for pod %s'' [podUID] None)
      | d # _ \<Rightarrow> Inr d)"

definition sl_pod_pid :: "sysview \<Rightarrow> string \<Rightarrow> dirent \<Rightarrow> int option" where
  "sl_pod_pid sv podUID e =
     (case Atoi (de_name e) of
        (_, Some err) \<Rightarrow> None
      | (pid, None) \<Rightarrow>
          (case os_ReadFile sv (''/proc/'' @ itoa pid @ ''/cgroup'') of
             Inl err \<Rightarrow> None
           | Inr cgData \<Rightarrow>
               if Contains cgData (''pod'' @ podUID) \<or> Contains cgData (RemoveAll podUID CHR ''-'') then Some pid else None))"

definition listPodPIDs :: "sysview \<Rightarrow> string \<Rightarrow> int list" where
  "listPodPIDs sv podUID = List.map_filter (sl_pod_pid sv podUID) (fst (os_ReadDir sv ''/proc''))"

definition sl_ms :: "uint64 \<Rightarrow> string" where
  "sl_ms ns = rjust 6 (fmt_f 1 (f64_div (f64_of_uint64 ns) (FFin False 1000000))) @ ''ms''"

definition printSchedStat :: "sl_sched \<Rightarrow> out_line" where
  "printSchedStat s =
     Out (''  pid='' @ ljust 6 (itoa (sl_PID s)) @ ''  comm='' @ ljust 16 (sl_Comm s) @ ''  runtime='' @ sl_ms (sl_RuntimeNS s)
       @ ''  wait='' @ sl_ms (sl_WaitNS s) @ ''  wait_ratio='' @ rjust 4 (fmt_f 1 (f64_mul (sl_WaitRatio s) (FFin False 100)))
       @ ''%  switches='' @ fmt_u (sl_NrSwitches s))"

definition runPID :: "sysview \<Rightarrow> int \<Rightarrow> out_line list" where
  "runPID sv pid =
     (case sl_parseSchedStat sv pid of
        Inl err \<Rightarrow> [ErrOf ''schedstat: '' err]
      | Inr s \<Rightarrow>
          [Out (''=== /proc/'' @ itoa pid @ ''/schedstat ===''), printSchedStat s, Out [],
           Out (''Kernel path: /proc/'' @ itoa pid @ ''/schedstat '' @ u_arrow @ '' fs/proc/base.c (proc_pid_schedstat)''),
           Out ''Source: https://elixir.bootlin.com/linux/v6.9/source/fs/proc/base.c''])"

definition runPod :: "sysview \<Rightarrow> string \<Rightarrow> bool \<Rightarrow> out_line list" where
  "runPod sv podUID showAll =
     (case sl_findPodCgroup sv podUID of
        Inl err \<Rightarrow> [ErrOf ''cgroup: '' err]
      | Inr cgPath \<Rightarrow>
          [Out (''=== CPU throttle for pod '' @ podUID @ '' ===''), Out (''  cgroup: '' @ cgPath)] @
          (case sl_parseCPUStat sv (path_Join [cgPath, ''cpu.stat'']) of
             Inl err \<Rightarrow> [ErrOf ''  cpu.stat: '' err]
           | Inr cs \<Rightarrow> outs
               [''  usage_usec:     '' @ fmt_u (sl_UsageUS cs), ''  nr_periods:     '' @ fmt_u (sl_NrPeriods cs),
                ''  nr_throttled:   '' @ fmt_u (sl_NrThrottled cs), ''  throttled_usec: '' @ fmt_u (sl_ThrottledUS cs),
                ''  throttle_ratio: '' @ fmt_f 1 (f64_mul (sl_ThrottleRatio cs) (FFin False 100)) @ ''%'']) @
          [Out []]) @
     (if showAll then
        Out (''=== Scheduler latency for pod '' @ podUID @ '' processes ==='') #
        (case listPodPIDs sv podUID of
           [] \<Rightarrow> [Out ''  (no processes found for this pod UID)'']
         | pids \<Rightarrow> List.map_filter
             (\<lambda>pid. case sl_parseSchedStat sv pid of Inl err \<Rightarrow> None | Inr s \<Rightarrow> Some (printSchedStat s)) pids)
      else [])"

definition sched_latency_reader :: "sysview \<Rightarrow> int \<Rightarrow> string \<Rightarrow> bool \<Rightarrow> out_line list \<times> nat" where
  "sched_latency_reader sv pid pod all =
     (if pid = 0 \<and> pod = [] then ([ErrLine ''usage: sched-latency-reader --pid <pid> | --pod <uid> [--all]''], 1)
      else ((if pid \<noteq> 0 then runPID sv pid else []) @ (if pod \<noteq> [] then runPod sv pod all else []), 0))"

subsection \<open>Contracts\<close>

interpretation sl_throttle: ratio_metric sl_ThrottleRatio sl_NrThrottled sl_NrPeriods
  by unfold_locales (auto simp: sl_ThrottleRatio_def)

interpretation sl_wait: ratio_metric sl_WaitRatio sl_WaitNS "\<lambda>s. sl_WaitNS s + sl_RuntimeNS s"
  by unfold_locales (auto simp: sl_WaitRatio_def Let_def)

interpretation sl_pod: pod_finder "\<lambda>sv uid. case sl_findPodCgroup sv uid of Inl _ \<Rightarrow> None | Inr d \<Rightarrow> Some d"
  by unfold_locales (auto simp: sl_findPodCgroup_def pod_first_def split: list.splits)

subsection \<open>Agreement with kube-inspect\<close>

lemma cs_kv_line: "cs_kv = kv_line"
  by (rule ext) (auto simp: cs_kv_def kv_line_def two_fields_def split: list.splits)

lemma cs_readers: "cs_readUint64 = readUint64" "readStr = readString" "cs_readKV = readKV"
proof -
  have kv: "(\<lambda>k v m. m(k \<mapsto> v)) = kv_set" by (intro ext) (simp add: kv_set_def)
  show "cs_readKV = readKV" unfolding fun_eq_iff cs_readKV_def readKV_def cs_kv_line kv by (intro allI refl)
qed (simp_all add: fun_eq_iff cs_readUint64_def readUint64_def readStr_def readString_def)

definition cs_of :: "podstats \<Rightarrow> cs_stats" where
  "cs_of ps = \<lparr>cs_Path = ps_CgroupPath ps, cs_MemCurrent = ps_MemoryCurrent ps, cs_MemMax = ps_MemoryMax ps,
     cs_MemHigh = ps_MemoryHigh ps, cs_MemStat = ps_MemoryStat ps, cs_MemEvents = ps_MemoryEvents ps,
     cs_CPUMax = ps_CPUMax ps, cs_CPUWeight = ps_CPUWeight ps, cs_CPUStat = ps_CPUStat ps,
     cs_PidsCurrent = ps_PidsCurrent ps, cs_PidsMax = ps_PidsMax ps\<rparr>"

text \<open>cgroup-stats on the directory that kube-inspect finds for a pod shows kube-inspect's numbers.\<close>

lemma readStats_pod:
  "ReadPodStats sv uid = Inr ps \<Longrightarrow> stat_ok sv (ps_CgroupPath ps) \<Longrightarrow> readStats sv (ps_CgroupPath ps) = Inr (cs_of ps)"
  by (auto simp: ReadPodStats_def readStats_def cs_of_def cs_readers stat_ok_def Let_def split: sum.splits)

definition sl_of :: "schedstat \<Rightarrow> sl_sched" where
  "sl_of p = \<lparr>sl_PID = sc_PID p, sl_Comm = sc_Comm p, sl_RuntimeNS = sc_RuntimeNS p, sl_WaitNS = sc_WaitNS p,
     sl_NrSwitches = sc_NrSwitches p\<rparr>"

definition sl_cpu_of :: "throttlestats \<Rightarrow> sl_cpu" where
  "sl_cpu_of t = \<lparr>sl_UsageUS = ts_UsageUS t, sl_NrPeriods = ts_NrPeriods t, sl_NrThrottled = ts_NrThrottled t,
     sl_ThrottledUS = ts_ThrottledUS t\<rparr>"

lemma sl_proc: "''/proc/'' @ itoa pid @ CHR ''/'' # f = proc_path pid f"
  by (simp add: proc_path_def)

lemma sl_parseSchedStat_of:
  "(case sl_parseSchedStat sv pid of Inl _ \<Rightarrow> None | Inr s \<Rightarrow> Some s)
   = (case parseSchedStat sv pid of Inl _ \<Rightarrow> None | Inr s \<Rightarrow> Some (sl_of s))"
  by (auto simp: sl_parseSchedStat_def parseSchedStat_def sl_of_def proc_path_def Let_def split: sum.splits)

lemma listPodPIDs_podPIDs: "listPodPIDs sv uid = podPIDs sv uid"
proof -
  have "sl_pod_pid sv uid e = pod_pid sv uid e" for e
    by (auto simp: sl_pod_pid_def pod_pid_def Atoi_ok_def proc_path_def split: prod.splits option.splits sum.splits)
  then have "sl_pod_pid sv uid = pod_pid sv uid" by (rule ext)
  then show ?thesis by (simp add: listPodPIDs_def podPIDs_def)
qed

lemma sl_cpu_scan:
  "scan_fold count_line sl_cpu_set (sl_cpu_of t) ls = sl_cpu_of (scan_fold count_line cpu_set t ls)"
proof (induction ls arbitrary: t)
  case (Cons l ls)
  have "sl_cpu_set k v (sl_cpu_of t) = sl_cpu_of (cpu_set k v t)" for k v
    by (simp add: sl_cpu_set_def cpu_set_def sl_cpu_of_def)
  with Cons show ?case by (simp split: option.splits)
qed simp

text \<open>C24. sched-latency-reader and the perf section of kube-inspect agree: when kube-inspect has a
  report, the tool finds the same cgroup, the same throttling counters and ratio, and the same
  processes with the same latency values and wait ratios, in the same order.\<close>

theorem latency_reader_agrees:
  assumes "GetPodPerfReport sv uid = (r, None)"
  shows "sl_findPodCgroup sv uid = Inr (ts_CgPath (pr_Throttle r))
    \<and> sl_parseCPUStat sv (path_Join [ts_CgPath (pr_Throttle r), ''cpu.stat'']) = Inr (sl_cpu_of (pr_Throttle r))
    \<and> sl_ThrottleRatio (sl_cpu_of (pr_Throttle r)) = ThrottleRatio (pr_Throttle r)
    \<and> List.map_filter (\<lambda>pid. case sl_parseSchedStat sv pid of Inl _ \<Rightarrow> None | Inr s \<Rightarrow> Some s) (listPodPIDs sv uid)
        = map sl_of (pr_Processes r)
    \<and> map (sl_WaitRatio \<circ> sl_of) (pr_Processes r) = map WaitRatio (pr_Processes r)"
proof -
  obtain cg where cg: "metrics_findPodCgroup sv uid = Inr cg"
    using assms by (cases "metrics_findPodCgroup sv uid") (auto simp: GetPodPerfReport_def)
  obtain ts where ts: "parseCPUStat sv (path_Join [cg, ''cpu.stat'']) = (ts, None)"
    using assms cg by (auto simp: GetPodPerfReport_def split: prod.splits option.splits)
  from assms cg ts have r: "pr_Throttle r = ts\<lparr>ts_PodUID := uid, ts_CgPath := cg\<rparr>"
    "pr_Processes r = List.map_filter (\<lambda>pid. case parseSchedStat sv pid of Inl _ \<Rightarrow> None | Inr ps \<Rightarrow> Some ps) (podPIDs sv uid)"
    by (auto simp: GetPodPerfReport_def)
  have find: "sl_findPodCgroup sv uid = Inr cg"
    using cg by (simp add: sl_findPodCgroup_def metrics_findPodCgroup_def)
  have zero: "\<lparr>sl_UsageUS = 0, sl_NrPeriods = 0, sl_NrThrottled = 0, sl_ThrottledUS = 0\<rparr> = sl_cpu_of throttle_zero"
    by (simp add: sl_cpu_of_def throttle_zero_def)
  have cpu: "sl_parseCPUStat sv (path_Join [cg, ''cpu.stat'']) = Inr (sl_cpu_of ts)"
    using ts unfolding sl_parseCPUStat_def zero sl_cpu_scan by (auto simp: parseCPUStat_def split: sum.splits)
  have procs: "List.map_filter (\<lambda>pid. case parseSchedStat sv pid of Inl _ \<Rightarrow> None | Inr s \<Rightarrow> Some (sl_of s)) pids
      = map sl_of (List.map_filter (\<lambda>pid. case parseSchedStat sv pid of Inl _ \<Rightarrow> None | Inr s \<Rightarrow> Some s) pids)" for pids
    by (induction pids) (auto simp: List.map_filter_simps split: sum.splits)
  show ?thesis
    unfolding sl_parseSchedStat_of listPodPIDs_podPIDs procs
    using r find cpu
    by (simp add: sl_cpu_of_def sl_ThrottleRatio_def ThrottleRatio_def sl_WaitRatio_def WaitRatio_def sl_of_def comp_def Let_def)
qed

theorem latency_reader_agrees_witness:
  "\<exists>r. GetPodPerfReport demo_slice ''u1'' = (r, None)
    \<and> sl_findPodCgroup demo_slice ''u1'' = Inr (ts_CgPath (pr_Throttle r))"
proof -
  have "snd (GetPodPerfReport demo_slice ''u1'') = None" by code_simp
  then obtain r where r: "GetPodPerfReport demo_slice ''u1'' = (r, None)" by (metis prod.collapse)
  with latency_reader_agrees [OF r] show ?thesis by (intro exI conjI) (assumption, blast)
qed

end
