(* ===== verification/Namespace_Tools.thy ===== *)
theory Namespace_Tools
  imports Proc Go_Fmt "HOL-Library.Multiset"
begin

text \<open>
  Two tools over all processes of \<open>/proc\<close>: \<open>01-process-model/exercises/proc-walker/main.go\<close>
  (names start with \<open>pw\<close>) groups the processes by PID namespace,
  \<open>02-namespaces/exercises/namespace-inspector/main.go\<close> (\<open>nt\<close>) looks for processes that share
  namespaces. Both group by an inode in a Go map and print the groups in the order of the
  inodes; \<open>sort.Slice\<close> by PID is a sort by key, as the PIDs of \<open>/proc\<close> are distinct.
\<close>

subsection \<open>Grouping by a key\<close>

text \<open>\<open>for _, x := range xs { m[key(x)] = append(m[key(x)], x) }\<close>, and the keys in order.\<close>

definition go_group :: "('a \<Rightarrow> 'k) \<Rightarrow> 'a list \<Rightarrow> 'k \<Rightarrow> 'a list" where
  "go_group key xs = fold (\<lambda>x m. m(key x := m (key x) @ [x])) xs (\<lambda>_. [])"

definition sorted_keys :: "('a \<Rightarrow> 'k :: linorder) \<Rightarrow> 'a list \<Rightarrow> 'k list" where
  "sorted_keys key xs = sort (remdups (map key xs))"

lemma go_group_filter: "go_group key xs k = filter (\<lambda>x. key x = k) xs"
proof -
  have "fold (\<lambda>x m. m(key x := m (key x) @ [x])) xs m k = m k @ filter (\<lambda>x. key x = k) xs" for m
    by (induction xs arbitrary: m) auto
  then show ?thesis by (simp add: go_group_def)
qed

lemma sorted_keys_set [simp]: "set (sorted_keys key xs) = key ` set xs"
  by (simp add: sorted_keys_def)

lemma sorted_keys_strict: "sorted_wrt (<) (sorted_keys key xs)"
  by (simp add: sorted_keys_def strict_sorted_iff)

lemma mset_groups:
  assumes "distinct ks" and "key ` set xs \<subseteq> set ks"
  shows "mset (concat (map (\<lambda>k. filter (\<lambda>x. key x = k) xs) ks)) = mset xs"
  using assms
proof (induction ks arbitrary: xs)
  case (Cons k ks)
  let ?ys = "filter (\<lambda>x. key x \<noteq> k) xs"
  have "filter (\<lambda>x. key x = k') xs = filter (\<lambda>x. key x = k') ?ys" if "k' \<in> set ks" for k'
    using that Cons.prems(1) by (induction xs) auto
  then have "map (\<lambda>k'. filter (\<lambda>x. key x = k') xs) ks = map (\<lambda>k'. filter (\<lambda>x. key x = k') ?ys) ks"
    by (intro map_cong) auto
  moreover have "mset (concat (map (\<lambda>k'. filter (\<lambda>x. key x = k') ?ys) ks)) = mset ?ys"
    using Cons.prems by (intro Cons.IH) auto
  ultimately have "mset (concat (map (\<lambda>k'. filter (\<lambda>x. key x = k') xs) ks)) = mset ?ys" by (simp only:)
  then have "mset (concat (map (\<lambda>k. filter (\<lambda>x. key x = k) xs) (k # ks)))
      = mset (filter (\<lambda>x. key x = k) xs) + mset ?ys" by simp
  also have "\<dots> = mset xs" by (simp add: multiset_partition [symmetric])
  finally show ?case .
qed (cases xs, auto)

subsection \<open>proc-walker\<close>

record pw_process =
  pw_PID :: int
  pw_PPID :: int
  pw_Comm :: string
  pw_PidNsID :: uint64

definition pw_readComm :: "sysview \<Rightarrow> int \<Rightarrow> string" where
  "pw_readComm sv pid =
     (case os_ReadFile sv (proc_path pid ''comm'') of Inl err \<Rightarrow> ''?'' | Inr content \<Rightarrow> TrimSpace content)"

definition pw_ppid_line :: "string \<Rightarrow> int option" where
  "pw_ppid_line line =
     (if HasPrefix line ''PPid:'' then
        (let fields = Fields line in if 2 \<le> length fields then Some (Atoi_val (fields ! 1)) else None)
      else None)"

definition pw_readPPID :: "sysview \<Rightarrow> int \<Rightarrow> int" where
  "pw_readPPID sv pid =
     (case os_ReadFile sv (proc_path pid ''status'') of
        Inl err \<Rightarrow> 0
      | Inr content \<Rightarrow>
          (case first_some pw_ppid_line (Split CHR 0x0A content) of None \<Rightarrow> 0 | Some ppid \<Rightarrow> ppid))"

definition pw_nsInode :: "sysview \<Rightarrow> int \<Rightarrow> uint64" where
  "pw_nsInode sv pid = (case sv_stat sv (proc_path pid ''ns/pid'') of Inl err \<Rightarrow> 0 | Inr st \<Rightarrow> fi_ino st)"

definition pw_entry :: "sysview \<Rightarrow> dirent \<Rightarrow> pw_process option" where
  "pw_entry sv e =
     (if \<not> IsDir e then None
      else case Atoi (de_name e) of
        (_, Some err) \<Rightarrow> None
      | (pid, None) \<Rightarrow>
          Some \<lparr>pw_PID = pid, pw_PPID = pw_readPPID sv pid, pw_Comm = pw_readComm sv pid, pw_PidNsID = pw_nsInode sv pid\<rparr>)"

definition listProcesses :: "sysview \<Rightarrow> go_err + pw_process list" where
  "listProcesses sv =
     (case os_ReadDir sv ''/proc'' of
        (_, Some err) \<Rightarrow> Inl err
      | (entries, None) \<Rightarrow> Inr (List.map_filter (pw_entry sv) entries))"

definition pw_groups :: "pw_process list \<Rightarrow> (uint64 \<times> pw_process list) list" where
  "pw_groups procs =
     (let byNS = go_group pw_PidNsID procs in
      map (\<lambda>nsID. (nsID, sort_key pw_PID (byNS nsID))) (sorted_keys pw_PidNsID procs))"

definition pw_print_group :: "uint64 \<Rightarrow> uint64 \<times> pw_process list \<Rightarrow> string list" where
  "pw_print_group hostNS g =
     [[], ''=== PID namespace ns-inode:'' @ fmt_u (fst g) @ (if fst g = hostNS then '' (host)'' else []) @ '' ==='',
      ''  '' @ ljust 8 ''PID'' @ '' '' @ ljust 8 ''PPID'' @ '' COMM''] @
     map (\<lambda>p. ''  '' @ ljust 8 (itoa (pw_PID p)) @ '' '' @ ljust 8 (itoa (pw_PPID p)) @ '' '' @ pw_Comm p) (snd g)"

text \<open>\<open>filepath.Glob(dir + "/*")\<close> with the targets of the links that can be read.\<close>

definition print_links :: "sysview \<Rightarrow> string \<Rightarrow> string list" where
  "print_links sv dir =
     List.map_filter (\<lambda>l. case sv_readlink sv l of
         Inl err \<Rightarrow> None
       | Inr target \<Rightarrow> Some (''  '' @ path_Base l @ '' -> '' @ target)) (Glob_val sv (dir @ ''/*''))"

definition proc_walker :: "sysview \<Rightarrow> int \<Rightarrow> string list \<Rightarrow> out_line list \<times> nat" where
  "proc_walker sv self args =
     (case listProcesses sv of
        Inl err \<Rightarrow> ([ErrOf ''error reading /proc: '' err], 1)
      | Inr procs \<Rightarrow>
          (let groups = pw_groups procs in
           (outs (concat (map (pw_print_group (pw_nsInode sv self)) groups) @
              [[], ''--- Summary ---'', ''Total processes: '' @ utoa (length procs),
               ''Distinct PID namespaces: '' @ utoa (length groups)] @
              (if 1 < length groups
               then [''Non-host namespaces: '' @ utoa (length groups - 1) @ '' (likely containers)''] else []) @
              (case args of
                 [] \<Rightarrow> []
               | a # _ \<Rightarrow>
                   (case Atoi a of
                      (_, Some err) \<Rightarrow> []
                    | (pid, None) \<Rightarrow> [[], ''--- Namespace symlinks for PID '' @ itoa pid @ '' ---''] @
                        print_links sv (proc_path pid ''ns'')))), 0)))"

subsection \<open>namespace-inspector\<close>

record nt_info =
  nt_PID :: int
  nt_Comm :: string
  nt_NS :: "string \<rightharpoonup> uint64"

definition nsTypes :: "string list" where
  "nsTypes = [''cgroup'', ''ipc'', ''mnt'', ''net'', ''pid'', ''pid_for_children'', ''time'', ''time_for_children'', ''user'', ''uts'']"

definition nt_readComm :: "sysview \<Rightarrow> int \<Rightarrow> string" where
  "nt_readComm sv pid =
     (case os_ReadFile sv (proc_path pid ''comm'') of Inl err \<Rightarrow> ''?'' | Inr content \<Rightarrow> TrimSpace content)"

definition nt_nsInode :: "sysview \<Rightarrow> int \<Rightarrow> string \<Rightarrow> uint64" where
  "nt_nsInode sv pid nstype =
     (case sv_stat sv (proc_path pid (''ns/'' @ nstype)) of Inl err \<Rightarrow> 0 | Inr st \<Rightarrow> fi_ino st)"

definition nsSymlink :: "sysview \<Rightarrow> int \<Rightarrow> string \<Rightarrow> string" where
  "nsSymlink sv pid nstype =
     (case sv_readlink sv (proc_path pid (''ns/'' @ nstype)) of Inl err \<Rightarrow> ''?'' | Inr target \<Rightarrow> target)"

definition nt_entry :: "sysview \<Rightarrow> dirent \<Rightarrow> nt_info option" where
  "nt_entry sv e =
     (if \<not> IsDir e then None
      else case Atoi (de_name e) of
        (_, Some err) \<Rightarrow> None
      | (pid, None) \<Rightarrow>
          Some \<lparr>nt_PID = pid, nt_Comm = nt_readComm sv pid,
                nt_NS = fold (\<lambda>t ns. ns(t \<mapsto> nt_nsInode sv pid t)) nsTypes Map.empty\<rparr>)"

definition listAllProcesses :: "sysview \<Rightarrow> nt_info list" where
  "listAllProcesses sv =
     (case os_ReadDir sv ''/proc'' of
        (_, Some err) \<Rightarrow> []
      | (entries, None) \<Rightarrow> List.map_filter (nt_entry sv) entries)"

definition nt_ino :: "string \<Rightarrow> nt_info \<Rightarrow> uint64" where
  "nt_ino t p = (case nt_NS p t of None \<Rightarrow> 0 | Some ino \<Rightarrow> ino)"

definition nt_member :: "nt_info \<Rightarrow> string" where
  "nt_member p = itoa (nt_PID p) @ ''('' @ nt_Comm p @ '')''"

definition shared_types :: "string list" where
  "shared_types = [''net'', ''mnt'', ''pid'', ''ipc'', ''uts'', ''cgroup'']"

definition nt_row :: "string \<Rightarrow> string \<Rightarrow> string \<Rightarrow> string" where
  "nt_row a b c = ''  '' @ ljust 22 a @ ''  '' @ ljust 32 b @ ''  '' @ c"

definition nt_peers :: "nt_info list \<Rightarrow> int \<Rightarrow> string \<Rightarrow> uint64 \<Rightarrow> nt_info list" where
  "nt_peers allProcs pid t targetIno = filter (\<lambda>p. nt_PID p \<noteq> pid \<and> nt_ino t p = targetIno) allProcs"

definition nt_peer_line :: "nt_info list \<Rightarrow> nt_info \<Rightarrow> int \<Rightarrow> string \<Rightarrow> string list" where
  "nt_peer_line allProcs target pid t =
     (let targetIno = nt_ino t target; peers = nt_peers allProcs pid t targetIno in
      if targetIno = 0 \<or> peers = [] then []
      else if length peers \<le> 8 then [''  '' @ ljust 22 t @ ''  '' @ join_with '', '' (map nt_member peers)]
      else [''  '' @ ljust 22 t @ ''  '' @ utoa (length peers) @ '' processes (host namespace)''])"

text \<open>A target that is not found is the zero value, whose PID is 0.\<close>

definition inspectPID :: "sysview \<Rightarrow> int \<Rightarrow> nt_info list \<Rightarrow> string list" where
  "inspectPID sv pid allProcs =
     [''PID '' @ itoa pid @ '' ('' @ nt_readComm sv pid @ '') namespace map:'',
      nt_row ''TYPE'' ''SYMLINK TARGET'' ''INODE'',
      nt_row (replicate 22 CHR ''-'') (replicate 32 CHR ''-'') (replicate 18 CHR ''-'')] @
     map (\<lambda>t. let ino = nt_nsInode sv pid t in nt_row t (nsSymlink sv pid t) (if ino \<noteq> 0 then fmt_u ino else ''-'')) nsTypes @
     (if allProcs = [] then []
      else (case List.find (\<lambda>p. nt_PID p = pid) allProcs of
              None \<Rightarrow> []
            | Some target \<Rightarrow>
                if nt_PID target = 0 then []
                else [[], ''Processes sharing namespaces with PID '' @ itoa pid @ '':''] @
                  concat (map (nt_peer_line allProcs target pid) shared_types)))"

definition nt_groups :: "nt_info list \<Rightarrow> string \<Rightarrow> (uint64 \<times> nt_info list) list" where
  "nt_groups procs t =
     (let live = filter (\<lambda>p. nt_ino t p \<noteq> 0) procs; groups = go_group (nt_ino t) live;
          inodes = filter (\<lambda>ino. 2 \<le> length (groups ino) \<and> length (groups ino) \<le> 8) (sorted_keys (nt_ino t) live) in
      map (\<lambda>ino. (ino, sort_key nt_PID (groups ino))) inodes)"

definition nt_group_line :: "string \<Rightarrow> uint64 \<times> nt_info list \<Rightarrow> string" where
  "nt_group_line t g = ''  '' @ t @ '' inode '' @ ljust 12 (fmt_u (fst g)) @ ''  '' @ join_with '', '' (map nt_member (snd g))"

definition showSharedGroups :: "nt_info list \<Rightarrow> string list" where
  "showSharedGroups procs =
     (let rows = concat (map (\<lambda>t. map (nt_group_line t) (nt_groups procs t)) shared_types) in
      (''Shared namespace groups (2'' @ [CHR 0xE2, CHR 0x80, CHR 0x93] @ ''8 members, likely container groups):'') # rows @
      (if rows = [] then [''  (no container namespace groups found '' @ u_dash @ '' are containers running?)''] else []))"

definition nt_count :: "nt_info list \<Rightarrow> string \<Rightarrow> nat" where
  "nt_count procs t = card (set (filter (\<lambda>ino. ino \<noteq> 0) (map (nt_ino t) procs)))"

definition showNsCounts :: "nt_info list \<Rightarrow> string list" where
  "showNsCounts procs =
     [[], ''Distinct namespace instances per type:''] @
     map (\<lambda>t. ''  '' @ ljust 22 t @ ''  '' @ utoa (nt_count procs t)) (shared_types @ [''user'', ''time''])"

definition namespace_inspector :: "sysview \<Rightarrow> int \<Rightarrow> string list \<Rightarrow> out_line list \<times> nat" where
  "namespace_inspector sv self args =
     (case args of
        a # _ \<Rightarrow>
          (case Atoi a of
             (_, Some err) \<Rightarrow> ([bad_arg ''invalid PID %q'' a], 1)
           | (pid, None) \<Rightarrow> (outs (inspectPID sv pid (listAllProcesses sv)), 0))
      | [] \<Rightarrow>
          (let procs = listAllProcesses sv in
           (outs ([''Scanned '' @ utoa (length procs) @ '' processes from /proc'', []] @
              showSharedGroups procs @ showNsCounts procs @
              [[], ''Your shell's namespace map:''] @ inspectPID sv self [] @
              [[], ''/proc/self/ns/ contents:''] @ print_links sv ''/proc/self/ns''), 0)))"

subsection \<open>Properties\<close>

lemma sort_key_groups:
  "mset (concat (map (\<lambda>k. sort_key f (g k)) ks)) = mset (concat (map g ks))"
  by (induction ks) simp_all

lemma strict_distinct: "sorted_wrt (<) (xs :: 'a :: linorder list) \<Longrightarrow> distinct xs"
  by (simp add: strict_sorted_iff)

text \<open>C29. The groups of proc-walker partition the processes: together they are the processes that
  were listed, each once; their namespaces are strictly increasing; every group is non-empty, holds
  exactly the processes of its namespace, and is sorted by PID.\<close>

theorem pw_groups_partition:
  "mset (concat (map snd (pw_groups procs))) = mset procs
   \<and> sorted_wrt (<) (map fst (pw_groups procs))
   \<and> list_all (\<lambda>g. snd g \<noteq> [] \<and> sorted (map pw_PID (snd g))
        \<and> mset (snd g) = filter_mset (\<lambda>p. pw_PidNsID p = fst g) (mset procs)) (pw_groups procs)"
  unfolding list_all_iff
proof (intro conjI ballI)
  let ?ks = "sorted_keys pw_PidNsID procs"
  have "mset (concat (map (\<lambda>k. filter (\<lambda>p. pw_PidNsID p = k) procs) ?ks)) = mset procs"
    by (rule mset_groups) (use sorted_keys_strict strict_distinct in auto)
  then show "mset (concat (map snd (pw_groups procs))) = mset procs"
    by (simp add: pw_groups_def Let_def comp_def sort_key_groups go_group_filter)
  show "sorted_wrt (<) (map fst (pw_groups procs))"
    using sorted_keys_strict [of pw_PidNsID procs] by (simp add: pw_groups_def Let_def comp_def)
next
  fix g assume "g \<in> set (pw_groups procs)"
  then obtain p where p: "p \<in> set procs"
    and g: "g = (pw_PidNsID p, sort_key pw_PID (filter (\<lambda>q. pw_PidNsID q = pw_PidNsID p) procs))"
    by (auto simp: pw_groups_def Let_def go_group_filter)
  then have "p \<in> set (snd g)" by simp
  then show "snd g \<noteq> []" by auto
  show "sorted (map pw_PID (snd g))" "mset (snd g) = filter_mset (\<lambda>p. pw_PidNsID p = fst g) (mset procs)"
    using g by simp_all
qed

text \<open>
  A namespace file that cannot be read has inode 0, and these processes form a group of their
  own, which the summary counts as a namespace.
\<close>

lemma pw_groups_unreadable:
  "\<exists>p \<in> set procs. pw_PidNsID p = 0 \<Longrightarrow> 0 \<in> fst ` set (pw_groups procs)"
  by (force simp: pw_groups_def Let_def)

text \<open>The groups of namespace-inspector: the readable inodes with two to eight processes.\<close>

lemma nt_groups_iff:
  "(ino, ms) \<in> set (nt_groups procs t) \<longleftrightarrow>
     ino \<noteq> 0 \<and> ms = sort_key nt_PID (filter (\<lambda>p. nt_ino t p = ino) procs) \<and> length ms \<in> {2..8}"
proof -
  have f: "ino \<noteq> 0 \<Longrightarrow> filter (\<lambda>p. nt_ino t p = ino) (filter (\<lambda>p. nt_ino t p \<noteq> 0) procs) = filter (\<lambda>p. nt_ino t p = ino) procs"
    by (induction procs) auto
  have k: "2 \<le> length (filter (\<lambda>p. nt_ino t p = ino) procs) \<Longrightarrow> \<exists>p \<in> set procs. nt_ino t p = ino"
    using filter_False [of procs "\<lambda>p. nt_ino t p = ino"] by fastforce
  show ?thesis
  proof (cases "ino = 0")
    case True
    then show ?thesis by (auto simp: nt_groups_def Let_def go_group_filter)
  next
    case False
    have "(ino, ms) \<in> (\<lambda>i. (i, F i)) ` A \<longleftrightarrow> ino \<in> A \<and> ms = F ino" for F A by auto
    then show ?thesis using False f k by (auto simp: nt_groups_def Let_def go_group_filter)
  qed
qed

end
