(* ===== verification/Netns_Inspector.thy ===== *)
theory Netns_Inspector
  imports Netns Go_Fmt
begin

text \<open>
  \<open>06-network/exercises/netns-inspector/main.go\<close> (names start with \<open>nn\<close>): the interface
  counters of one process, once or every two seconds as rates. Its parser rejects a line with
  a bad counter, where the package \<open>netns\<close> of kube-inspect reads 0.
\<close>

subsection \<open>Parsing\<close>

type_synonym nn_iface = netinterface

definition nn_parse :: "string \<Rightarrow> go_err + uint64" where
  "nn_parse s =
     (case ParseUint s 10 of
        (v, None) \<Rightarrow> Inr v
      | (_, Some err) \<Rightarrow> Inl (Errorf ''parsing %q: %w'' [s] (Some err)))"

text \<open>The values of calls in order, or the first error.\<close>

fun all_ok :: "(go_err + 'a) list \<Rightarrow> go_err + 'a list" where
  "all_ok [] = Inr []"
| "all_ok (Inl err # rs) = Inl err"
| "all_ok (Inr v # rs) = (case all_ok rs of Inl err \<Rightarrow> Inl err | Inr vs \<Rightarrow> Inr (v # vs))"

definition parseNetDevLine :: "string \<Rightarrow> go_err + nn_iface" where
  "parseNetDevLine line =
     (case Index line '':'' of
        None \<Rightarrow> Inl (Errorf ''no ':' found in net/dev line: %q'' [line] None)
      | Some colonIdx \<Rightarrow>
          (let name = TrimSpace (take colonIdx line); rest = TrimSpace (drop (colonIdx + 1) line); fields = Fields rest in
           if length fields < 16
           then Inl (Errorf ''net/dev line for %q has %d fields, want >= 16'' [name, utoa (length fields)] None)
           else (case all_ok (map (\<lambda>i. nn_parse (fields ! i)) [0, 1, 2, 3, 8, 9, 10, 11]) of
               Inl err \<Rightarrow> Inl err
             | Inr v \<Rightarrow>
                 Inr \<lparr>nif_Name = name, nif_RxBytes = v ! 0, nif_RxPackets = v ! 1, nif_RxErrors = v ! 2, nif_RxDropped = v ! 3,
                   nif_TxBytes = v ! 4, nif_TxPackets = v ! 5, nif_TxErrors = v ! 6, nif_TxDropped = v ! 7\<rparr>)))"

definition nn_line :: "string \<Rightarrow> out_line list \<times> nn_iface list" where
  "nn_line text =
     (let line = TrimSpace text in
      if line = [] then ([], [])
      else (case parseNetDevLine line of
              Inl err \<Rightarrow> ([ErrOf ''warning: skipping line: '' err], [])
            | Inr iface \<Rightarrow> ([], [iface])))"

definition nn_readNetDev :: "sysview \<Rightarrow> int \<Rightarrow> out_line list \<times> (go_err + nn_iface list)" where
  "nn_readNetDev sv pid =
     (let path = ''/proc/'' @ itoa pid @ ''/net/dev'' in
      case sv_open sv path of
        Inl err \<Rightarrow> ([], Inl (Errorf ''opening %s: %w'' [path] (Some err)))
      | Inr f \<Rightarrow>
          (let (ls, err) = scan_file f; rs = map nn_line (drop 2 ls) in
           (concat (map fst rs), (case err of Some e \<Rightarrow> Inl e | None \<Rightarrow> Inr (concat (map snd rs))))))"

subsection \<open>Tables\<close>

definition nn_row :: "string \<Rightarrow> string list \<Rightarrow> string" where
  "nn_row name cols = ''  '' @ ljust 12 name
     @ concat (map (\<lambda>(w, c). ''  '' @ rjust w c) (zip [12, 10, 8, 8, 12, 10, 8, 8] cols))"

definition nn_printTable :: "int \<Rightarrow> nn_iface list \<Rightarrow> out_line list" where
  "nn_printTable pid ifaces = outs
     ([''Network interfaces for PID '' @ itoa pid @ '':'',
       nn_row ''IFACE'' [''RX-BYTES'', ''RX-PKTS'', ''RX-ERR'', ''RX-DROP'', ''TX-BYTES'', ''TX-PKTS'', ''TX-ERR'', ''TX-DROP'']] @
      map (\<lambda>i. nn_row (nif_Name i) (map fmt_u [nif_RxBytes i, nif_RxPackets i, nif_RxErrors i, nif_RxDropped i,
         nif_TxBytes i, nif_TxPackets i, nif_TxErrors i, nif_TxDropped i])) ifaces)"

text \<open>\<open>Duration.Seconds\<close>: the whole seconds and the rest, added as doubles.\<close>

definition dur_seconds :: "nat \<Rightarrow> f64" where
  "dur_seconds d = f64_round False (of_nat (d div 10 ^ 9) + rnd (of_nat (d mod 10 ^ 9) / 10 ^ 9))"

definition nn_zero :: nn_iface where
  "nn_zero = \<lparr>nif_Name = [], nif_RxBytes = 0, nif_RxPackets = 0, nif_RxErrors = 0, nif_RxDropped = 0,
     nif_TxBytes = 0, nif_TxPackets = 0, nif_TxErrors = 0, nif_TxDropped = 0\<rparr>"

text \<open>The interface of the previous snapshot, by name; the last one with the name counts.\<close>

definition nn_prev :: "nn_iface list \<Rightarrow> string \<Rightarrow> nn_iface" where
  "nn_prev prev name =
     (case fold (\<lambda>iface m. m(nif_Name iface \<mapsto> iface)) prev Map.empty name of Some p \<Rightarrow> p | None \<Rightarrow> nn_zero)"

text \<open>The differences are those of \<open>uint64\<close>: they wrap around.\<close>

definition nn_rate :: "f64 \<Rightarrow> uint64 \<Rightarrow> uint64 \<Rightarrow> f64" where
  "nn_rate secs c p = f64_div (f64_of_uint64 (c - p)) secs"

definition nn_delta_row :: "string \<Rightarrow> string list \<Rightarrow> string" where
  "nn_delta_row name cols = ''  '' @ ljust 12 name
     @ concat (map (\<lambda>(w, c). ''  '' @ rjust w c) (zip [14, 12, 14, 12] cols))"

definition printDeltaTable :: "int \<Rightarrow> nn_iface list \<Rightarrow> nn_iface list \<Rightarrow> nat \<Rightarrow> out_line list" where
  "printDeltaTable pid prev cur elapsed =
     (let secs = (if f64_gt (dur_seconds elapsed) 0 then dur_seconds elapsed else FFin False 1) in outs
       ([[], ''Network interface rates for PID '' @ itoa pid @ '' (per second, interval '' @ fmt_f 1 secs @ ''s):'',
         nn_delta_row ''IFACE'' [''RX-BYTES/s'', ''RX-PKTS/s'', ''TX-BYTES/s'', ''TX-PKTS/s'']] @
        map (\<lambda>c. let p = nn_prev prev (nif_Name c) in
          nn_delta_row (nif_Name c) (map (fmt_f 1) [nn_rate secs (nif_RxBytes c) (nif_RxBytes p),
            nn_rate secs (nif_RxPackets c) (nif_RxPackets p), nn_rate secs (nif_TxBytes c) (nif_TxBytes p),
            nn_rate secs (nif_TxPackets c) (nif_TxPackets p)])) cur))"

subsection \<open>main\<close>

definition nn_usage :: "out_line list" where
  "nn_usage = errs
     [''usage: netns-inspector'', ''       netns-inspector --pid <pid>'', ''       netns-inspector --pid <pid> --watch'', [],
      ''examples:'',
      ''  netns-inspector                # current process network namespace'',
      ''  netns-inspector --pid 1        # PID 1 (init/systemd) network namespace'',
      ''  netns-inspector --pid 1 --watch  # refresh every 2s with delta rates'']"

fun nn_args :: "string list \<Rightarrow> int \<times> bool \<Rightarrow> (out_line list \<times> nat) + (int \<times> bool)" where
  "nn_args [] st = Inr st"
| "nn_args (a # args) (pid, watch) =
     (if a = ''--pid'' then
        (case args of
           [] \<Rightarrow> Inl (errs [''error: --pid requires an argument''], 1)
         | v # args' \<Rightarrow>
             (case Atoi v of
                (_, Some err) \<Rightarrow> Inl ([bad_arg ''invalid PID %q'' v], 1)
              | (n, None) \<Rightarrow> nn_args args' (n, watch)))
      else if a = ''--watch'' then nn_args args (pid, True)
      else if a = ''--help'' \<or> a = ''-h'' then Inl (nn_usage, 0)
      else Inl (bad_arg ''unknown flag %q'' a # nn_usage, 1))"

text \<open>
  The endless loop of the watch mode, over the views that the system shows at the wake-ups,
  each with the nanoseconds since the sample before: the outputs so far, and the exit code
  if a read failed. \<open>None\<close> is a loop that still runs.
\<close>

fun nn_watch :: "int \<Rightarrow> nn_iface list \<Rightarrow> (sysview \<times> nat) list \<Rightarrow> out_line list \<times> nat option" where
  "nn_watch pid prev [] = ([], None)"
| "nn_watch pid prev ((sv, elapsed) # samples) =
     (case nn_readNetDev sv pid of
        (warnings, Inl err) \<Rightarrow> (warnings @ [ErrOf ''error: '' err], Some 1)
      | (warnings, Inr cur) \<Rightarrow>
          (let (ls, code) = nn_watch pid cur samples in
           (warnings @ printDeltaTable pid prev cur elapsed @ ls, code)))"

definition netns_inspector :: "sysview \<Rightarrow> (sysview \<times> nat) list \<Rightarrow> int \<Rightarrow> string list \<Rightarrow> out_line list \<times> nat option" where
  "netns_inspector sv samples self args =
     (case nn_args args (self, False) of
        Inl (ls, code) \<Rightarrow> (ls, Some code)
      | Inr (pid, watch) \<Rightarrow>
          (case nn_readNetDev sv pid of
             (warnings, Inl err) \<Rightarrow> (warnings @ [ErrOf ''error: '' err], Some 1)
           | (warnings, Inr ifaces) \<Rightarrow>
               if \<not> watch then (warnings @ nn_printTable pid ifaces, Some 0)
               else (let (ls, code) = nn_watch pid ifaces samples in (warnings @ nn_printTable pid ifaces @ ls, code))))"

subsection \<open>Two parsers of net/dev\<close>

lemma all_ok_map: "all_ok (map Inr vs) = Inr vs"
  by (induction vs) simp_all

lemma all_ok_Inr: "all_ok rs = Inr vs \<longleftrightarrow> rs = map Inr vs"
proof
  show "all_ok rs = Inr vs \<Longrightarrow> rs = map Inr vs"
    by (induction rs arbitrary: vs rule: all_ok.induct) (auto split: sum.splits)
qed (simp add: all_ok_map)

lemma nn_parse_Inr: "nn_parse s = Inr v \<longleftrightarrow> ParseUint s 10 = (v, None)"
  by (auto simp: nn_parse_def split: prod.splits option.splits)

lemma parseNetDevLine_netdev:
  assumes "parseNetDevLine line = Inr i"
  shows "netdev_line line = Some i"
proof -
  obtain idx where idx: "Index line '':'' = Some idx"
    using assms by (cases "Index line '':''") (auto simp: parseNetDevLine_def)
  let ?f = "Fields (TrimSpace (drop (idx + 1) line))"
  from assms idx obtain v where v: "map (\<lambda>i. nn_parse (?f ! i)) [0, 1, 2, 3, 8, 9, 10, 11] = map Inr v"
    and len: "\<not> length ?f < 16" and i: "i = \<lparr>nif_Name = TrimSpace (take idx line), nif_RxBytes = v ! 0, nif_RxPackets = v ! 1,
      nif_RxErrors = v ! 2, nif_RxDropped = v ! 3, nif_TxBytes = v ! 4, nif_TxPackets = v ! 5, nif_TxErrors = v ! 6,
      nif_TxDropped = v ! 7\<rparr>"
    unfolding parseNetDevLine_def Let_def by (auto simp del: list.map simp: all_ok_Inr split: if_splits sum.splits)
  obtain a b c d e f g h where vs: "v = [a, b, c, d, e, f, g, h]"
    using v by (auto simp: map_eq_Cons_conv Cons_eq_map_conv)
  from v have "\<forall>(j, w) \<in> set (zip [0, 1, 2, 3, 8, 9, 10, 11] v). ParseUint_val (?f ! j) 10 = w"
    unfolding vs by (simp add: nn_parse_Inr)
  then show ?thesis using idx len i unfolding vs by (simp add: netdev_line_def)
qed

lemma parseNetDevLine_row:
  assumes "netrow_ok r"
  shows "parseNetDevLine (nr_name r @ CHR '':'' # padded (map (\<lambda>(p, v). (p, utoa (unat v))) (nr_cols r))) = Inr (iface_of r)"
proof -
  let ?cols = "map (\<lambda>(p, v). (p, utoa (unat v))) (nr_cols r)"
  let ?row = "nr_name r @ CHR '':'' # padded ?cols"
  have name: "token (nr_name r)" "CHR '':'' \<notin> set (nr_name r)" "length (nr_cols r) = 16"
    using assms by (simp_all add: netrow_ok_def)
  have idx: "Index ?row '':'' = Some (length (nr_name r))" using name(2) by (rule Index_colon)
  have f: "Fields (TrimSpace (drop (length (nr_name r) + 1) ?row)) = map (\<lambda>(p, v). utoa (unat v)) (nr_cols r)"
    using Fields_TrimSpace_padded [of ?cols] by (auto simp: comp_def split_beta)
  have "TrimSpace (nr_name r) = nr_name r" using name(1) by (simp add: TrimSpace_no_space token_def)
  moreover have "all_ok (map (\<lambda>i. nn_parse (map (\<lambda>(p, v). utoa (unat v)) (nr_cols r) ! i)) [0, 1, 2, 3, 8, 9, 10, 11])
      = Inr (map (\<lambda>i. snd (nr_cols r ! i)) [0, 1, 2, 3, 8, 9, 10, 11])"
    unfolding all_ok_Inr using name(3) by (simp add: nn_parse_def split_beta)
  ultimately show ?thesis
    unfolding parseNetDevLine_def idx option.case Let_def f
    using name(3) by (simp add: iface_of_def Let_def del: list.map)
qed

text \<open>A colon is no part of a white-space character.\<close>

lemma strip_space_colon: "strip_space s = None \<Longrightarrow> s \<noteq> [] \<Longrightarrow> strip_space (s @ CHR '':'' # t) = None"
  by (cases s) (auto simp: strip_space.simps space2_def space3_def split: if_splits list.splits)

lemma strip_rev_colon: "strip_space_rev (CHR '':'' # t) = None"
  by (auto simp: strip_space_rev.simps space2_def space3_def ascii_space_def split: list.splits)

lemma nn_line_show:
  assumes "netrow_ok r"
  shows "nn_line (show_netrow r) = ([], [iface_of r])"
proof -
  let ?cols = "map (\<lambda>(p, v). (p, utoa (unat v))) (nr_cols r)"
  let ?row = "nr_name r @ CHR '':'' # padded ?cols"
  have "token (nr_name r)" using assms by (simp add: netrow_ok_def)
  then have "strip_space ?row = None" by (intro strip_space_colon) (auto simp: token_def no_space_strip)
  moreover have "strip_space_rev (rev ((nr_name r @ '':'') @ padded ?cols)) = None"
    by (rule strip_rev_padded) (auto simp: strip_rev_colon)
  ultimately have "TrimSpace ?row = ?row" by (intro TrimSpace_stable) simp_all
  then have "TrimSpace (show_netrow r) = ?row" by (simp add: show_netrow_def TrimSpace_blanks)
  then show ?thesis using parseNetDevLine_row [OF assms] by (simp add: nn_line_def)
qed

text \<open>C25. netns-inspector and the netns package of kube-inspect agree: on the net/dev file of the
  kernel both return the same interfaces and the tool warns of nothing, and every single line
  that the stricter parser of the tool accepts is read the same way by kube-inspect.\<close>

theorem netns_readers_agree:
  assumes "sv_open sv (proc_path pid ''net/dev'') = Inr (netdev_file h1 h2 rows, None)"
    and "line_ok h1" and "line_ok h2" and "list_all netrow_ok rows"
  shows "nn_readNetDev sv pid = ([], readNetDev sv pid)
    \<and> (\<forall>line i. parseNetDevLine line = Inr i \<longrightarrow> netdev_line line = Some i)"
proof
  have scan: "scan_file (netdev_file h1 h2 rows, None) = (h1 # h2 # map show_netrow rows, None)"
    unfolding netdev_file_def
    by (rule scan_unlines) (use assms in \<open>auto simp: list_all_iff netrow_ok_def\<close>)
  have kube: "List.map_filter netdev_line (map show_netrow rows) = map iface_of rows"
    using assms(4) by (induction rows) (auto simp: netdev_line_show)
  have tool: "map (nn_line \<circ> show_netrow) rows = map (\<lambda>r. ([], [iface_of r])) rows"
    using assms(4) by (induction rows) (auto simp: nn_line_show)
  then have tool: "map nn_line (drop 2 (h1 # h2 # map show_netrow rows)) = map (\<lambda>r. ([], [iface_of r])) rows"
    by (simp del: map_eq_conv)
  have "sv_open sv (''/proc/'' @ itoa pid @ ''/net/dev'') = Inr (netdev_file h1 h2 rows, None)"
    using assms(1) by (simp add: proc_path_def)
  then have "nn_readNetDev sv pid = ([], Inr (map iface_of rows))"
    unfolding nn_readNetDev_def Let_def by (simp only: sum.case scan prod.case tool option.case) (simp add: comp_def)
  moreover have "readNetDev sv pid = Inr (map iface_of rows)"
    using assms(1) scan kube by (simp add: readNetDev_def)
  ultimately show "nn_readNetDev sv pid = ([], readNetDev sv pid)" by simp
qed (use parseNetDevLine_netdev in blast)

theorem netns_readers_agree_witness:
  "nn_readNetDev demo_netdev 7 = ([], readNetDev demo_netdev 7)"
proof -
  have "line_ok ''Inter-|   Receive''" "line_ok '' face |bytes''" "list_all netrow_ok [demo_row]" by code_simp+
  from netns_readers_agree [OF demo_netdev_open this] show ?thesis by (rule conjunct1)
qed

text \<open>Rates of counters that do not go back are those of the difference; one step back is 2^64 - 1.\<close>

lemma nn_rate_mono:
  "unat p \<le> unat c \<Longrightarrow> nn_rate secs c p = f64_div (f64_of_uint64 (of_nat (unat c - unat p))) secs"
proof -
  assume "unat p \<le> unat c"
  then have "unat (c - p) = unat c - unat p" by (simp add: unat_sub word_le_nat_alt)
  moreover have "of_nat (unat (c - p)) = c - p" by simp
  ultimately have "c - p = of_nat (unat c - unat p)" by simp
  then show ?thesis by (simp add: nn_rate_def)
qed

lemma nn_rate_back: "nn_rate secs c (c + 1) = f64_div (f64_of_uint64 (- 1)) secs"
  by (simp add: nn_rate_def)

end
