(* ===== verification/Bpf_Fdinfo.thy ===== *)
theory Bpf_Fdinfo
  imports Ebpf Go_Fmt
begin

text \<open>
  \<open>07-ebpf/exercises/bpf-fdinfo-reader/main.go\<close>: the BPF programs and maps behind the open
  descriptors of one process, with the raw lines of their fdinfo when asked for. Names that
  clash with the package \<open>ebpf\<close> of kube-inspect start with \<open>fx\<close>. The tool reads whole files
  where the package scans lines; both find the same objects.
\<close>

subsection \<open>Data\<close>

record fx_prog =
  fx_FD :: int
  fx_ProgType :: int
  fx_ProgID :: int
  fx_Tag :: string
  fx_Jited :: bool

record fx_map =
  fm_FD :: int
  fm_MapType :: int
  fm_MapID :: int
  fm_KeySize :: int
  fm_ValueSize :: int
  fm_MaxEntries :: int

definition fx_progTypeName :: "(int \<times> string) list" where
  "fx_progTypeName = [
     (0, ''UNSPEC''), (1, ''SOCKET_FILTER''), (2, ''KPROBE''), (3, ''SCHED_CLS''), (4, ''SCHED_ACT''),
     (5, ''TRACEPOINT''), (6, ''XDP''), (7, ''PERF_EVENT''), (8, ''CGROUP_SKB''), (9, ''CGROUP_SOCK''),
     (10, ''LWT_IN''), (11, ''LWT_OUT''), (12, ''LWT_XMIT''), (13, ''SOCK_OPS''), (14, ''SK_SKB''),
     (15, ''CGROUP_DEVICE''), (16, ''SK_MSG''), (17, ''RAW_TRACEPOINT''), (18, ''CGROUP_SOCK_ADDR''),
     (19, ''LWT_SEG6LOCAL''), (20, ''LIRC_MODE2''), (21, ''SK_REUSEPORT''), (22, ''FLOW_DISSECTOR''),
     (23, ''CGROUP_SYSCTL''), (24, ''RAW_TRACEPOINT_WRITABLE''), (25, ''CGROUP_SOCKOPT''),
     (26, ''TRACING''), (27, ''STRUCT_OPS''), (28, ''EXT''), (29, ''LSM''), (30, ''SK_LOOKUP''),
     (31, ''SYSCALL'')]"

definition fx_mapTypeName :: "(int \<times> string) list" where
  "fx_mapTypeName = [
     (0, ''UNSPEC''), (1, ''HASH''), (2, ''ARRAY''), (3, ''PROG_ARRAY''), (4, ''PERF_EVENT_ARRAY''),
     (5, ''PERCPU_HASH''), (6, ''PERCPU_ARRAY''), (7, ''STACK_TRACE''), (8, ''CGROUP_ARRAY''),
     (9, ''LRU_HASH''), (10, ''LRU_PERCPU_HASH''), (11, ''LPM_TRIE''), (12, ''ARRAY_OF_MAPS''),
     (13, ''HASH_OF_MAPS''), (14, ''DEVMAP''), (15, ''SOCKMAP''), (16, ''CPUMAP''), (17, ''XSKMAP''),
     (18, ''SOCKHASH''), (19, ''CGROUP_STORAGE''), (20, ''REUSEPORT_SOCKARRAY''),
     (21, ''PERCPU_CGROUP_STORAGE''), (22, ''QUEUE''), (23, ''STACK''), (24, ''SK_STORAGE''),
     (25, ''DEVMAP_HASH''), (26, ''STRUCT_OPS''), (27, ''RINGBUF''), (28, ''INODE_STORAGE''),
     (29, ''TASK_STORAGE''), (30, ''BLOOM_FILTER''), (31, ''USER_RINGBUF''),
     (32, ''CGROUP_STORAGE_PERCPU'')]"

definition progTypeLookup :: "int \<Rightarrow> string" where
  "progTypeLookup t = (case map_of fx_progTypeName t of Some name \<Rightarrow> name | None \<Rightarrow> ''UNKNOWN'')"

definition mapTypeLookup :: "int \<Rightarrow> string" where
  "mapTypeLookup t = (case map_of fx_mapTypeName t of Some name \<Rightarrow> name | None \<Rightarrow> ''UNKNOWN'')"

subsection \<open>One descriptor\<close>

text \<open>The map of the lines with a colon, and all lines that are not empty.\<close>

definition fx_fields :: "string \<Rightarrow> (string \<rightharpoonup> string)" where
  "fx_fields content =
     scan_fold (\<lambda>line. if line = [] then None else colon_line line) str_set Map.empty (Split CHR 0x0A content)"

definition fx_rawLines :: "string \<Rightarrow> string list" where
  "fx_rawLines content = filter (\<lambda>line. line \<noteq> []) (Split CHR 0x0A content)"

definition fx_parseFDInfo :: "sysview \<Rightarrow> string \<Rightarrow> go_err + ((string \<rightharpoonup> string) \<times> string list)" where
  "fx_parseFDInfo sv path =
     (case os_ReadFile sv path of
        Inl err \<Rightarrow> Inl err
      | Inr content \<Rightarrow> Inr (fx_fields content, fx_rawLines content))"

definition fx_parseInt :: "(string \<rightharpoonup> string) \<Rightarrow> string \<Rightarrow> int" where
  "fx_parseInt flds key =
     (case flds key of
        None \<Rightarrow> 0
      | Some s \<Rightarrow> (case Atoi s of (v, None) \<Rightarrow> v | (v, Some err) \<Rightarrow> 0))"

datatype fx_obj = FxProg fx_prog | FxMap fx_map

definition fx_classify :: "int \<Rightarrow> (string \<rightharpoonup> string) \<Rightarrow> fx_obj option" where
  "fx_classify fd flds =
     (if flds ''prog_type'' \<noteq> None then
        Some (FxProg \<lparr>fx_FD = fd, fx_ProgType = fx_parseInt flds ''prog_type'', fx_ProgID = fx_parseInt flds ''prog_id'',
          fx_Tag = (case flds ''prog_tag'' of None \<Rightarrow> [] | Some t \<Rightarrow> t), fx_Jited = (fx_parseInt flds ''prog_jited'' \<noteq> 0)\<rparr>)
      else if flds ''map_type'' \<noteq> None then
        Some (FxMap \<lparr>fm_FD = fd, fm_MapType = fx_parseInt flds ''map_type'', fm_MapID = fx_parseInt flds ''map_id'',
          fm_KeySize = fx_parseInt flds ''key_size'', fm_ValueSize = fx_parseInt flds ''value_size'',
          fm_MaxEntries = fx_parseInt flds ''max_entries''\<rparr>)
      else None)"

text \<open>
  The body of the loop for one name: what it prints, and the object it appends. The target of
  the symbolic link is read and thrown away.
\<close>

definition fx_entry :: "sysview \<Rightarrow> int \<Rightarrow> bool \<Rightarrow> string \<Rightarrow> string list \<times> fx_obj option" where
  "fx_entry sv pid verbose fdStr =
     (case Atoi fdStr of
        (_, Some err) \<Rightarrow> ([], None)
      | (fd, None) \<Rightarrow>
          (case fx_parseFDInfo sv (''/proc/'' @ itoa pid @ ''/fdinfo/'' @ fdStr) of
             Inl err \<Rightarrow> ([], None)
           | Inr (flds, rawLines) \<Rightarrow>
               (if verbose then (''  --- fdinfo for fd='' @ itoa fd @ '' ---'') # map (\<lambda>l. ''    '' @ l) rawLines else [],
                fx_classify fd flds)))"

definition fx_the_prog :: "fx_obj \<Rightarrow> fx_prog option" where
  "fx_the_prog x = (case x of FxProg p \<Rightarrow> Some p | FxMap _ \<Rightarrow> None)"

definition fx_the_map :: "fx_obj \<Rightarrow> fx_map option" where
  "fx_the_map x = (case x of FxProg _ \<Rightarrow> None | FxMap m \<Rightarrow> Some m)"

definition scanBPFFDs :: "sysview \<Rightarrow> int \<Rightarrow> bool \<Rightarrow> string list \<times> (go_err + fx_prog list \<times> fx_map list)" where
  "scanBPFFDs sv pid verbose =
     (let fdDir = ''/proc/'' @ itoa pid @ ''/fd'' in
      case os_ReadDir sv fdDir of
        (_, Some err) \<Rightarrow> ([], Inl (Errorf ''cannot read %s: %w'' [fdDir] (Some err)))
      | (entries, None) \<Rightarrow>
          (let rs = map (\<lambda>e. fx_entry sv pid verbose (de_name e)) entries; objs = List.map_filter snd rs in
           (concat (map fst rs), Inr (List.map_filter fx_the_prog objs, List.map_filter fx_the_map objs))))"

subsection \<open>The report\<close>

definition fx_prog_row :: "fx_prog \<Rightarrow> string" where
  "fx_prog_row p =
     ''  fd='' @ ljust 4 (itoa (fx_FD p)) @ '' prog_type='' @ ljust 2 (itoa (fx_ProgType p))
       @ '' ('' @ progTypeLookup (fx_ProgType p) @ '')  prog_id='' @ ljust 6 (itoa (fx_ProgID p))
       @ '' tag='' @ ljust 16 (fx_Tag p) @ ''  jited='' @ fmt_bool (fx_Jited p)"

definition fx_map_row :: "fx_map \<Rightarrow> string" where
  "fx_map_row m =
     ''  fd='' @ ljust 4 (itoa (fm_FD m)) @ '' map_type='' @ ljust 2 (itoa (fm_MapType m))
       @ '' ('' @ mapTypeLookup (fm_MapType m) @ '')  map_id='' @ ljust 6 (itoa (fm_MapID m))
       @ '' key_size='' @ ljust 4 (itoa (fm_KeySize m)) @ '' value_size='' @ ljust 4 (itoa (fm_ValueSize m))
       @ '' max_entries='' @ itoa (fm_MaxEntries m)"

text \<open>\<open>flag.Usage\<close> prints the name of the program and the two flags.\<close>

definition fx_usage :: "string \<Rightarrow> out_line list" where
  "fx_usage prog_name = errs
     [''Usage of '' @ prog_name @ '':'', ''  -pid int'', ''    '' @ [CHR 0x09] @ ''PID to inspect (required)'',
      ''  -verbose'', ''    '' @ [CHR 0x09] @ ''print raw fdinfo lines alongside parsed output'']"

text \<open>The program from the values of its flags.\<close>

definition bpf_fdinfo_reader :: "sysview \<Rightarrow> string \<Rightarrow> int \<Rightarrow> bool \<Rightarrow> out_line list \<times> nat" where
  "bpf_fdinfo_reader sv prog_name pid verbose =
     (if pid = 0 then (ErrLine ''error: --pid is required'' # fx_usage prog_name, 1)
      else
        let (raw, res) = scanBPFFDs sv pid verbose; shown = Out (''BPF objects for PID '' @ itoa pid @ '':'') # outs raw in
        case res of
          Inl err \<Rightarrow> (shown @ [ErrOf ''error: '' err], 1)
        | Inr (progs, maps) \<Rightarrow>
            (shown @ outs
               ([[], ''Programs:''] @ (if progs = [] then [''  (none)''] else map fx_prog_row progs) @
                [[], ''Maps:''] @ (if maps = [] then [''  (none)''] else map fx_map_row maps)), 0))"

subsection \<open>Both readers of an fdinfo file find the same fields\<close>

lemma trim_left_snoc:
  "ascii_space x \<Longrightarrow> trim_left (s @ [x]) = (if trim_left s = [] then [] else trim_left s @ [x])"
proof (induction s rule: trim_left.induct)
  case (1 s)
  show ?case
  proof (cases "strip_space s")
    case None
    show ?thesis
    proof (cases "s = []")
      case True
      with 1 show ?thesis by (simp add: trim_left.simps [of "[x]"] trim_left.simps [of "[]"])
    next
      case False
      with None 1 have "strip_space (s @ [x]) = None" by (intro strip_space_before_space)
      with None False show ?thesis by (simp add: trim_left.simps [of s] trim_left.simps [of "s @ [x]"])
    qed
  next
    case (Some r)
    with 1 show ?thesis
      by (simp add: trim_left.simps [of s] trim_left.simps [of "s @ [x]"] strip_space_prefix)
  qed
qed

lemma TrimSpace_snoc_space: "ascii_space x \<Longrightarrow> TrimSpace (s @ [x]) = TrimSpace s"
  by (simp add: TrimSpace_def trim_left_snoc trim_left_rev.simps [of "x # _"])

lemma colon_line_snoc: "ascii_space x \<Longrightarrow> colon_line (s @ [x]) = colon_line s"
proof (cases "CHR '':'' \<in> set s")
  case True
  assume x: "ascii_space x"
  obtain k v where "s = k @ CHR '':'' # v" "CHR '':'' \<notin> set k" using True by (meson split_list_first)
  with x show ?thesis by (simp add: colon_line_def TrimSpace_snoc_space)
next
  case False
  assume x: "ascii_space x"
  then have "x \<noteq> CHR '':''" by (auto simp: ascii_space_def)
  with False show ?thesis by (simp add: colon_line_def SplitN2_no_sep)
qed

lemma colon_line_cr: "colon_line (drop_cr p) = colon_line p"
proof (cases "p \<noteq> [] \<and> last p = CHR 0x0D")
  case True
  then have "p = butlast p @ [CHR 0x0D]" by (metis append_butlast_last_id)
  moreover have "ascii_space CHR 0x0D" by (simp add: ascii_space_def)
  ultimately have "colon_line p = colon_line (butlast p)" by (metis colon_line_snoc)
  with True show ?thesis by (simp add: drop_cr_def)
qed (auto simp: drop_cr_def)

lemma colon_line_Nil: "colon_line [] = None"
  by (simp add: colon_line_def SplitN2_no_sep)

text \<open>A file without a line beyond the buffer of the scanner.\<close>

definition short_lines :: "string \<Rightarrow> bool" where
  "short_lines content = list_all (\<lambda>p. length p < 65536) (Split CHR 0x0A content)"

lemma scan_pieces_short: "short_lines content \<Longrightarrow> takeWhile (\<lambda>p. length p < 65536) (scan_pieces content) = scan_pieces content"
  by (auto simp: short_lines_def scan_pieces_def Let_def list_all_iff takeWhile_eq_all_conv dest: in_set_butlastD)

lemma scan_file_short: "short_lines content \<Longrightarrow> scan_file (content, e) = (map drop_cr (scan_pieces content), e)"
  by (simp add: scan_file_def scan_pieces_short)

lemma fold_pieces:
  "fold (\<lambda>r s. case r of None \<Rightarrow> s | Some (k, v) \<Rightarrow> upd k v s) (map colon_line (scan_pieces content)) s =
   fold (\<lambda>r s. case r of None \<Rightarrow> s | Some (k, v) \<Rightarrow> upd k v s) (map colon_line (Split CHR 0x0A content)) s"
proof (cases "last (Split CHR 0x0A content) = []")
  case True
  then have "Split CHR 0x0A content = scan_pieces content @ [[]]"
    by (metis Split_not_Nil append_butlast_last_id scan_pieces_def)
  then show ?thesis by (simp add: colon_line_Nil)
qed (simp add: scan_pieces_def Let_def)

lemma fx_fields_scan:
  assumes "short_lines content"
  shows "scan_fold colon_line str_set Map.empty (scan_lines (content, e)) = fx_fields content"
proof -
  have skip: "(if line = [] then None else colon_line line) = colon_line line" for line
    by (simp add: colon_line_Nil)
  have "map colon_line (map drop_cr ps) = map colon_line ps" for ps by (simp add: colon_line_cr)
  then show ?thesis
    by (simp only: fx_fields_def skip scan_lines_def scan_file_short [OF assms] fst_conv scan_fold_map fold_pieces)
qed

subsection \<open>Both scans find the same objects\<close>

lemma parse_digits_chars:
  "parse_digits base mx n s = (v, None) \<Longrightarrow> c \<in> set s \<Longrightarrow> any_digit c \<noteq> None"
  by (induction s arbitrary: n) (auto split: option.splits if_splits)

lemma parse_digits_range: "parse_digits base mx n s = (v, Some ErrRange) \<Longrightarrow> v = mx"
  by (induction s arbitrary: n) (auto split: option.splits if_splits)

lemma parse_uint_10:
  assumes "parse_uint 10 s = (v, e)" and "e \<noteq> Some ErrSyntax" and "v \<le> 2 ^ 63"
  shows "s \<noteq> [] \<and> (\<forall>c \<in> set s. any_digit c \<noteq> None)"
proof (cases e)
  case None
  with assms show ?thesis by (auto simp: parse_uint_def split: if_splits dest: parse_digits_chars)
next
  case (Some r)
  with assms(2) have "e = Some ErrRange" by (cases r) simp_all
  with assms(1) have "v = 2 ^ 64 - 1" by (auto simp: parse_uint_def split: if_splits dest: parse_digits_range)
  with assms(3) show ?thesis by simp
qed

lemma Atoi_chars:
  assumes "Atoi s = (v, None)"
  shows "s \<noteq> [] \<and> CHR ''/'' \<notin> set s \<and> CHR ''.'' \<notin> set s"
proof -
  define body where "body = (if hd s = CHR ''-'' \<or> hd s = CHR ''+'' then tl s else s)"
  obtain un e where u: "parse_uint 10 body = (un, e)" by (cases "parse_uint 10 body")
  have a: "atoi s = (v, None)" using assms by (auto simp: Atoi_def split: prod.splits)
  then have s: "s \<noteq> []" by (auto simp: atoi_def)
  with a u have "e \<noteq> Some ErrSyntax \<and> un \<le> 2 ^ 63"
    by (auto simp: atoi_def body_def [symmetric] Let_def split: if_splits option.splits num_err.splits)
  with u have d: "\<forall>c \<in> set body. any_digit c \<noteq> None" using parse_uint_10 by blast
  have n: "any_digit CHR ''/'' = None" "any_digit CHR ''.'' = None" by code_simp+
  then have "CHR ''/'' \<notin> set body" "CHR ''.'' \<notin> set body" using d by auto
  moreover have "set s \<subseteq> set body \<union> {CHR ''-'', CHR ''+''}" using s by (cases s) (auto simp: body_def)
  ultimately show ?thesis using s by auto
qed

lemma fdinfo_path:
  assumes "Atoi n = (fd, None)"
  shows "path_Join [proc_path pid ''fdinfo'', n] = ''/proc/'' @ itoa pid @ ''/fdinfo/'' @ n"
proof -
  have n: "path_name n" using Atoi_chars [OF assms] by (auto simp: path_name_def)
  have "CHR ''/'' \<notin> set (itoa pid)" "CHR ''.'' \<notin> set (itoa pid)"
    using char_notin_utoa [of "CHR ''/''"] char_notin_utoa [of "CHR ''.''"]
    by (simp_all add: itoa_def dec_digit_def)
  then have pid: "path_name (itoa pid)" by (auto simp: path_name_def)
  have "path_Join [abs_path [''proc'', itoa pid, ''fdinfo''], n] = abs_path [''proc'', itoa pid, ''fdinfo''] @ CHR ''/'' # n"
    by (rule path_Join_name) (use n pid in \<open>auto simp: path_name_def\<close>)
  then show ?thesis by (simp add: proc_path_def)
qed

text \<open>What the tool keeps of an object of kube-inspect: all but the process.\<close>

definition fx_prog_of :: "bpfprog \<Rightarrow> fx_prog" where
  "fx_prog_of p = \<lparr>fx_FD = bp_FD p, fx_ProgType = bp_ProgType p, fx_ProgID = bp_ProgID p, fx_Tag = bp_Tag p,
     fx_Jited = bp_Jited p\<rparr>"

definition fx_map_of :: "bpfmap \<Rightarrow> fx_map" where
  "fx_map_of m = \<lparr>fm_FD = bm_FD m, fm_MapType = bm_MapType m, fm_MapID = bm_MapID m, fm_KeySize = bm_KeySize m,
     fm_ValueSize = bm_ValueSize m, fm_MaxEntries = bm_MaxEntries m\<rparr>"

definition fx_obj_of :: "bpfobj \<Rightarrow> fx_obj" where
  "fx_obj_of x = (case x of Prog p \<Rightarrow> FxProg (fx_prog_of p) | Map m \<Rightarrow> FxMap (fx_map_of m))"

text \<open>Every fdinfo file that the listing names has lines that fit the buffer of a scanner.\<close>

definition short_fdinfo :: "sysview \<Rightarrow> int \<Rightarrow> bool" where
  "short_fdinfo sv pid =
     list_all (\<lambda>e. case sv_open sv (''/proc/'' @ itoa pid @ ''/fdinfo/'' @ de_name e) of
        Inl _ \<Rightarrow> True | Inr f \<Rightarrow> short_lines (fst f)) (fst (sv_dir sv (''/proc/'' @ itoa pid @ ''/fd'')))"

lemma fx_parseInt_eq: "fx_parseInt = parseInt"
  by (intro ext) (simp add: fx_parseInt_def parseInt_def)

lemma fx_entry_object:
  assumes "case sv_open sv (''/proc/'' @ itoa pid @ ''/fdinfo/'' @ n) of Inl _ \<Rightarrow> True | Inr f \<Rightarrow> short_lines (fst f)"
  shows "snd (fx_entry sv pid verbose n) = map_option fx_obj_of (fd_object sv pid n)"
proof (cases "snd (Atoi n)")
  case None
  then obtain fd where fd: "Atoi n = (fd, None)" by (cases "Atoi n") auto
  show ?thesis
  proof (cases "sv_open sv (''/proc/'' @ itoa pid @ ''/fdinfo/'' @ n)")
    case (Inl e)
    with fd show ?thesis
      by (simp add: fx_entry_def fd_object_def fdinfo_path [OF fd] parseFDInfo_def fx_parseFDInfo_def os_ReadFile_def)
  next
    case (Inr f)
    obtain content e where f: "f = (content, e)" by (cases f)
    with assms Inr have short: "short_lines content" by simp
    show ?thesis
    proof (cases e)
      case None
      with fd Inr f short show ?thesis
        by (simp add: fx_entry_def fd_object_def fdinfo_path [OF fd] parseFDInfo_def fx_parseFDInfo_def os_ReadFile_def
            fx_fields_scan scan_file_short fx_classify_def fx_parseInt_eq fx_obj_of_def fx_prog_of_def fx_map_of_def)
    next
      case (Some r)
      with fd Inr f short show ?thesis
        by (simp add: fx_entry_def fd_object_def fdinfo_path [OF fd] parseFDInfo_def fx_parseFDInfo_def os_ReadFile_def
            scan_file_short)
    qed
  qed
next
  case (Some err)
  then show ?thesis by (cases "Atoi n") (simp add: fx_entry_def fd_object_def)
qed

lemma map_filter_objs:
  "List.map_filter fx_the_prog (map fx_obj_of xs) = map fx_prog_of (List.map_filter the_prog xs)"
  "List.map_filter fx_the_map (map fx_obj_of xs) = map fx_map_of (List.map_filter the_map xs)"
  by (induction xs)
     (auto simp: fx_the_prog_def fx_the_map_def the_prog_def the_map_def fx_obj_of_def split: bpfobj.splits)

lemma map_filter_option:
  "(\<And>x. x \<in> set xs \<Longrightarrow> f x = map_option h (g x)) \<Longrightarrow> List.map_filter f xs = map h (List.map_filter g xs)"
  by (induction xs) (auto split: option.splits)

text \<open>C21. The stand-alone BPF reader finds exactly the programs and maps that kube-inspect finds in
  the same process, in the same order and with the same data, with or without the raw lines:
  although it reads whole files and splits them where kube-inspect scans, as long as the
  listing of the descriptors succeeds and no line outgrows the buffer of a scanner.\<close>

theorem bpf_scans_agree:
  assumes "snd (sv_dir sv (''/proc/'' @ itoa pid @ ''/fd'')) = None" and "short_fdinfo sv pid"
  shows "snd (scanBPFFDs sv pid verbose) =
    Inr (map fx_prog_of (fst (scanPIDFDs sv pid)), map fx_map_of (snd (scanPIDFDs sv pid)))"
proof -
  let ?d = "''/proc/'' @ itoa pid @ ''/fd''"
  obtain es where es: "os_ReadDir sv ?d = (es, None)" using assms(1) os_ReadDir_err [of sv ?d] by (cases "os_ReadDir sv ?d") auto
  have "set es = set (fst (sv_dir sv ?d))" using os_ReadDir_set [of sv ?d] es by simp
  then have "snd (fx_entry sv pid verbose (de_name e)) = map_option fx_obj_of (fd_object sv pid (de_name e))" if "e \<in> set es" for e
    using that assms(2) by (intro fx_entry_object) (auto simp: short_fdinfo_def list_all_iff)
  then have objs: "List.map_filter (\<lambda>e. snd (fx_entry sv pid verbose (de_name e))) es =
      map fx_obj_of (List.map_filter (\<lambda>e. fd_object sv pid (de_name e)) es)"
    by (rule map_filter_option)
  have "List.map_filter snd (map (\<lambda>e. fx_entry sv pid verbose (de_name e)) es) =
      List.map_filter (\<lambda>e. snd (fx_entry sv pid verbose (de_name e))) es"
    by (simp add: List.map_filter_def filter_map comp_def)
  moreover have "proc_path pid ''fd'' = ?d" by (simp add: proc_path_def)
  ultimately show ?thesis using es objs by (simp add: scanBPFFDs_def scanPIDFDs_def Let_def map_filter_objs)
qed

theorem bpf_scans_agree_witness:
  "snd (scanBPFFDs demo_bpf 7 True) = Inr (map fx_prog_of (fst (scanPIDFDs demo_bpf 7)), map fx_map_of (snd (scanPIDFDs demo_bpf 7)))
   \<and> map fx_ProgID (map fx_prog_of (fst (scanPIDFDs demo_bpf 7))) = [33]"
proof -
  have "snd (sv_dir demo_bpf (''/proc/'' @ itoa 7 @ ''/fd'')) = None" "short_fdinfo demo_bpf 7" by code_simp+
  moreover have "map fx_ProgID (map fx_prog_of (fst (scanPIDFDs demo_bpf 7))) = [33]" by code_simp
  ultimately show ?thesis using bpf_scans_agree [of demo_bpf 7 True] by blast
qed

text \<open>The name tables of the two programs are the same.\<close>

lemma fx_tables: "progTypeLookup = ProgTypeName" "mapTypeLookup = MapTypeName"
proof -
  have "fx_progTypeName = progTypeName" "fx_mapTypeName = mapTypeName" by code_simp+
  then show "progTypeLookup = ProgTypeName" "mapTypeLookup = MapTypeName"
    by (simp_all add: progTypeLookup_def ProgTypeName_def mapTypeLookup_def MapTypeName_def fun_eq_iff)
qed

end
