(* ===== verification/Proc_Sched.thy ===== *)
theory Proc_Sched
  imports Sched Go_Fmt
begin

text \<open>
  \<open>08-scheduler/exercises/proc-sched-reader/main.go\<close>: scheduling parameters of processes from
  \<open>/proc/<pid>/sched\<close> and \<open>/proc/<pid>/status\<close> (names start with \<open>ss\<close> and \<open>st\<close>). Its status
  reader is compared with the one of the package \<open>sched\<close> of kube-inspect.
\<close>

subsection \<open>Data\<close>

record sched_info =
  ss_PID :: int
  ss_Comm :: string
  ss_VrunTime :: f64
  ss_SumExecRuntime :: f64
  ss_NrVoluntarySwitches :: int
  ss_NrInvoluntarySwitches :: int
  ss_PrioValue :: int
  ss_PolicyValue :: int

record status_info =
  sf_PID :: int
  sf_Name :: string
  sf_CpusAllowedList :: string
  sf_MemsAllowedList :: string
  sf_VoluntaryCtxt :: int
  sf_NonvoluntaryCtxt :: int

subsection \<open>Operations\<close>

definition ss_zero :: "int \<Rightarrow> sched_info" where
  "ss_zero pid = \<lparr>ss_PID = pid, ss_Comm = [], ss_VrunTime = f64_zero, ss_SumExecRuntime = f64_zero,
     ss_NrVoluntarySwitches = 0, ss_NrInvoluntarySwitches = 0, ss_PrioValue = 0, ss_PolicyValue = 0\<rparr>"

definition ss_set :: "string \<Rightarrow> string \<Rightarrow> sched_info \<Rightarrow> sched_info" where
  "ss_set k v s =
     (if k = ''se.vruntime'' then s\<lparr>ss_VrunTime := ParseFloat_val v\<rparr>
      else if k = ''se.sum_exec_runtime'' then s\<lparr>ss_SumExecRuntime := ParseFloat_val v\<rparr>
      else if k = ''nr_voluntary_switches'' then s\<lparr>ss_NrVoluntarySwitches := Atoi_val v\<rparr>
      else if k = ''nr_involuntary_switches'' then s\<lparr>ss_NrInvoluntarySwitches := Atoi_val v\<rparr>
      else if k = ''prio'' then s\<lparr>ss_PrioValue := Atoi_val v\<rparr>
      else if k = ''policy'' then s\<lparr>ss_PolicyValue := Atoi_val v\<rparr>
      else s)"

text \<open>The first line: \<open>if idx := strings.Index(line, " ("); idx > 0 { info.Comm = line[:idx] }\<close>.\<close>

definition ss_header :: "string \<Rightarrow> sched_info \<Rightarrow> sched_info" where
  "ss_header line s =
     (case Index line '' ('' of
        Some idx \<Rightarrow> if 0 < idx then s\<lparr>ss_Comm := take idx line\<rparr> else s
      | None \<Rightarrow> s)"

definition ss_scan :: "int \<Rightarrow> string list \<Rightarrow> sched_info" where
  "ss_scan pid ls =
     (case ls of
        [] \<Rightarrow> ss_zero pid
      | l # rest \<Rightarrow> scan_fold colon_line ss_set (ss_header l (ss_zero pid)) rest)"

text \<open>The callers look at the error first, so what is returned beside an error is not kept.\<close>

definition parseSchedFile :: "sysview \<Rightarrow> int \<Rightarrow> go_err + sched_info" where
  "parseSchedFile sv pid =
     (case sv_open sv (proc_path pid ''sched'') of
        Inl err \<Rightarrow> Inl err
      | Inr f \<Rightarrow> (case snd (scan_file f) of Some err \<Rightarrow> Inl err | None \<Rightarrow> Inr (ss_scan pid (scan_lines f))))"

definition sf_set :: "string \<Rightarrow> string \<Rightarrow> status_info \<Rightarrow> status_info" where
  "sf_set k v s =
     (if k = ''Name'' then s\<lparr>sf_Name := v\<rparr>
      else if k = ''Cpus_allowed_list'' then s\<lparr>sf_CpusAllowedList := v\<rparr>
      else if k = ''Mems_allowed_list'' then s\<lparr>sf_MemsAllowedList := v\<rparr>
      else if k = ''voluntary_ctxt_switches'' then s\<lparr>sf_VoluntaryCtxt := Atoi_val v\<rparr>
      else if k = ''nonvoluntary_ctxt_switches'' then s\<lparr>sf_NonvoluntaryCtxt := Atoi_val v\<rparr>
      else s)"

definition parseStatusFile :: "sysview \<Rightarrow> int \<Rightarrow> go_err + status_info" where
  "parseStatusFile sv pid =
     (case sv_open sv (proc_path pid ''status'') of
        Inl err \<Rightarrow> Inl err
      | Inr f \<Rightarrow>
          (case snd (scan_file f) of
             Some err \<Rightarrow> Inl err
           | None \<Rightarrow> Inr (scan_fold colon_line sf_set
               \<lparr>sf_PID = pid, sf_Name = [], sf_CpusAllowedList = [], sf_MemsAllowedList = [], sf_VoluntaryCtxt = 0,
                sf_NonvoluntaryCtxt = 0\<rparr> (scan_lines f))))"

definition policyName :: "int \<Rightarrow> string" where
  "policyName policy =
     (if policy = 0 then ''SCHED_NORMAL''
      else if policy = 1 then ''SCHED_FIFO''
      else if policy = 2 then ''SCHED_RR''
      else if policy = 3 then ''SCHED_BATCH''
      else if policy = 5 then ''SCHED_IDLE''
      else if policy = 6 then ''SCHED_DEADLINE''
      else ''UNKNOWN('' @ itoa policy @ '')'')"

definition ss_ms :: "f64 \<Rightarrow> string" where
  "ss_ms x = fmt_f 3 (f64_div x (FFin False 1000000)) @ '' ms''"

definition ss_report :: "int \<Rightarrow> sched_info \<Rightarrow> status_info \<Rightarrow> string list" where
  "ss_report pid s t =
     [''PID '' @ itoa pid @ ''  ('' @ ss_Comm s @ '')'',
      ''  Policy         : '' @ policyName (ss_PolicyValue s),
      ''  Prio (dynamic) : '' @ itoa (ss_PrioValue s) @ ''  (100-139=CFS, 0-99=RT)'',
      ''  vruntime       : '' @ ss_ms (ss_VrunTime s),
      ''  sum_exec       : '' @ ss_ms (ss_SumExecRuntime s),
      ''  voluntary sw   : '' @ itoa (ss_NrVoluntarySwitches s),
      ''  involuntary sw : '' @ itoa (ss_NrInvoluntarySwitches s),
      ''  CPUs allowed   : '' @ sf_CpusAllowedList t,
      ''  NUMA nodes     : '' @ sf_MemsAllowedList t,
      []]"

definition printPID :: "sysview \<Rightarrow> int \<Rightarrow> out_line list" where
  "printPID sv pid =
     (case parseSchedFile sv pid of
        Inl err \<Rightarrow> [ErrOf (''pid '' @ itoa pid @ '': '') err]
      | Inr s \<Rightarrow>
          (case parseStatusFile sv pid of
             Inl err \<Rightarrow> [ErrOf (''pid '' @ itoa pid @ '': '') err]
           | Inr t \<Rightarrow> outs (ss_report pid s t)))"

text \<open>The program from its name and its arguments; a bad argument does not stop it.\<close>

definition proc_sched_reader :: "sysview \<Rightarrow> string \<Rightarrow> string list \<Rightarrow> out_line list \<times> nat" where
  "proc_sched_reader sv prog_name args =
     (if args = [] then ([ErrLine (''usage: '' @ prog_name @ '' <pid> [pid...]'')], 1)
      else (concat (map (\<lambda>arg.
          case Atoi arg of
            (_, Some err) \<Rightarrow> [ErrOf [] (Errorf ''invalid pid %q: %v'' [arg] (Some err))]
          | (pid, None) \<Rightarrow> printPID sv pid) args), 0))"

subsection \<open>The two readers of a status file agree\<close>

definition pa_of :: "status_info \<Rightarrow> procaffinity" where
  "pa_of i = \<lparr>pa_PID = sf_PID i, pa_Comm = sf_Name i, pa_CpusAllowedList = sf_CpusAllowedList i,
     pa_MemsAllowedList = sf_MemsAllowedList i\<rparr>"

lemma pa_of_set: "pa_of (sf_set k v s) = aff_set k v (pa_of s)"
  by (simp add: pa_of_def sf_set_def aff_set_def)

lemma pa_of_scan: "pa_of (scan_fold p sf_set s ls) = scan_fold p aff_set (pa_of s) ls"
  by (induction ls arbitrary: s) (auto simp: pa_of_set split: option.splits)

text \<open>Whatever a status file holds, proc-sched-reader and the sched package of kube-inspect
  read the same name, CPU list and memory-node list from it, whenever the former succeeds.\<close>

theorem status_readers_agree:
  "parseStatusFile sv pid = Inr i \<Longrightarrow> parseStatusAffinity sv pid = pa_of i"
  by (auto simp: parseStatusFile_def parseStatusAffinity_def pa_of_scan Let_def pa_of_def [of "\<lparr>sf_PID = _, sf_Name = _,
      sf_CpusAllowedList = _, sf_MemsAllowedList = _, sf_VoluntaryCtxt = _, sf_NonvoluntaryCtxt = _\<rparr>"]
      split: sum.splits option.splits)

subsection \<open>The sched file of the kernel\<close>

text \<open>\<open>SEQ_printf(m, "%-45s:%21Ld\n")\<close>: a key, blanks, a colon, blanks, a value.\<close>

definition sched_row :: "string \<times> string \<Rightarrow> string" where
  "sched_row kv = fst kv @ replicate (45 - length (fst kv)) CHR '' '' @ CHR '':'' #
     replicate (21 - length (snd kv)) CHR '' '' @ snd kv"

definition sched_head :: "string \<Rightarrow> int \<Rightarrow> nat \<Rightarrow> string" where
  "sched_head comm pid threads = comm @ '' ('' @ itoa pid @ '', #threads: '' @ utoa threads @ '')''"

definition sched_file :: "string \<Rightarrow> int \<Rightarrow> nat \<Rightarrow> (string \<times> string) list \<Rightarrow> string" where
  "sched_file comm pid threads kvs =
     unlines (sched_head comm pid threads # replicate 67 CHR ''-'' # map sched_row kvs)"

definition sched_ok :: "string \<Rightarrow> int \<Rightarrow> nat \<Rightarrow> (string \<times> string) list \<Rightarrow> bool" where
  "sched_ok comm pid threads kvs \<longleftrightarrow> comm \<noteq> [] \<and> Index (comm @ '' ('') '' ('' = Some (length comm)
     \<and> line_ok (sched_head comm pid threads) \<and> distinct (map fst kvs) \<and>
     list_all (\<lambda>(k, v). token k \<and> CHR '':'' \<notin> set k \<and> token v \<and> length k < 1000 \<and> length v < 1000) kvs"

lemma trim_left_rev_blanks: "trim_left_rev (replicate n CHR '' '' @ s) = trim_left_rev s"
  by (induction n) (simp_all add: trim_left_rev.simps [of "CHR '' '' # _"] ascii_space_def)

lemma TrimSpace_trailing: "token k \<Longrightarrow> TrimSpace (k @ replicate n CHR '' '') = k"
proof -
  assume k: "token k"
  have "strip_space (k @ replicate n CHR '' '') = None"
  proof (cases n)
    case 0
    with k show ?thesis by (simp add: token_def no_space_strip)
  next
    case (Suc m)
    with k have "strip_space (k @ CHR '' '' # replicate m CHR '' '') = None"
      by (intro strip_space_before_space) (auto simp: token_def no_space_strip ascii_space_def)
    with Suc show ?thesis by simp
  qed
  then have "trim_left (k @ replicate n CHR '' '') = k @ replicate n CHR '' ''" by (simp add: trim_left.simps)
  moreover have "trim_left_rev (rev k) = rev k"
    using k by (simp add: trim_left_rev.simps [of "rev k"] strip_space_rev_None token_def)
  ultimately show ?thesis by (simp add: TrimSpace_def trim_left_rev_blanks)
qed

lemma colon_line_row:
  assumes "token k" and "CHR '':'' \<notin> set k" and "token v"
  shows "colon_line (sched_row (k, v)) = Some (k, v)"
proof -
  have "CHR '':'' \<notin> set (k @ replicate (45 - length k) CHR '' '')" using assms(2) by auto
  from SplitN2_append [OF this, of "replicate (21 - length v) CHR '' '' @ v"] show ?thesis
    using assms by (simp add: colon_line_def sched_row_def TrimSpace_trailing TrimSpace_blanks TrimSpace_trimmed trimmed_token)
qed

lemma line_ok_row:
  assumes "token k" and "token v" and "length k < 1000" and "length v < 1000"
  shows "line_ok (sched_row (k, v))"
proof -
  have "ascii_space CHR 0x0A" "ascii_space CHR 0x0D" by (simp_all add: ascii_space_def)
  then have "CHR 0x0A \<notin> set k" "CHR 0x0D \<notin> set k" "CHR 0x0A \<notin> set v" "CHR 0x0D \<notin> set v"
    using assms(1,2) token_no_ascii by blast+
  with assms(3,4) show ?thesis by (simp add: line_ok_def sched_row_def)
qed

lemma sched_file_lines:
  "sched_ok comm pid threads kvs \<Longrightarrow>
   scan_file (sched_file comm pid threads kvs, e) = (sched_head comm pid threads # replicate 67 CHR ''-'' # map sched_row kvs, e)"
  unfolding sched_file_def
  by (rule scan_unlines) (auto simp: sched_ok_def list_all_iff line_ok_row line_ok_def [of "replicate 67 _"])

lemma Index_bound: "Index s sub = Some i \<Longrightarrow> i + length sub \<le> length s"
  by (induction s arbitrary: i) (auto split: if_splits dest: prefix_length_le)

lemma Index_append: "Index s sub = Some i \<Longrightarrow> Index (s @ t) sub = Some i"
proof (induction s arbitrary: i)
  case Nil
  then show ?case by (cases t) (auto split: if_splits)
next
  case (Cons c s)
  show ?case
  proof (cases "prefix sub (c # s)")
    case True
    then have "prefix sub ((c # s) @ t)" by (simp only: prefix_prefix)
    with True Cons.prems show ?thesis by simp
  next
    case False
    with Cons.prems obtain j where j: "Index s sub = Some j" "i = Suc j" by auto
    then have "length sub \<le> length (c # s)" using Index_bound [of s sub j] by simp
    with False have "\<not> prefix sub ((c # s) @ t)" using prefix_length_prefix [of sub "(c # s) @ t" "c # s"] by auto
    with Cons.IH [OF j(1)] j(2) show ?thesis by simp
  qed
qed

lemma last_entry_rows:
  "distinct (map fst kvs) \<Longrightarrow> \<forall>(k, v) \<in> set kvs. colon_line (sched_row (k, v)) = Some (k, v) \<Longrightarrow>
   last_entry colon_line k (map sched_row kvs) = map_of kvs k"
proof (induction kvs)
  case (Cons kv kvs)
  obtain a v where kv: "kv = (a, v)" by (cases kv)
  with Cons.prems have "map_of kvs a = None" by (simp add: map_of_eq_None_iff)
  with Cons kv show ?case by (auto split: option.splits)
qed simp

definition ss_keys :: "string set" where
  "ss_keys = {''se.vruntime'', ''se.sum_exec_runtime'', ''nr_voluntary_switches'', ''nr_involuntary_switches'', ''prio'', ''policy''}"

definition ss_float :: "string \<Rightarrow> bool" where
  "ss_float k \<longleftrightarrow> k = ''se.vruntime'' \<or> k = ''se.sum_exec_runtime''"

definition ss_get :: "string \<Rightarrow> sched_info \<Rightarrow> f64 + int" where
  "ss_get k s =
     (if k = ''se.vruntime'' then Inl (ss_VrunTime s) else if k = ''se.sum_exec_runtime'' then Inl (ss_SumExecRuntime s)
      else if k = ''nr_voluntary_switches'' then Inr (ss_NrVoluntarySwitches s)
      else if k = ''nr_involuntary_switches'' then Inr (ss_NrInvoluntarySwitches s)
      else if k = ''prio'' then Inr (ss_PrioValue s) else Inr (ss_PolicyValue s))"

definition ss_conv :: "string \<Rightarrow> string \<Rightarrow> f64 + int" where
  "ss_conv k v = (if ss_float k then Inl (ParseFloat_val v) else Inr (Atoi_val v))"

interpretation ss: keyed_scan ss_set ss_get ss_conv ss_keys
proof unfold_locales
  fix k v s assume "k \<in> ss_keys"
  then show "ss_get k (ss_set k v s) = ss_conv k v"
    by (auto simp: ss_keys_def ss_get_def ss_set_def ss_conv_def ss_float_def)
next
  fix k k' :: string and v s assume "k \<in> ss_keys" "k' \<noteq> k"
  then show "ss_get k (ss_set k' v s) = ss_get k s"
    by (auto simp: ss_keys_def ss_get_def ss_set_def)
qed

lemma ss_scan_other: "ss_PID (scan_fold p ss_set s ls) = ss_PID s \<and> ss_Comm (scan_fold p ss_set s ls) = ss_Comm s"
  by (induction ls arbitrary: s) (auto simp: ss_set_def split: option.splits)

text \<open>What is read for a key: the value, and zero when the file has no such row.\<close>

definition ss_num :: "(string \<times> string) list \<Rightarrow> string \<Rightarrow> int" where
  "ss_num kvs k = (case map_of kvs k of None \<Rightarrow> 0 | Some v \<Rightarrow> Atoi_val v)"

definition ss_flt :: "(string \<times> string) list \<Rightarrow> string \<Rightarrow> f64" where
  "ss_flt kvs k = (case map_of kvs k of None \<Rightarrow> f64_zero | Some v \<Rightarrow> ParseFloat_val v)"

definition ss_of :: "int \<Rightarrow> string \<Rightarrow> (string \<times> string) list \<Rightarrow> sched_info" where
  "ss_of pid comm kvs = \<lparr>ss_PID = pid, ss_Comm = comm, ss_VrunTime = ss_flt kvs ''se.vruntime'',
     ss_SumExecRuntime = ss_flt kvs ''se.sum_exec_runtime'', ss_NrVoluntarySwitches = ss_num kvs ''nr_voluntary_switches'',
     ss_NrInvoluntarySwitches = ss_num kvs ''nr_involuntary_switches'', ss_PrioValue = ss_num kvs ''prio'',
     ss_PolicyValue = ss_num kvs ''policy''\<rparr>"

lemma ss_scan_rows:
  assumes "\<And>k. last_entry colon_line k ls = map_of kvs k"
  shows "scan_fold colon_line ss_set (ss_zero pid\<lparr>ss_Comm := comm\<rparr>) ls = ss_of pid comm kvs"
proof -
  let ?s = "ss_zero pid\<lparr>ss_Comm := comm\<rparr>" and ?r = "scan_fold colon_line ss_set (ss_zero pid\<lparr>ss_Comm := comm\<rparr>) ls"
  have g: "ss_get k ?r = (if ss_float k then Inl (ss_flt kvs k) else Inr (ss_num kvs k))" if "k \<in> ss_keys" for k
    using ss.look_scan [OF that, of colon_line ?s ls] that assms
    by (auto simp: ss_conv_def ss_flt_def ss_num_def ss_get_def ss_zero_def ss_keys_def ss_float_def split: option.splits)
  have "ss_VrunTime ?r = ss_flt kvs ''se.vruntime''" using g [of "''se.vruntime''"] by (simp add: ss_keys_def ss_get_def ss_float_def)
  moreover have "ss_SumExecRuntime ?r = ss_flt kvs ''se.sum_exec_runtime''"
    using g [of "''se.sum_exec_runtime''"] by (simp add: ss_keys_def ss_get_def ss_float_def)
  moreover have "ss_NrVoluntarySwitches ?r = ss_num kvs ''nr_voluntary_switches''"
    using g [of "''nr_voluntary_switches''"] by (simp add: ss_keys_def ss_get_def ss_float_def)
  moreover have "ss_NrInvoluntarySwitches ?r = ss_num kvs ''nr_involuntary_switches''"
    using g [of "''nr_involuntary_switches''"] by (simp add: ss_keys_def ss_get_def ss_float_def)
  moreover have "ss_PrioValue ?r = ss_num kvs ''prio''" using g [of "''prio''"] by (simp add: ss_keys_def ss_get_def ss_float_def)
  moreover have "ss_PolicyValue ?r = ss_num kvs ''policy''" using g [of "''policy''"] by (simp add: ss_keys_def ss_get_def ss_float_def)
  moreover have "ss_PID ?r = pid" "ss_Comm ?r = comm" using ss_scan_other [of colon_line ?s ls] by (simp_all add: ss_zero_def)
  ultimately show ?thesis by (simp add: ss_of_def sched_info.equality)
qed

text \<open>C37. proc-sched-reader reads the sched file of the kernel: the command up to the parenthesis,
  the two times and the four numbers by their keys, whatever other rows the file has; a key
  that is missing reads as zero.\<close>

theorem parseSchedFile_kernel:
  assumes "sv_open sv (proc_path pid ''sched'') = Inr (sched_file comm pid threads kvs, None)"
    and "sched_ok comm pid threads kvs"
  shows "parseSchedFile sv pid = Inr (ss_of pid comm kvs)"
proof -
  have "Index (sched_head comm pid threads) '' ('' = Some (length comm)"
    using assms(2) Index_append [of "comm @ '' (''" "'' (''" "length comm" "itoa pid @ '', #threads: '' @ utoa threads @ '')''"]
    by (simp add: sched_ok_def sched_head_def)
  then have h: "ss_header (sched_head comm pid threads) (ss_zero pid) = ss_zero pid\<lparr>ss_Comm := comm\<rparr>"
    using assms(2) by (simp add: ss_header_def sched_head_def sched_ok_def)
  have "CHR '':'' \<notin> set (replicate 67 CHR ''-'')" by simp
  from SplitN2_no_sep [OF this] have "colon_line (replicate 67 CHR ''-'') = None" by (simp only: colon_line_def list.case)
  moreover have "last_entry colon_line k (map sched_row kvs) = map_of kvs k" for k
    using assms(2) by (intro last_entry_rows) (auto simp: sched_ok_def list_all_iff colon_line_row)
  ultimately have "last_entry colon_line k (replicate 67 CHR ''-'' # map sched_row kvs) = map_of kvs k" for k
    by (simp only: last_entry.simps option.case split: option.splits) simp
  then have "ss_scan pid (sched_head comm pid threads # replicate 67 CHR ''-'' # map sched_row kvs) = ss_of pid comm kvs"
    using ss_scan_rows by (simp only: ss_scan_def list.case h)
  then show ?thesis
    using assms(1) by (simp add: parseSchedFile_def scan_lines_def sched_file_lines [OF assms(2)])
qed

definition demo_sched_rows :: "(string \<times> string) list" where
  "demo_sched_rows = [(''se.exec_start'', ''12.5''), (''se.vruntime'', ''1500000.250000''), (''policy'', ''0''), (''prio'', ''120'')]"

definition demo_proc_sched :: sysview where
  "demo_proc_sched = table_view [(''/proc/7/sched'', sched_file ''nginx'' 7 1 demo_sched_rows),
     (''/proc/7/status'', ''Name:'' @ [CHR 0x09] @ ''nginx'' @ [CHR 0x0A] @ ''Cpus_allowed_list:'' @ [CHR 0x09] @ ''0-3'' @ [CHR 0x0A])]
     [] [] [] []"

theorem parseSchedFile_kernel_witness:
  "parseSchedFile demo_proc_sched 7 = Inr (ss_of 7 ''nginx'' demo_sched_rows) \<and> ss_num demo_sched_rows ''prio'' = 120"
proof -
  have "sv_open demo_proc_sched (proc_path 7 ''sched'') = Inr (sched_file ''nginx'' 7 1 demo_sched_rows, None)"
    "sched_ok ''nginx'' 7 1 demo_sched_rows" "ss_num demo_sched_rows ''prio'' = 120" by code_simp+
  then show ?thesis using parseSchedFile_kernel [of demo_proc_sched 7 "''nginx''" 1 demo_sched_rows] by blast
qed

theorem status_readers_agree_witness:
  "\<exists>i. parseStatusFile demo_proc_sched 7 = Inr i \<and> parseStatusAffinity demo_proc_sched 7 = pa_of i
    \<and> sf_CpusAllowedList i = ''0-3''"
proof -
  have "case parseStatusFile demo_proc_sched 7 of Inl _ \<Rightarrow> False | Inr i \<Rightarrow> sf_CpusAllowedList i = ''0-3''" by code_simp
  then obtain i where "parseStatusFile demo_proc_sched 7 = Inr i" "sf_CpusAllowedList i = ''0-3''" by (auto split: sum.splits)
  then show ?thesis using status_readers_agree [of demo_proc_sched 7 i] by blast
qed

end
