(* ===== verification/Node_Health.thy ===== *)
theory Node_Health
  imports Health Go_Json
begin

text \<open>
  \<open>11-cluster-ops/exercises/node-health-reader/main.go\<close> (names that clash with the package
  \<open>health\<close> of kube-inspect start with \<open>nk\<close>): taint mask, panic and watchdog settings, kdump, and
  the alarming messages of the kernel log, as text or as JSON. Its report is compared with the
  one of the package.
\<close>

subsection \<open>Data\<close>

record taint_flag =
  tf_Bit :: nat
  tf_Code :: string
  tf_Meaning :: string

definition mk_flag :: "nat \<Rightarrow> string \<Rightarrow> string \<Rightarrow> taint_flag" where
  "mk_flag b c m = \<lparr>tf_Bit = b, tf_Code = c, tf_Meaning = m\<rparr>"

definition nk_taintTable :: "taint_flag list" where
  "nk_taintTable = [
     mk_flag 0 ''P'' ''proprietary module loaded'',
     mk_flag 1 ''F'' ''module force-loaded'',
     mk_flag 2 ''S'' ''CPU out of spec (overclocking, thermals, hw errata)'',
     mk_flag 3 ''R'' ''module force-removed'',
     mk_flag 4 ''M'' ''machine check error'',
     mk_flag 5 ''B'' ''bad page accessed'',
     mk_flag 6 ''U'' ''userspace set taint'',
     mk_flag 7 ''D'' ''kernel oops/BUG fired'',
     mk_flag 8 ''A'' ''ACPI table overridden'',
     mk_flag 9 ''W'' ''WARN_ON fired'',
     mk_flag 10 ''C'' ''staging driver loaded'',
     mk_flag 11 ''I'' ''firmware workaround'',
     mk_flag 12 ''O'' ''out-of-tree module'',
     mk_flag 13 ''E'' ''unsigned module'',
     mk_flag 14 ''L'' ''soft lockup detected'',
     mk_flag 15 ''K'' ''livepatch applied'',
     mk_flag 16 ''X'' ''auxiliary taint'',
     mk_flag 17 ''T'' ''randstruct layout'',
     mk_flag 18 ''N'' ''test module'']"

record kernel_health =
  kh_Version :: string
  kh_Release :: string
  kh_TaintRaw :: int
  kh_TaintClean :: bool
  kh_ActiveTaints :: "taint_flag list"
  kh_PanicTimeout :: int
  kh_PanicOnOops :: int
  kh_NMIWatchdog :: int
  kh_WatchdogThresh :: int
  kh_SoftlockupPanic :: int
  kh_KexecLoaded :: int
  kh_CrashKernel :: string

record kmsg_record =
  ke_Level :: int
  ke_Message :: string

subsection \<open>Operations\<close>

definition nk_readSysctl :: "sysview \<Rightarrow> string \<Rightarrow> string" where
  "nk_readSysctl sv path = (case os_ReadFile sv path of Inl err \<Rightarrow> [] | Inr content \<Rightarrow> TrimSpace content)"

definition nk_readSysctlInt :: "sysview \<Rightarrow> string \<Rightarrow> int" where
  "nk_readSysctlInt sv path = (let s = nk_readSysctl sv path in Atoi_val s)"

definition decodeTaint :: "int \<Rightarrow> bool \<times> taint_flag list" where
  "decodeTaint raw =
     (if raw = 0 then (True, [])
      else (False, filter (\<lambda>f. raw AND push_bit (tf_Bit f) 1 \<noteq> 0) nk_taintTable))"

definition parseCmdlineParam :: "sysview \<Rightarrow> string \<Rightarrow> string" where
  "parseCmdlineParam sv param =
     (case os_ReadFile sv ''/proc/cmdline'' of
        Inl err \<Rightarrow> []
      | Inr content \<Rightarrow>
          (case List.find (\<lambda>f. HasPrefix f (param @ ''='')) (Fields content) of
             None \<Rightarrow> []
           | Some f \<Rightarrow> TrimPrefix f (param @ ''='')))"

definition collectHealth :: "sysview \<Rightarrow> kernel_health" where
  "collectHealth sv =
     (let taintRaw = nk_readSysctlInt sv ''/proc/sys/kernel/tainted''; (clean, active) = decodeTaint taintRaw in
      \<lparr>kh_Version = nk_readSysctl sv ''/proc/version'',
       kh_Release = nk_readSysctl sv ''/proc/sys/kernel/osrelease'',
       kh_TaintRaw = taintRaw,
       kh_TaintClean = clean,
       kh_ActiveTaints = active,
       kh_PanicTimeout = nk_readSysctlInt sv ''/proc/sys/kernel/panic'',
       kh_PanicOnOops = nk_readSysctlInt sv ''/proc/sys/kernel/panic_on_oops'',
       kh_NMIWatchdog = nk_readSysctlInt sv ''/proc/sys/kernel/nmi_watchdog'',
       kh_WatchdogThresh = nk_readSysctlInt sv ''/proc/sys/kernel/watchdog_thresh'',
       kh_SoftlockupPanic = nk_readSysctlInt sv ''/proc/sys/kernel/softlockup_panic'',
       kh_KexecLoaded = nk_readSysctlInt sv ''/sys/kernel/kexec_crash_loaded'',
       kh_CrashKernel = parseCmdlineParam sv ''crashkernel''\<rparr>)"

definition kmsg_keywords :: "string list" where
  "kmsg_keywords = [''oom'', ''bug:'', ''warn'', ''panic'', ''lockup'']"

text \<open>One record \<open>priority,seq,ts,flags;message\<close> of the log.\<close>

definition kmsg_event :: "string \<Rightarrow> kmsg_record option" where
  "kmsg_event line =
     (case Index line '';'' of
        None \<Rightarrow> None
      | Some idx \<Rightarrow>
          (let meta = take idx line; msg = drop (idx + 1) line; lower = ascii_lower msg in
           if \<not> list_ex (Contains lower) kmsg_keywords then None
           else Some \<lparr>ke_Level = Atoi_val (hd (SplitN2 CHR '','' meta)), ke_Message = msg\<rparr>))"

text \<open>\<open>for scanner.Scan() && len(events) < max\<close>\<close>

fun kmsg_loop :: "nat \<Rightarrow> kmsg_record list \<Rightarrow> string list \<Rightarrow> kmsg_record list" where
  "kmsg_loop mx events [] = events"
| "kmsg_loop mx events (line # ls) =
     (if length events < mx
      then kmsg_loop mx (case kmsg_event line of None \<Rightarrow> events | Some e \<Rightarrow> events @ [e]) ls
      else events)"

definition scanKmsg :: "sysview \<Rightarrow> nat \<Rightarrow> go_err + kmsg_record list" where
  "scanKmsg sv mx =
     (case sv_open sv ''/dev/kmsg'' of
        Inl err \<Rightarrow> Inl err
      | Inr f \<Rightarrow> Inr (kmsg_loop mx [] (scan_lines f)))"

subsection \<open>The reports\<close>

text \<open>The value of an \<open>int\<close> expression: 64 bits, in two's complement.\<close>

definition int_wrap :: "int \<Rightarrow> int" where
  "int_wrap i = (i + 2 ^ 63) mod 2 ^ 64 - 2 ^ 63"

definition printHealth :: "kernel_health \<Rightarrow> string list" where
  "printHealth h =
     [''=== Kernel Health Report ==='',
      ''  release:          '' @ kh_Release h,
      ''  version:          '' @ kh_Version h,
      [],
      ''=== Taint State ===''] @
     (if kh_TaintClean h then [''  tainted: 0 (CLEAN)'']
      else (''  tainted: '' @ itoa (kh_TaintRaw h)) #
        map (\<lambda>t. ''    bit '' @ rjust 2 (utoa (tf_Bit t)) @ '' ('' @ tf_Code t @ ''): '' @ tf_Meaning t) (kh_ActiveTaints h)) @
     [[],
      ''=== Panic Configuration ==='',
      ''  kernel.panic:             '' @ itoa (kh_PanicTimeout h) @ ''  (0=halt, >0=reboot after Ns)'',
      ''  kernel.panic_on_oops:     '' @ itoa (kh_PanicOnOops h) @ ''  (1=oops triggers panic)'',
      ''  kernel.softlockup_panic:  '' @ itoa (kh_SoftlockupPanic h) @ ''  (1=soft lockup triggers panic)'',
      [],
      ''=== Watchdog State ==='',
      ''  kernel.nmi_watchdog:      '' @ itoa (kh_NMIWatchdog h) @ ''  (1=hardlockup detection on)'',
      ''  kernel.watchdog_thresh:   '' @ itoa (kh_WatchdogThresh h) @ ''s (softlockup at ''
        @ itoa (int_wrap (kh_WatchdogThresh h * 2)) @ ''s, hardlockup at ~'' @ itoa (kh_WatchdogThresh h) @ ''s)'',
      [],
      ''=== kdump Readiness ==='',
      ''  kexec_crash_loaded:  '' @ itoa (kh_KexecLoaded h) @ ''  (1=crash kernel loaded)'',
      (if kh_CrashKernel h \<noteq> [] then ''  crashkernel:   '' @ kh_CrashKernel h
       else ''  crashkernel:   (not set '' @ u_dash @ '' kdump not configured)'')]"

text \<open>\<open>json.Encoder\<close> with \<open>SetIndent("", "  ")\<close> on the report; an empty list is left out.\<close>

definition nk_member :: "nat \<Rightarrow> string \<Rightarrow> string \<Rightarrow> string" where
  "nk_member depth k v = replicate (2 * depth) CHR '' '' @ json_string k @ '': '' @ v"

definition json_flag :: "taint_flag \<Rightarrow> string list" where
  "json_flag t =
     [''    {'', nk_member 3 ''bit'' (utoa (tf_Bit t)) @ '','', nk_member 3 ''code'' (json_string (tf_Code t)) @ '','',
      nk_member 3 ''meaning'' (json_string (tf_Meaning t))]"

fun json_flags :: "taint_flag list \<Rightarrow> string list" where
  "json_flags [] = []"
| "json_flags [t] = json_flag t @ [''    }'']"
| "json_flags (t # ts) = json_flag t @ ''    },'' # json_flags ts"

definition json_health :: "kernel_health \<Rightarrow> string list" where
  "json_health h =
     [''{'',
      nk_member 1 ''version'' (json_string (kh_Version h)) @ '','',
      nk_member 1 ''release'' (json_string (kh_Release h)) @ '','',
      nk_member 1 ''taint_raw'' (itoa (kh_TaintRaw h)) @ '','',
      nk_member 1 ''taint_clean'' (fmt_bool (kh_TaintClean h)) @ '',''] @
     (if kh_ActiveTaints h = [] then []
      else nk_member 1 ''active_taints'' ''['' # json_flags (kh_ActiveTaints h) @ [''  ],'']) @
     [nk_member 1 ''panic_timeout_s'' (itoa (kh_PanicTimeout h)) @ '','',
      nk_member 1 ''panic_on_oops'' (itoa (kh_PanicOnOops h)) @ '','',
      nk_member 1 ''nmi_watchdog'' (itoa (kh_NMIWatchdog h)) @ '','',
      nk_member 1 ''watchdog_thresh_s'' (itoa (kh_WatchdogThresh h)) @ '','',
      nk_member 1 ''softlockup_panic'' (itoa (kh_SoftlockupPanic h)) @ '','',
      nk_member 1 ''kexec_loaded'' (itoa (kh_KexecLoaded h)) @ '','',
      nk_member 1 ''crash_kernel_param'' (json_string (kh_CrashKernel h)),
      ''}'']"

text \<open>The program from the values of its flags \<open>--kmsg\<close> and \<open>--json\<close>.\<close>

definition node_health_reader :: "sysview \<Rightarrow> bool \<Rightarrow> bool \<Rightarrow> out_line list" where
  "node_health_reader sv kmsgFlag jsonFlag =
     (let h = collectHealth sv in
      if jsonFlag then outs (json_health h)
      else outs (printHealth h) @
        (if kmsgFlag
         then Out ''=== Recent Kernel Messages (OOM/BUG/WARN/panic/lockup) ==='' #
           (case scanKmsg sv 50 of
              Inl err \<Rightarrow> [ErrOf ''  kmsg: '' err]
            | Inr events \<Rightarrow>
                if events = [] then [Out ''  (none found)'']
                else map (\<lambda>e. Out (''  ['' @ itoa (ke_Level e) @ ''] '' @ ke_Message e)) events)
         else []))"

subsection \<open>The two health reports agree\<close>

lemma nk_readSysctl: "nk_readSysctl = readSysctl" "nk_readSysctlInt = readSysctlInt" "parseCmdlineParam = cmdlineParam"
  by (simp_all add: fun_eq_iff nk_readSysctl_def readSysctl_def nk_readSysctlInt_def readSysctlInt_def
      parseCmdlineParam_def cmdlineParam_def)

text \<open>The tables list the same bits with the same letters; some of the texts differ.\<close>

lemma taint_tables: "map (\<lambda>f. (tf_Bit f, tf_Code f)) nk_taintTable = map (\<lambda>t. (tb_Bit t, tb_Code t)) taintTable"
  by code_simp

lemma filter_map_same: "map f xs = map g ys \<Longrightarrow> map f (filter (\<lambda>x. P (f x)) xs) = map g (filter (\<lambda>y. P (g y)) ys)"
  by (induction xs arbitrary: ys) auto

lemma decodeTaint_active:
  "map (\<lambda>f. (tf_Bit f, tf_Code f)) (snd (decodeTaint raw)) = map (\<lambda>t. (tb_Bit t, tb_Code t)) (active_taints raw)"
proof (cases "raw = 0")
  case True
  moreover have "active_taints 0 = []" by code_simp
  ultimately show ?thesis by (simp add: decodeTaint_def)
next
  case False
  then show ?thesis
    using filter_map_same [OF taint_tables, of "\<lambda>p. raw AND push_bit (fst p) 1 \<noteq> 0"]
    by (simp add: decodeTaint_def active_taints_def)
qed

text \<open>C26. On every node, node-health-reader and kube-inspect report the same: release, taint mask,
  active taint bits with their letters, panic, watchdog and kdump settings; and the mask is
  called clean exactly when it is zero.\<close>

theorem health_tools_agree:
  "kh_Release (collectHealth sv) = nh_Release (GetNodeHealth sv) \<and>
   kh_TaintRaw (collectHealth sv) = nh_TaintRaw (GetNodeHealth sv) \<and>
   kh_TaintClean (collectHealth sv) = (nh_TaintRaw (GetNodeHealth sv) = 0) \<and>
   map (\<lambda>f. (tf_Bit f, tf_Code f)) (kh_ActiveTaints (collectHealth sv)) =
     map (\<lambda>t. (tb_Bit t, tb_Code t)) (nh_ActiveTaints (GetNodeHealth sv)) \<and>
   kh_PanicTimeout (collectHealth sv) = nh_PanicTimeout (GetNodeHealth sv) \<and>
   kh_PanicOnOops (collectHealth sv) = nh_PanicOnOops (GetNodeHealth sv) \<and>
   kh_NMIWatchdog (collectHealth sv) = nh_NMIWatchdog (GetNodeHealth sv) \<and>
   kh_WatchdogThresh (collectHealth sv) = nh_WatchdogThresh (GetNodeHealth sv) \<and>
   kh_SoftlockupPanic (collectHealth sv) = nh_SoftlockupPanic (GetNodeHealth sv) \<and>
   kh_KexecLoaded (collectHealth sv) = nh_KexecLoaded (GetNodeHealth sv) \<and>
   kh_CrashKernel (collectHealth sv) = nh_CrashKernel (GetNodeHealth sv)"
proof -
  have c: "fst (decodeTaint raw) = (raw = 0)" for raw by (simp add: decodeTaint_def)
  show ?thesis
    by (simp add: collectHealth_def GetNodeHealth_def nk_readSysctl Let_def case_prod_beta decodeTaint_active c)
qed

subsection \<open>The kernel log\<close>

lemma kmsg_loop_append:
  "length events \<le> mx \<Longrightarrow>
   kmsg_loop mx events ls = events @ take (mx - length events) (List.map_filter kmsg_event ls)"
proof (induction ls arbitrary: events)
  case (Cons line ls)
  show ?case
  proof (cases "length events < mx")
    case True
    show ?thesis
    proof (cases "kmsg_event line")
      case None
      with True Cons show ?thesis by simp
    next
      case (Some e)
      have "mx - length events = Suc (mx - Suc (length events))" using True by simp
      with True Some Cons.IH [of "events @ [e]"] show ?thesis by simp
    qed
  next
    case False
    with Cons.prems show ?thesis by simp
  qed
qed simp

definition alarming :: "string \<Rightarrow> bool" where
  "alarming msg \<longleftrightarrow> (\<exists>w \<in> set kmsg_keywords. Contains (ascii_lower msg) w)"

lemma kmsg_event_Some:
  "kmsg_event line = Some e \<longleftrightarrow>
   (\<exists>meta. line = meta @ CHR '';'' # ke_Message e \<and> CHR '';'' \<notin> set meta \<and> alarming (ke_Message e)
     \<and> ke_Level e = Atoi_val (hd (SplitN2 CHR '','' meta)))"
proof (cases "CHR '';'' \<in> set line")
  case True
  then obtain a b where ab: "line = a @ CHR '';'' # b" "CHR '';'' \<notin> set a" by (meson split_list_first)
  have i: "Index line '';'' = Some (length a)"
    unfolding Index_char using ab by (auto simp: takeWhile_append)
  have uniq: "m = a \<and> r = b" if "line = m @ CHR '';'' # r" "CHR '';'' \<notin> set m" for m r
    using SplitN2_append [OF ab(2), of b] SplitN2_append [OF that(2), of r] ab(1) that(1) by simp
  have "kmsg_event line = (if alarming b then Some \<lparr>ke_Level = Atoi_val (hd (SplitN2 CHR '','' a)), ke_Message = b\<rparr> else None)"
    using i ab by (simp add: kmsg_event_def Let_def alarming_def list_ex_iff)
  then have k: "kmsg_event line = Some e \<longleftrightarrow>
      alarming b \<and> e = \<lparr>ke_Level = Atoi_val (hd (SplitN2 CHR '','' a)), ke_Message = b\<rparr>" by auto
  show ?thesis
  proof
    assume "kmsg_event line = Some e"
    with k ab show "\<exists>meta. line = meta @ CHR '';'' # ke_Message e \<and> CHR '';'' \<notin> set meta \<and> alarming (ke_Message e)
      \<and> ke_Level e = Atoi_val (hd (SplitN2 CHR '','' meta))" by (intro exI [of _ a]) simp
  next
    assume "\<exists>meta. line = meta @ CHR '';'' # ke_Message e \<and> CHR '';'' \<notin> set meta \<and> alarming (ke_Message e)
      \<and> ke_Level e = Atoi_val (hd (SplitN2 CHR '','' meta))"
    then obtain m where m: "line = m @ CHR '';'' # ke_Message e" "CHR '';'' \<notin> set m" "alarming (ke_Message e)"
      "ke_Level e = Atoi_val (hd (SplitN2 CHR '','' m))" by (elim exE conjE)
    then show "kmsg_event line = Some e" unfolding k using uniq [OF m(1,2)] by simp
  qed
next
  case False
  then have "kmsg_event line = None" by (simp add: kmsg_event_def Index_char)
  with False show ?thesis by auto
qed

text \<open>C28. scanKmsg returns at most the number of events it is asked for, each the message of a log
  record that holds one of the keywords in any case; and when it returns fewer, it has not
  missed any such record.\<close>

theorem scanKmsg_events:
  assumes "scanKmsg sv mx = Inr events" and "sv_open sv ''/dev/kmsg'' = Inr f"
  shows "length events \<le> mx \<and>
    (\<forall>e \<in> set events. alarming (ke_Message e) \<and>
       (\<exists>meta. meta @ CHR '';'' # ke_Message e \<in> set (scan_lines f))) \<and>
    (length events < mx \<longrightarrow>
       (\<forall>meta msg. meta @ CHR '';'' # msg \<in> set (scan_lines f) \<longrightarrow> CHR '';'' \<notin> set meta \<longrightarrow> alarming msg \<longrightarrow>
         msg \<in> ke_Message ` set events))"
proof -
  let ?all = "List.map_filter kmsg_event (scan_lines f)"
  have ev: "events = take mx ?all" using assms kmsg_loop_append [of "[]" mx] by (simp add: scanKmsg_def)
  then have sub: "set events \<subseteq> set ?all" by (simp add: set_take_subset)
  have "msg \<in> ke_Message ` set events"
    if l: "length events < mx" and "meta @ CHR '';'' # msg \<in> set (scan_lines f)" "CHR '';'' \<notin> set meta" "alarming msg" for meta msg
  proof -
    have "kmsg_event (meta @ CHR '';'' # msg) = Some \<lparr>ke_Level = Atoi_val (hd (SplitN2 CHR '','' meta)), ke_Message = msg\<rparr>"
      using that by (subst kmsg_event_Some) auto
    with that(2) have "\<lparr>ke_Level = Atoi_val (hd (SplitN2 CHR '','' meta)), ke_Message = msg\<rparr> \<in> set ?all"
      by (auto simp: set_map_filter)
    moreover have "events = ?all" using ev l by simp
    ultimately show ?thesis by force
  qed
  moreover have "alarming (ke_Message e) \<and> (\<exists>meta. meta @ CHR '';'' # ke_Message e \<in> set (scan_lines f))"
    if "e \<in> set events" for e
  proof -
    from that sub obtain line where "line \<in> set (scan_lines f)" "kmsg_event line = Some e" by (auto simp: set_map_filter)
    then show ?thesis unfolding kmsg_event_Some by blast
  qed
  moreover have "length events \<le> mx" using ev by simp
  ultimately show ?thesis by blast
qed

definition demo_kmsg :: sysview where
  "demo_kmsg = table_view
     [(''/dev/kmsg'', unlines [''6,1,10,-;Linux version 6.9'', ''3,2,20,-;watchdog: BUG: soft lockup - CPU#1'',
        ''12,3,30,-;Out of memory: OOM killer'', '' SUBSYSTEM=cpu''])] [] [] [] []"

theorem scanKmsg_events_witness:
  "\<exists>events. scanKmsg demo_kmsg 50 = Inr events \<and> map ke_Level events = [3, 12] \<and> length events \<le> 50
    \<and> ''Out of memory: OOM killer'' \<in> ke_Message ` set events"
proof -
  have e: "case scanKmsg demo_kmsg 50 of Inl _ \<Rightarrow> False | Inr es \<Rightarrow> map ke_Level es = [3, 12]" by code_simp
  then obtain es where es: "scanKmsg demo_kmsg 50 = Inr es" "map ke_Level es = [3, 12]" by (auto split: sum.splits)
  have "case sv_open demo_kmsg ''/dev/kmsg'' of Inl _ \<Rightarrow> False | Inr f \<Rightarrow>
    list_ex ((=) (''12,3,30,-'' @ CHR '';'' # ''Out of memory: OOM killer'')) (scan_lines f)" by code_simp
  then obtain f where f: "sv_open demo_kmsg ''/dev/kmsg'' = Inr f"
    "''12,3,30,-'' @ CHR '';'' # ''Out of memory: OOM killer'' \<in> set (scan_lines f)"
    by (cases "sv_open demo_kmsg ''/dev/kmsg''") (auto simp only: sum.case list_ex_iff)
  have "list_ex (Contains (ascii_lower ''Out of memory: OOM killer'')) kmsg_keywords" by code_simp
  then have a: "alarming ''Out of memory: OOM killer''" by (simp only: alarming_def list_ex_iff)
  have s: "CHR '';'' \<notin> set ''12,3,30,-''" by simp
  have "length es = length (map ke_Level es)" by simp
  then have "length es = 2" by (simp only: es(2)) simp
  then have "length es < 50" by simp
  note ev = scanKmsg_events [OF es(1) f(1)]
  have "''Out of memory: OOM killer'' \<in> ke_Message ` set es"
    by (rule ev [THEN conjunct2, THEN conjunct2, rule_format, OF \<open>length es < 50\<close> f(2) s a])
  with es ev [THEN conjunct1] show ?thesis by (intro exI [of _ es] conjI)
qed

end
