(* ===== verification/Vcpu_Inspector.thy ===== *)
theory Vcpu_Inspector
  imports Virt
begin

text \<open>
  \<open>12-kvm-virtualization/exercises/vcpu-inspector/main.go\<close> (names start with \<open>vi\<close>): what a
  guest sees of its hypervisor. The sleep of two seconds between the samples is the step from
  one view of the system to the next. Its readers are compared with the package \<open>virt\<close>.
\<close>

subsection \<open>Data\<close>

record vi_device =
  vi_name :: string
  vi_subsystem :: string
  vi_driver :: string

record vi_cpu =
  vc_user :: uint64
  vc_nice :: uint64
  vc_system :: uint64
  vc_idle :: uint64
  vc_iowait :: uint64
  vc_irq :: uint64
  vc_softirq :: uint64
  vc_steal :: uint64

subsection \<open>Readers\<close>

definition vi_bare :: string where
  "vi_bare = ''none (bare metal)''"

definition vi_product :: "sysview \<Rightarrow> string option" where
  "vi_product sv =
     (case os_ReadFile sv ''/sys/class/dmi/id/product_name'' of
        Inl err \<Rightarrow> None
      | Inr content \<Rightarrow>
          (let name = TrimSpace content in
           if Contains (ascii_lower name) ''virtual'' \<or> Contains (ascii_lower name) ''kvm''
           then Some (''KVM (via DMI: '' @ name @ '')'') else None))"

definition vi_vendor :: "sysview \<Rightarrow> string option" where
  "vi_vendor sv =
     (case os_ReadFile sv ''/sys/class/dmi/id/sys_vendor'' of
        Inl err \<Rightarrow> None
      | Inr content \<Rightarrow>
          (let vendor = TrimSpace content in
           if Contains vendor ''QEMU'' then Some (''KVM/QEMU ('' @ vendor @ '')'')
           else if Contains vendor ''VMware'' then Some (''VMware ('' @ vendor @ '')'')
           else if Contains vendor ''Xen'' then Some (''Xen ('' @ vendor @ '')'')
           else if Contains vendor ''Microsoft'' then Some (''Hyper-V ('' @ vendor @ '')'')
           else None))"

text \<open>The first scan of \<open>/proc/cpuinfo\<close> has no effect: its only statement leaves the loop.\<close>

definition vi_detectHypervisor :: "sysview \<Rightarrow> string" where
  "vi_detectHypervisor sv =
     (case vi_product sv of
        Some h \<Rightarrow> h
      | None \<Rightarrow>
          (case vi_vendor sv of
             Some h \<Rightarrow> h
           | None \<Rightarrow>
               if (case sv_open sv ''/proc/cpuinfo'' of
                     Inl err \<Rightarrow> False | Inr f \<Rightarrow> list_ex (\<lambda>l. Contains l ''hypervisor'') (scan_lines f))
               then ''KVM (CPUID hypervisor flag)''
               else if stat_ok sv ''/sys/bus/virtio'' then ''KVM (virtio bus present)''
               else vi_bare))"

definition countVCPUs :: "sysview \<Rightarrow> nat" where
  "countVCPUs sv =
     (case path_Glob sv ''/sys/devices/system/cpu/cpu[0-9]*'' of
        Inl err \<Rightarrow> 0
      | Inr matches \<Rightarrow> length (filter (stat_isdir sv) matches))"

definition vi_zero :: vi_cpu where
  "vi_zero = \<lparr>vc_user = 0, vc_nice = 0, vc_system = 0, vc_idle = 0, vc_iowait = 0, vc_irq = 0, vc_softirq = 0, vc_steal = 0\<rparr>"

definition vi_cpu_line :: "string \<Rightarrow> vi_cpu option" where
  "vi_cpu_line line =
     (if \<not> HasPrefix line ''cpu '' then None
      else let flds = Fields line; parse = (\<lambda>s. ParseUint_val s 10) in
        if length flds < 9 then None
        else Some \<lparr>vc_user = parse (flds ! 1), vc_nice = parse (flds ! 2), vc_system = parse (flds ! 3),
                  vc_idle = parse (flds ! 4), vc_iowait = parse (flds ! 5), vc_irq = parse (flds ! 6),
                  vc_softirq = parse (flds ! 7), vc_steal = parse (flds ! 8)\<rparr>)"

definition readProcStatCPU :: "sysview \<Rightarrow> vi_cpu" where
  "readProcStatCPU sv =
     (case sv_open sv ''/proc/stat'' of
        Inl err \<Rightarrow> vi_zero
      | Inr f \<Rightarrow> (case first_some vi_cpu_line (scan_lines f) of None \<Rightarrow> vi_zero | Some s \<Rightarrow> s))"

definition vi_total :: "vi_cpu \<Rightarrow> uint64" where
  "vi_total s = vc_user s + vc_nice s + vc_system s + vc_idle s + vc_iowait s + vc_irq s + vc_softirq s + vc_steal s"

definition vi_calcStealPct :: "vi_cpu \<Rightarrow> vi_cpu \<Rightarrow> f64" where
  "vi_calcStealPct s1 s2 =
     (let stealDelta = vc_steal s2 - vc_steal s1; totalDelta = vi_total s2 - vi_total s1 in
      if totalDelta = 0 then f64_zero
      else f64_mul (f64_div (f64_of_uint64 stealDelta) (f64_of_uint64 totalDelta)) (FFin False 100))"

definition vi_kb :: "string \<Rightarrow> string \<Rightarrow> uint64 option" where
  "vi_kb key line =
     (if HasPrefix line key
      then let flds = Fields line in if 2 \<le> length flds then Some (ParseUint_val (flds ! 1) 10) else None
      else None)"

definition readBalloonPages :: "sysview \<Rightarrow> uint64 \<times> uint64" where
  "readBalloonPages sv =
     (case sv_open sv ''/proc/meminfo'' of
        Inl err \<Rightarrow> (0, 0)
      | Inr f \<Rightarrow>
          (case first_some (vi_kb ''Balloon:'') (scan_lines f) of
             None \<Rightarrow> (0, 0)
           | Some kb \<Rightarrow> (let bytes = kb * 1024 in (bytes div 4096, bytes))))"

definition readTotalMemory :: "sysview \<Rightarrow> uint64" where
  "readTotalMemory sv =
     (case sv_open sv ''/proc/meminfo'' of
        Inl err \<Rightarrow> 0
      | Inr f \<Rightarrow> (case first_some (vi_kb ''MemTotal:'') (scan_lines f) of None \<Rightarrow> 0 | Some kb \<Rightarrow> kb * 1024))"

definition readMemAvailable :: "sysview \<Rightarrow> uint64" where
  "readMemAvailable sv =
     (case sv_open sv ''/proc/meminfo'' of
        Inl err \<Rightarrow> 0
      | Inr f \<Rightarrow> (case first_some (vi_kb ''MemAvailable:'') (scan_lines f) of None \<Rightarrow> 0 | Some kb \<Rightarrow> kb * 1024))"

definition vi_device_of :: "sysview \<Rightarrow> string \<Rightarrow> dirent \<Rightarrow> vi_device option" where
  "vi_device_of sv base e =
     (if \<not> IsDir e then None
      else let devPath = path_Join [base, de_name e] in
        Some \<lparr>vi_name = de_name e,
          vi_subsystem = (case os_ReadFile sv (path_Join [devPath, ''device'']) of Inl err \<Rightarrow> [] | Inr content \<Rightarrow> TrimSpace content),
          vi_driver = (case sv_readlink sv (path_Join [devPath, ''driver'']) of Inl err \<Rightarrow> [] | Inr target \<Rightarrow> path_Base target)\<rparr>)"

definition vi_listVirtioDevices :: "sysview \<Rightarrow> vi_device list" where
  "vi_listVirtioDevices sv =
     (let base = ''/sys/bus/virtio/devices'' in
      case os_ReadDir sv base of
        (_, Some err) \<Rightarrow> []
      | (entries, None) \<Rightarrow> List.map_filter (vi_device_of sv base) entries)"

definition kvm_stats :: "(string \<times> string) list" where
  "kvm_stats =
     [(''exits'', ''Total VM exits''), (''io_exits'', ''I/O port exits''), (''mmio_exits'', ''MMIO exits''),
      (''halt_exits'', ''HLT exits (guest idle)''), (''irq_exits'', ''Interrupt exits''),
      (''mmu_shadow_zapped'', ''Shadow page invalidations''), (''remote_tlb_flush'', ''Remote TLB flushes'')]"

definition printKVMDebugStats :: "sysview \<Rightarrow> string list" where
  "printKVMDebugStats sv =
     (let debugBase = ''/sys/kernel/debug/kvm'' in
      if \<not> stat_isdir sv debugBase then
        [''KVM Debug Stats : /sys/kernel/debug/kvm not accessible'',
         ''                  (run on the KVM HOST, or mount debugfs: mount -t debugfs none /sys/kernel/debug)'']
      else ''KVM Debug Stats (host-side, requires debugfs):'' #
        List.map_filter (\<lambda>(file, label).
          case os_ReadFile sv (path_Join [debugBase, file]) of
            Inl err \<Rightarrow> None
          | Inr content \<Rightarrow> Some (''  '' @ ljust 35 label @ '' : '' @ TrimSpace content)) kvm_stats)"

definition bytesToMiB :: "uint64 \<Rightarrow> string" where
  "bytesToMiB b = fmt_u (b div 1024 div 1024)"

subsection \<open>main\<close>

definition vi_steal_indicator :: "f64 \<Rightarrow> string" where
  "vi_steal_indicator p =
     (if f64_ge p 10 then u_red @ '' CRITICAL '' @ u_dash @ '' host severely overcommitted''
      else if f64_ge p 5 then u_warn @ ''  WARNING '' @ u_dash @ '' host overcommitted''
      else if f64_ge p 1 then u_check @ ''  OK''
      else u_check @ ''  Excellent'')"

definition vi_balloon :: "sysview \<Rightarrow> string" where
  "vi_balloon sv =
     (let (balloonPages, balloonBytes) = readBalloonPages sv in
      if 0 < balloonPages then
        (let totalMem = readTotalMemory sv;
             pct = (if 0 < totalMem then f64_mul (f64_div (f64_of_uint64 balloonBytes) (f64_of_uint64 totalMem)) (FFin False 100)
                    else f64_zero);
             indicator = (if f64_gt pct 25 then u_red else if f64_gt pct 10 then u_warn @ '' '' else u_check)
         in ''Balloon Pages   : '' @ fmt_u balloonPages @ '' pages ('' @ bytesToMiB balloonBytes @ '' MB held) ''
              @ indicator @ '' '' @ fmt_f 1 pct @ ''% of RAM'')
      else ''Balloon Pages   : 0 (balloon driver not inflated)'')"

definition vcpu_inspector :: "sysview \<Rightarrow> sysview \<Rightarrow> string list" where
  "vcpu_inspector sv1 sv2 =
     (let hypervisor = vi_detectHypervisor sv1 in
      [''=== vCPU Inspector '' @ u_dash @ '' KVM Guest Analysis ==='', [], ''Hypervisor      : '' @ hypervisor] @
      (if hypervisor = vi_bare then
         [''Not running inside a KVM VM. Exiting.'', [],
          ''Tip: run this on a cloud VM or a KVM guest created with:'',
          ''  virt-install --name test --memory 2048 --vcpus 2 --import --disk ...'']
       else
         (let stealPct = vi_calcStealPct (readProcStatCPU sv1) (readProcStatCPU sv2); devices = vi_listVirtioDevices sv2 in
          [[], ''vCPUs           : '' @ utoa (countVCPUs sv1),
           ''CPU Steal Time  : '' @ fmt_f 2 stealPct @ ''% '' @ vi_steal_indicator stealPct, [],
           vi_balloon sv2,
           ''MemAvailable    : '' @ bytesToMiB (readMemAvailable sv2) @ '' MB'', []] @
          (if 0 < length devices then
             (''Virtio Devices  : '' @ utoa (length devices) @ '' found'') #
             map (\<lambda>d. ''  '' @ ljust 20 (vi_name d) @ '' driver='' @ ljust 20 (vi_driver d) @ '' subsystem='' @ vi_subsystem d) devices
           else [''Virtio Devices  : none detected'']) @
          [[]] @ printKVMDebugStats sv2)))"

subsection \<open>Agreement with kube-inspect\<close>

lemma vi_vendor_eq:
  "vi_vendor sv = (case os_ReadFile sv ''/sys/class/dmi/id/sys_vendor'' of
     Inl e \<Rightarrow> None | Inr content \<Rightarrow> vendor_hypervisor (TrimSpace content))"
  by (simp add: vi_vendor_def vendor_hypervisor_def Let_def split: sum.splits)

lemma vi_names: "vi_product sv = Some h \<Longrightarrow> h \<noteq> vi_bare" "vi_vendor sv = Some h \<Longrightarrow> h \<noteq> vi_bare"
  by (auto simp: vi_product_def vi_vendor_def vi_bare_def Let_def split: sum.splits if_splits)

lemma vi_fallbacks: "''KVM (CPUID hypervisor flag)'' \<noteq> vi_bare" "''KVM (virtio bus present)'' \<noteq> vi_bare"
  by (simp_all add: vi_bare_def)


text \<open>A guest of VMware whose product name is the usual one is called a KVM guest.\<close>

lemma vmware_called_kvm:
  "vi_detectHypervisor (table_view
     [(''/sys/class/dmi/id/product_name'', ''VMware Virtual Platform''), (''/sys/class/dmi/id/sys_vendor'', ''VMware, Inc.'')]
     [] [] [] []) = ''KVM (via DMI: VMware Virtual Platform)''"
  by code_simp

definition st_of :: "vi_cpu \<Rightarrow> cpustat" where
  "st_of s = \<lparr>st_user = vc_user s, st_nice = vc_nice s, st_system = vc_system s, st_idle = vc_idle s,
     st_iowait = vc_iowait s, st_irq = vc_irq s, st_softirq = vc_softirq s, st_steal = vc_steal s\<rparr>"

lemma st_of_line: "cpu_line l = map_option st_of (vi_cpu_line l)"
  by (simp add: cpu_line_def vi_cpu_line_def st_of_def Let_def)

lemma first_some_map: "(\<And>l. f l = map_option h (g l)) \<Longrightarrow> first_some f ls = map_option h (first_some g ls)"
  by (induction ls) (auto split: option.splits)

lemma st_of_read: "st_of (readProcStatCPU sv) = readCPUStat sv"
proof -
  have "st_of vi_zero = cpustat_zero" by (simp add: st_of_def vi_zero_def cpustat_zero_def)
  then show ?thesis
    using first_some_map [of cpu_line st_of vi_cpu_line] st_of_line
    by (auto simp: readProcStatCPU_def readCPUStat_def split: sum.splits option.splits)
qed

lemma vi_steal: "vi_calcStealPct a b = calcStealPct (st_of a) (st_of b)"
  by (simp add: vi_calcStealPct_def calcStealPct_def vi_total_def cpu_total_def st_of_def Let_def)

lemma vi_kb_eq: "vi_kb = kb_line"
  by (simp add: fun_eq_iff vi_kb_def kb_line_def)

lemma vi_devices:
  "vi_listVirtioDevices sv =
   map (\<lambda>d. \<lparr>vi_name = vd_Name d, vi_subsystem = vd_ID d, vi_driver = vd_Driver d\<rparr>) (listVirtioDevices sv)"
proof -
  have "List.map_filter (vi_device_of sv base) es =
    map (\<lambda>d. \<lparr>vi_name = vd_Name d, vi_subsystem = vd_ID d, vi_driver = vd_Driver d\<rparr>)
      (List.map_filter (virtio_device sv base) es)" for base es
    by (induction es) (auto simp: vi_device_of_def virtio_device_def Let_def)
  then show ?thesis by (auto simp: vi_listVirtioDevices_def listVirtioDevices_def Let_def split: prod.splits option.splits)
qed

lemma Glob_cpus: "countVCPUs sv = virt_countCPUs sv"
  by (simp add: countVCPUs_def virt_countCPUs_def Glob_val_def split: sum.splits)

text \<open>On the same two views, vcpu-inspector computes from /proc/stat, /proc/meminfo and sysfs what
  kube-inspect computes: steal time, balloon, memory, number of CPUs and virtio devices, so
  the bounds on the steal time and its wrap-around hold for both.\<close>

theorem vcpu_readers_agree:
  "vi_calcStealPct (readProcStatCPU sv1) (readProcStatCPU sv2) = vr_StealPct (virt_Gather sv1 sv2) \<and>
   readBalloonPages sv2 = (vr_BalloonPages (virt_Gather sv1 sv2), vr_BalloonBytes (virt_Gather sv1 sv2)) \<and>
   readTotalMemory sv2 = vr_MemTotalBytes (virt_Gather sv1 sv2) \<and>
   readMemAvailable sv2 = vr_MemAvailBytes (virt_Gather sv1 sv2) \<and>
   countVCPUs sv1 = vr_VCPUs (virt_Gather sv1 sv2) \<and>
   map vi_name (vi_listVirtioDevices sv2) = map vd_Name (vr_VirtioDevices (virt_Gather sv1 sv2)) \<and>
   map vi_driver (vi_listVirtioDevices sv2) = map vd_Driver (vr_VirtioDevices (virt_Gather sv1 sv2))"
proof -
  have "readBalloonPages sv2 = readBalloon sv2"
    by (simp add: readBalloonPages_def readBalloon_def vi_kb_eq Let_def split: sum.splits option.splits)
  moreover have "readTotalMemory sv2 = readMemField sv2 ''MemTotal:''" "readMemAvailable sv2 = readMemField sv2 ''MemAvailable:''"
    by (simp_all add: readTotalMemory_def readMemAvailable_def readMemField_def vi_kb_eq split: sum.splits)
  ultimately show ?thesis
    by (simp add: virt_Gather_def Let_def vi_steal st_of_read Glob_cpus vi_devices comp_def split: prod.splits)
qed

end
