(* ===== verification/Spec2Isabelle.thy ===== *)
theory Spec2Isabelle
  imports Cli Cluster_Join Mount_Inspector Cgroup_Stats Namespace_Tools Netns_Inspector
    Bpf_Fdinfo Proc_Sched Node_Health Vcpu_Inspector
begin

text \<open>
  Verification development of kube-inspect and of the Go tools of the chapters.

  \<^bold>\<open>The program.\<close> \<open>src/kube-inspect\<close> is a command-line tool that explains a pod, or the node it
  runs on, from what the kernel shows in procfs, sysfs and cgroupfs. Its packages under
  \<open>internal/\<close> are collectors: each reads some files, parses them and returns a record;
  \<open>cmd/kube-inspect/main.go\<close> selects sections by flags and prints them. The packages \<open>netns\<close>,
  \<open>ebpf\<close> and \<open>sched\<close> start from the process listing of \<open>proc\<close>; \<open>kubelet\<close>, \<open>metrics\<close> and \<open>sched\<close>
  look a pod's cgroup up by a glob pattern, \<open>cgroup\<close> by a walk. The tools under
  \<open><chapter>/exercises\<close> are stand-alone programs that repeat some of this for one process or one
  file, and \<open>13-rpi5-lab/exercises/cluster-join\<close> joins a machine to a k3s cluster and waits until
  its node is ready.

  \<^bold>\<open>The model.\<close> A collector is a function from a \<open>sysview\<close> (theory \<open>Go_IO\<close>), which answers the
  file-system calls path by path, to its result; Go's pairs of a value and an error are pairs
  where callers use both, and a sum \<open>go_err + 'a\<close> where they look at the error first. A program
  maps a view and its arguments to the lines it prints and its exit code. A sleep between two
  samples is the step from one view to the next. \<open>uint64\<close> is \<open>64 word\<close>, \<open>float64\<close> is IEEE double
  (\<open>Go_Float\<close>), \<open>int\<close> is an integer whose range is proved or wrapped where it can matter, strings
  are bytes. An index panic is a value (\<open>None\<close>, and the line \<open>Panic\<close> of a run, exit code 2).

  \<^bold>\<open>Theories and sources.\<close>
  \<^item> Go's library: \<open>Prelude\<close> (errors, widths, lists), \<open>Go_Strings\<close> (\<open>strings\<close>), \<open>Go_Strconv\<close>
    (\<open>strconv\<close>), \<open>Go_Path\<close> (\<open>path/filepath\<close>, UTF-8), \<open>Go_IO\<close> (\<open>os\<close>, \<open>bufio.Scanner\<close>, \<open>Glob\<close>,
    \<open>WalkDir\<close>), \<open>Go_Float\<close> (\<open>float64\<close>), \<open>Go_Fmt\<close> (\<open>fmt\<close>, outputs), \<open>Go_Json\<close> (strings of
    \<open>encoding/json\<close>), \<open>Go_Net\<close> (\<open>net.ParseIP\<close>, two regular expressions, base64).
  \<^item> Shared shapes: \<open>Loops\<close> (locales \<open>keyed_scan\<close>, \<open>keyed_scan_ext\<close>, \<open>seen_set\<close>), \<open>Formats\<close> (the
    kernel's file formats with their renderers, locale \<open>psi_source\<close>), \<open>Pod_Glob\<close> (the glob lookup,
    locale \<open>pod_finder\<close>), \<open>Metrics\<close> (locale \<open>ratio_metric\<close>), \<open>Proc\<close> (the contract of the process
    listing). Every reader, lookup and ratio of the repository interprets the locale it belongs to.
  \<^item> Packages of kube-inspect: \<open>Proc\<close> (\<open>internal/proc\<close>), \<open>Cgroup\<close>, \<open>Kubelet\<close>, \<open>Metrics\<close>, \<open>Sched\<close>,
    \<open>Netns\<close>, \<open>Ebpf\<close>, \<open>Health\<close>, \<open>Virt\<close>, \<open>Arch\<close> (the package of the same name), \<open>Cli\<close>
    (\<open>cmd/kube-inspect/main.go\<close>).
  \<^item> Exercises: \<open>Mount_Inspector\<close> (mount-inspector), \<open>Pressure_Readers\<close> (psi-reader,
    node-pressure-reader), \<open>Cgroup_Stats\<close> (cgroup-stats, sched-latency-reader), \<open>Namespace_Tools\<close>
    (proc-walker, namespace-inspector), \<open>Netns_Inspector\<close> (netns-inspector), \<open>Bpf_Fdinfo\<close>
    (bpf-fdinfo-reader), \<open>Proc_Sched\<close> (proc-sched-reader), \<open>Node_Health\<close> (node-health-reader),
    \<open>Vcpu_Inspector\<close> (vcpu-inspector), \<open>Cluster_Wait\<close> and \<open>Cluster_Join\<close> (cluster-join).
  Definitions keep the names of the source; where two programs use one name, those of an exercise
  carry the prefix its theory names.

  \<^bold>\<open>What is proved.\<close>
  \<^item> Collectors: each returns exactly what the files say (the process listing, the namespaces, the
    BPF objects once each, the affinities once each), reads back the formats of the kernel (mount
    tables, pressure files, counter files, interface tables, scheduler files), and fails exactly
    when it should; counters and ratios stay in their bounds, with the wrap-around where they do
    not.
  \<^item> Programs that repeat each other's code agree: mountinfo parsers, pressure readers, throttling
    and latency, BPF scans, interface readers, health reports, hypervisor detection, layer counts;
    each statement names the inputs on which they differ.
  \<^item> The command line: exit codes, every section printed whichever others fail, JSON lines that
    no process can break.
  \<^item> cluster-join: the wait is a step relation with an invariant, and the loop refines it; it ends
    after the deadline when \<open>kubectl\<close> is quick, finds a node that becomes ready, and may overrun
    when \<open>kubectl\<close> is slow. The run is a trace: the installer is executed only after all checks, no
    temporary file stays, the output does not depend on the token.

  \<^bold>\<open>Bounds.\<close> Lines of 65536 bytes and more end a scan as \<open>bufio.Scanner\<close> does; renderers of kernel
  files state the lengths they need. The wait loop is a \<open>partial_function\<close>, so its termination is
  a theorem; no definition has fuel. \<open>nn_watch\<close> runs over the finite list of snapshots it is
  given, as the loop of netns-inspector has no end of its own.

  \<^bold>\<open>Not modelled.\<close> The \<open>flag\<close> package (programs that use it start from the values of their flags),
  the scheduling of the two views (any two are allowed), and what cluster-join only calls: the
  HTTPS client, the parsers of certificates and of the JSON of \<open>kubectl\<close>, the processes it starts;
  these are the record \<open>join_world\<close>, about which nothing is assumed. \<open>%q\<close> is kept as a format and
  its argument. The C programs of the chapters are demonstrations of system calls without logic
  of their own and have no model here, nor have Makefiles and documents.
\<close>

subsection \<open>Three counts of overlay layers\<close>

definition lowerdir_opts :: "string \<Rightarrow> string list" where
  "lowerdir_opts opts = filter (\<lambda>opt. HasPrefix opt ''lowerdir='') (Split CHR '','' opts)"

definition layers_of :: "string \<Rightarrow> nat" where
  "layers_of opt = Count (TrimPrefix opt ''lowerdir='') CHR '':'' + 1"

text \<open>The command line takes the last option, the other two the first.\<close>

lemma main_layers_last: "main_layers opts = (if lowerdir_opts opts = [] then 0 else layers_of (last (lowerdir_opts opts)))"
proof -
  have "fold (\<lambda>opt layers. if HasPrefix opt ''lowerdir='' then Count (TrimPrefix opt ''lowerdir='') CHR '':'' + 1 else layers) os n =
    (let ls = filter (\<lambda>opt. HasPrefix opt ''lowerdir='') os in if ls = [] then n else layers_of (last ls))" for os n
    by (induction os arbitrary: n) (simp_all add: layers_of_def Let_def)
  then show ?thesis by (simp add: main_layers_def lowerdir_opts_def Let_def)
qed

lemma lowerdir_layers_hd:
  "lowerdir_layers os = (case filter (\<lambda>opt. HasPrefix opt ''lowerdir='') os of [] \<Rightarrow> None | o1 # _ \<Rightarrow> Some (layers_of o1))"
  by (induction os) (simp_all add: layers_of_def)

lemma overlayLayerCount_hd:
  "overlayLayerCount opts = (case lowerdir_opts opts of [] \<Rightarrow> 0 | o1 # _ \<Rightarrow> layers_of o1)"
proof -
  have "mx_layers os = (case filter (\<lambda>opt. HasPrefix opt ''lowerdir='') os of [] \<Rightarrow> 0 | o1 # _ \<Rightarrow> layers_of o1)" for os
    by (induction os) (simp_all add: layers_of_def)
  then show ?thesis by (simp add: overlayLayerCount_def lowerdir_opts_def)
qed

text \<open>C34. On an overlay mounted at the root with exactly one lowerdir option the three programs'
  layer counts agree: the inline count of the command line, CountOverlayLayers of the proc
  package, and mount-inspector.\<close>

theorem layer_counts:
  assumes "root_overlay m" and "lowerdir_opts (mi_SuperOpts m) = [opt]"
  shows "main_layers (mi_SuperOpts m) = layers_of opt \<and> overlayLayerCount (mi_SuperOpts m) = layers_of opt \<and>
    count_layers (m # ms) = layers_of opt"
  using assms lowerdir_layers_hd [of "Split CHR '','' (mi_SuperOpts m)"]
  by (simp add: main_layers_last overlayLayerCount_hd count_layers_def lowerdir_opts_def)

definition demo_overlay :: mountinfo where
  "demo_overlay = \<lparr>mi_MountID = 1, mi_ParentID = 0, mi_Root = ''/'', mi_MountPoint = ''/'', mi_Options = ''rw'', mi_FSType = ''overlay'',
     mi_Source = ''overlay'', mi_SuperOpts = ''rw,lowerdir=/a:/b:/c,upperdir=/u''\<rparr>"

theorem layer_counts_witness:
  "main_layers (mi_SuperOpts demo_overlay) = 3 \<and> overlayLayerCount (mi_SuperOpts demo_overlay) = 3 \<and> count_layers [demo_overlay] = 3"
proof -
  have "root_overlay demo_overlay" "lowerdir_opts (mi_SuperOpts demo_overlay) = [''lowerdir=/a:/b:/c'']"
    "layers_of ''lowerdir=/a:/b:/c'' = 3" by code_simp+
  then show ?thesis using layer_counts [of demo_overlay "''lowerdir=/a:/b:/c''" "[]"] by simp
qed

text \<open>Without the option, or with two of them, they differ: the proc package counts one layer where
  the others count none, and the command line takes the last option where the others take the
  first.\<close>

lemma layer_counts_differ:
  "main_layers ''rw'' = 0" "overlayLayerCount ''rw'' = 0" "count_layers [demo_overlay\<lparr>mi_SuperOpts := ''rw''\<rparr>] = 1"
  "main_layers ''lowerdir=/a,lowerdir=/b:/c'' = 2" "overlayLayerCount ''lowerdir=/a,lowerdir=/b:/c'' = 1"
  by code_simp+

end
